(* ===== verification/Prelude.thy ===== *)
theory Prelude
  imports Main "HOL-Library.Word" "HOL-Library.Signed_Division" "HOL-Library.AList"
    "HOL-Library.Multiset"
begin

text \<open>
  The prelude of the development: the names of the model's basic types (a Go \<open>int64\<close> is a
  \<open>64 word\<close> read by \<open>sint\<close>, a Go \<open>map[string]string\<close> is an association list whose order is
  the order in which one \<open>range\<close> statement visits it), the loop combinator for a \<open>range\<close> body
  that may return early, Go's truncating integer division, and the list and word lemmas that
  several components share. Facts that component proofs feed to the simplifier are collected in
  named collections.
\<close>

named_theorems go_arith \<open>signed readings of Go's int64 operations\<close>
named_theorems string_simps \<open>rewriting of the Go string library\<close>
named_theorems err_simps \<open>classification of Go errors\<close>

subsection \<open>Types\<close>

type_synonym int64 = "64 word"

type_synonym gomap = "(string \<times> string) list"

text \<open>A Go map has distinct keys; the list order is the visiting order of a \<open>range\<close>.\<close>

definition go_map_ok :: "('a \<times> 'b) list \<Rightarrow> bool" where
  "go_map_ok m \<longleftrightarrow> distinct (map fst m)"

text \<open>Two visiting orders of one map.\<close>

definition same_map :: "('a \<times> 'b) list \<Rightarrow> ('a \<times> 'b) list \<Rightarrow> bool" where
  "same_map m m' \<longleftrightarrow> mset m = mset m'"

lemma same_map_refl [simp, intro]: "same_map m m"
  by (simp add: same_map_def)

lemma same_map_set: "same_map m m' \<Longrightarrow> set m = set m'"
  unfolding same_map_def by (rule mset_eq_setD)

lemma same_map_image: "same_map m m' \<Longrightarrow> mset (map f m) = mset (map f m')"
  by (simp add: same_map_def)

lemma same_map_distinct: "same_map m m' \<Longrightarrow> distinct (map f m) \<longleftrightarrow> distinct (map f m')"
  by (metis same_map_image mset_eq_imp_distinct_iff)

lemma same_map_ok: "same_map m m' \<Longrightarrow> go_map_ok m \<longleftrightarrow> go_map_ok m'"
  by (simp add: go_map_ok_def same_map_distinct)

lemma update_go_map_ok: "go_map_ok m \<Longrightarrow> go_map_ok (AList.update k v m)"
  by (simp add: go_map_ok_def distinct_update)

subsection \<open>A range loop with early return\<close>

fun range_loop :: "('a \<Rightarrow> 's \<Rightarrow> 'e + 's) \<Rightarrow> 'a list \<Rightarrow> 's \<Rightarrow> 'e + 's" where
  "range_loop f [] s = Inr s"
| "range_loop f (x # xs) s = (case f x s of Inl e \<Rightarrow> Inl e | Inr s' \<Rightarrow> range_loop f xs s')"

lemma range_loop_append:
  "range_loop f (xs @ ys) s =
     (case range_loop f xs s of Inl e \<Rightarrow> Inl e | Inr s' \<Rightarrow> range_loop f ys s')"
  by (induction xs arbitrary: s) (auto split: sum.splits)

lemma range_loop_invariant:
  assumes "P s" and "\<And>x s s'. x \<in> set xs \<Longrightarrow> P s \<Longrightarrow> f x s = Inr s' \<Longrightarrow> P s'"
    and "range_loop f xs s = Inr t"
  shows "P t"
  using assms
proof (induction xs arbitrary: s)
  case Nil
  then show ?case by simp
next
  case (Cons x xs)
  from Cons.prems(3) obtain s' where s': "f x s = Inr s'" "range_loop f xs s' = Inr t"
    by (auto split: sum.splits)
  have "P s'" using Cons.prems(1,2) s'(1) by auto
  then show ?case using Cons.IH [of s'] Cons.prems(2) s'(2) by auto
qed

lemma range_loop_error:
  "range_loop f xs s = Inl e \<Longrightarrow> \<exists>x s'. x \<in> set xs \<and> f x s' = Inl e"
  by (induction xs arbitrary: s) (fastforce split: sum.splits)+

lemma range_loop_total:
  assumes "\<And>x s. x \<in> set xs \<Longrightarrow> f x s = Inr (g x s)"
  shows "range_loop f xs s = Inr (fold g xs s)"
  using assms by (induction xs arbitrary: s) auto

subsection \<open>Go's int64 arithmetic\<close>

text \<open>Go's \<open>/\<close> and \<open>%\<close> truncate towards zero (the divisor is never zero where they are used).\<close>

definition go_div :: "int64 \<Rightarrow> int64 \<Rightarrow> int64" where
  "go_div a b = word_of_int (sint a sdiv sint b)"

definition go_mod :: "int64 \<Rightarrow> int64 \<Rightarrow> int64" where
  "go_mod a b = word_of_int (sint a smod sint b)"

lemma sint_of_int64 [go_arith]:
  "- (2 ^ 63) \<le> i \<Longrightarrow> i < 2 ^ 63 \<Longrightarrow> sint (word_of_int i :: int64) = i"
  by (simp add: sint_sbintrunc' signed_take_bit_int_eq_self)

lemma sint64_ge: "- (2 ^ 63) \<le> sint (x :: int64)"
  using sint_ge [of x] by simp

lemma sint64_lt: "sint (x :: int64) < 2 ^ 63"
  using sint_lt [of x] by simp

lemma word_eq_of_sint: "x = (word_of_int (sint x) :: int64)"
  by simp

lemma sint64_add [go_arith]:
  "- (2 ^ 63) \<le> sint a + sint b \<Longrightarrow> sint a + sint b < 2 ^ 63 \<Longrightarrow>
     sint (a + b :: int64) = sint a + sint b"
  by (simp add: sint_word_ariths signed_take_bit_int_eq_self)

lemma sint64_mult [go_arith]:
  "- (2 ^ 63) \<le> sint a * sint b \<Longrightarrow> sint a * sint b < 2 ^ 63 \<Longrightarrow>
     sint (a * b :: int64) = sint a * sint b"
  by (simp add: sint_word_ariths signed_take_bit_int_eq_self)

lemma sint64_diff [go_arith]:
  "- (2 ^ 63) \<le> sint a - sint b \<Longrightarrow> sint a - sint b < 2 ^ 63 \<Longrightarrow>
     sint (a - b :: int64) = sint a - sint b"
  by (simp add: sint_word_ariths signed_take_bit_int_eq_self)

lemma sdiv_nonneg: "0 \<le> a \<Longrightarrow> 0 < b \<Longrightarrow> a sdiv b = a div (b :: int)"
  by (cases "a = 0") (auto simp: signed_divide_int_def)

lemma smod_nonneg: "0 \<le> a \<Longrightarrow> 0 < b \<Longrightarrow> a smod b = a mod (b :: int)"
  using sdiv_nonneg [of a b] minus_sdiv_mult_eq_smod [of a b] minus_div_mult_eq_mod [of a b]
  by simp

lemma sint_go_div [go_arith]:
  assumes "0 \<le> sint a" "0 < sint b"
  shows "sint (go_div a b) = sint a div sint b"
proof -
  have "sint a div sint b \<le> sint a" "0 \<le> sint a div sint b"
    using assms zdiv_mono2 [of "sint a" 1 "sint b"]
    by (auto simp: pos_imp_zdiv_nonneg_iff)
  then show ?thesis
    using assms sint64_lt [of a]
    by (simp add: go_div_def sdiv_nonneg sint_of_int64)
qed

lemma sint_go_mod [go_arith]:
  assumes "0 \<le> sint a" "0 < sint b"
  shows "sint (go_mod a b) = sint a mod sint b"
proof -
  have "0 \<le> sint a mod sint b" "sint a mod sint b < sint b"
    using assms by auto
  then have "sint (word_of_int (sint a mod sint b) :: int64) = sint a mod sint b"
    using sint64_lt [of b] by (intro sint_of_int64) linarith+
  then show ?thesis
    using assms by (simp add: go_mod_def smod_nonneg)
qed

lemma sdiv_neg: "a < 0 \<Longrightarrow> 0 < b \<Longrightarrow> a sdiv b = - (- a div (b :: int))"
  by (simp add: signed_divide_int_def)

lemma sint_go_div_pos:
  assumes "0 < sint b"
  shows "sint (go_div a b) = sint a sdiv sint b"
proof (cases "0 \<le> sint a")
  case True
  then show ?thesis using assms by (simp add: sint_go_div sdiv_nonneg)
next
  case False
  have "- sint a div sint b \<le> - sint a" "0 \<le> - sint a div sint b"
    using False assms zdiv_mono2 [of "- sint a" 1 "sint b"]
    by (auto simp: pos_imp_zdiv_nonneg_iff)
  then have "- (2 ^ 63) \<le> sint a sdiv sint b" "sint a sdiv sint b < 2 ^ 63"
    using False assms sint64_ge [of a] by (simp_all add: sdiv_neg)
  then show ?thesis unfolding go_div_def by (rule sint_of_int64)
qed

lemma sint_go_mod_neg:
  assumes "sint a < 0" "0 < sint b"
  shows "sint (go_mod a b) \<le> 0"
proof -
  have "sint a smod sint b = sint a - (sint a sdiv sint b) * sint b"
    by (simp add: minus_sdiv_mult_eq_smod)
  also have "\<dots> = - (- sint a mod sint b)"
    using assms by (simp add: sdiv_neg minus_div_mult_eq_mod [symmetric])
  finally have eq: "sint a smod sint b = - (- sint a mod sint b)" .
  have "0 \<le> - sint a mod sint b" "- sint a mod sint b < sint b" using assms by auto
  then have "sint (go_mod a b) = - (- sint a mod sint b)"
    unfolding go_mod_def eq using sint64_lt [of b] by (intro sint_of_int64) linarith+
  then show ?thesis using \<open>0 \<le> - sint a mod sint b\<close> by simp
qed

lemma sless_0_iff: "0 <s (x :: int64) \<longleftrightarrow> 0 < sint x"
  by (simp add: word_sless_alt)

text \<open>Rounding up as integers: the ceiling of a quotient is minus the floor of its negation.\<close>

lemma ceil_div_int:
  "0 < b \<Longrightarrow> - ((- a) div b) = (if 0 < a mod b then a div b + 1 else a div (b :: int))"
  using zdiv_zminus1_eq_if [of b a] by (auto simp: order_less_le)

lemma ceil_div_bounds:
  assumes "0 < (b :: int)"
  shows "a \<le> - ((- a) div b) * b" "- ((- a) div b) * b < a + b"
proof -
  have "(- a) div b * b \<le> - a" "- a < (- a) div b * b + b"
    using assms by (auto simp: minus_mod_eq_div_mult [symmetric])
  then show "a \<le> - ((- a) div b) * b" "- ((- a) div b) * b < a + b"
    by (auto simp: algebra_simps)
qed

end
