(* ===== verification/Go_Strings.thy ===== *)
theory Go_Strings
  imports Prelude "HOL-Library.List_Lexorder" "HOL-Library.Char_ord"
begin

text \<open>
  The part of Go's string library that the driver calls, on byte strings: a Go string is a
  sequence of bytes and a HOL \<open>char\<close> is a byte. \<open>strings.Split\<close>, \<open>SplitN\<close>, \<open>Trim\<close>,
  \<open>TrimSpace\<close>, \<open>ToLower\<close>, \<open>EqualFold\<close>, \<open>Contains\<close>, \<open>HasPrefix\<close>, \<open>ReplaceAll\<close>,
  \<open>Join\<close>, \<open>strconv.ParseInt\<close> and the decimal and quoted verbs of \<open>fmt.Sprintf\<close>.

  Unicode. The driver compares case-folded keys with ASCII constants only. Go lower-cases two
  non-ASCII runes into ASCII (U+0130 to \<open>i\<close>, U+212A to \<open>k\<close>) and folds two into ASCII
  (U+212A with \<open>k\<close>, U+017F with \<open>s\<close>); both are written out below on their UTF-8 bytes, so
  the comparisons with an ASCII string come out as Go's do. Other non-ASCII letters are left as
  they are, which no comparison with an ASCII string can observe. \<open>TrimSpace\<close> knows every rune
  of Unicode's White\_Space.
\<close>

subsection \<open>Prefixes, substrings, cutting\<close>

definition has_prefix :: "string \<Rightarrow> string \<Rightarrow> bool" where
  "has_prefix s p \<longleftrightarrow> take (length p) s = p"

lemma has_prefix_append [simp]: "has_prefix (p @ s) p"
  by (simp add: has_prefix_def)

lemma has_prefix_Nil [simp]: "has_prefix s []"
  by (simp add: has_prefix_def)

lemma has_prefix_iff: "has_prefix s p \<longleftrightarrow> (\<exists>t. s = p @ t)"
  unfolding has_prefix_def by (metis append_take_drop_id append_eq_conv_conj)

fun contains :: "string \<Rightarrow> string \<Rightarrow> bool" where
  "contains [] sub \<longleftrightarrow> sub = []"
| "contains (c # cs) sub \<longleftrightarrow> has_prefix (c # cs) sub \<or> contains cs sub"

lemma contains_iff: "contains s sub \<longleftrightarrow> (\<exists>a b. s = a @ sub @ b)"
proof (induction s)
  case Nil
  then show ?case by auto
next
  case (Cons c cs)
  have "(\<exists>a b. c # cs = a @ sub @ b) \<longleftrightarrow>
      (\<exists>b. c # cs = sub @ b) \<or> (\<exists>a b. cs = a @ sub @ b)"
    by (metis append_Cons append_Nil list.exhaust list.inject)
  then show ?case using Cons by (simp add: has_prefix_iff)
qed

lemma contains_mid [simp]: "contains (a @ sub @ b) sub"
  by (auto simp: contains_iff)

lemma contains_append1 [intro]: "contains s sub \<Longrightarrow> contains (t @ s) sub"
  by (metis contains_iff append_assoc)

lemma contains_append2 [intro]: "contains s sub \<Longrightarrow> contains (s @ t) sub"
  by (metis contains_iff append_assoc)

lemma contains_self [simp]: "contains s s"
  using contains_mid [of "[]" s "[]"] by simp

text \<open>\<open>strings.SplitN(s, sep, 2)\<close>: cut at the first occurrence of \<open>sep\<close>.\<close>

fun cut :: "string \<Rightarrow> string \<Rightarrow> (string \<times> string) option" where
  "cut sep [] = (if sep = [] then Some ([], []) else None)"
| "cut sep (c # cs) =
     (if has_prefix (c # cs) sep then Some ([], drop (length sep) (c # cs))
      else map_option (apfst (Cons c)) (cut sep cs))"

lemma cut_Some: "cut sep s = Some (a, b) \<Longrightarrow> s = a @ sep @ b"
proof (induction s arbitrary: a)
  case Nil
  then show ?case by (simp split: if_splits)
next
  case (Cons c cs)
  then show ?case
    by (auto simp: has_prefix_iff split: if_splits)
qed

lemma cut_None: "cut sep s = None \<longleftrightarrow> \<not> contains s sep"
  by (induction s) (auto simp: has_prefix_def)

subsection \<open>Splitting at a single byte and joining\<close>

fun split :: "char \<Rightarrow> string \<Rightarrow> string list" where
  "split c [] = [[]]"
| "split c (x # xs) =
     (if x = c then [] # split c xs
      else case split c xs of [] \<Rightarrow> [[x]] | p # ps \<Rightarrow> (x # p) # ps)"

fun join :: "string \<Rightarrow> string list \<Rightarrow> string" where
  "join sep [] = []"
| "join sep [p] = p"
| "join sep (p # q # ps) = p @ sep @ join sep (q # ps)"

lemma split_nonempty [simp]: "split c s \<noteq> []"
  by (induction s) (auto split: list.splits)

lemma split_no_sep: "p \<in> set (split c s) \<Longrightarrow> c \<notin> set p"
  by (induction s arbitrary: p) (auto split: if_splits list.splits)

lemma split_set: "p \<in> set (split c s) \<Longrightarrow> set p \<subseteq> set s"
proof (induction s arbitrary: p)
  case Nil
  then show ?case by simp
next
  case (Cons x xs)
  then show ?case by (fastforce split: if_splits list.splits)
qed

lemma split_plain [string_simps]: "c \<notin> set s \<Longrightarrow> split c s = [s]"
  by (induction s) auto

lemma split_append_sep [string_simps]: "c \<notin> set s \<Longrightarrow> split c (s @ c # t) = s # split c t"
  by (induction s) auto

lemma split_app: "split c (s @ c # t) = split c s @ split c t"
  by (induction s) (auto split: list.splits)

lemma join_Cons: "ps \<noteq> [] \<Longrightarrow> join sep (p # ps) = p @ sep @ join sep ps"
  by (cases ps) auto

lemma join_prefix: "join sep ((a @ b) # ps) = a @ join sep (b # ps)"
  by (cases ps) auto

lemma join_split: "join [c] (split c s) = s"
proof (induction s)
  case Nil
  then show ?case by simp
next
  case (Cons x xs)
  show ?case
  proof (cases "x = c")
    case True
    then show ?thesis using Cons by (simp add: join_Cons)
  next
    case False
    obtain p ps where "split c xs = p # ps" by (cases "split c xs") auto
    then show ?thesis using Cons False by (cases ps) auto
  qed
qed

lemma split_join:
  "ps \<noteq> [] \<Longrightarrow> (\<And>p. p \<in> set ps \<Longrightarrow> c \<notin> set p) \<Longrightarrow> split c (join [c] ps) = ps"
  by (induction ps rule: induct_list012) (auto simp: split_plain split_append_sep)

subsection \<open>Trimming\<close>

definition trim_byte :: "char \<Rightarrow> string \<Rightarrow> string" where
  "trim_byte c s = rev (dropWhile (\<lambda>x. x = c) (rev (dropWhile (\<lambda>x. x = c) s)))"

lemma trim_byte_set: "set (trim_byte c s) \<subseteq> set s"
  unfolding trim_byte_def using set_dropWhileD by (force dest: set_dropWhileD)

lemma trim_byte_hd: "trim_byte c s \<noteq> [] \<Longrightarrow> hd (trim_byte c s) \<noteq> c"
proof -
  assume ne: "trim_byte c s \<noteq> []"
  define t where "t = dropWhile (\<lambda>x. x = c) s"
  have t: "t \<noteq> []"
    using ne unfolding trim_byte_def t_def by (metis dropWhile.simps(1) rev.simps(1))
  obtain u where u: "t = u @ rev (takeWhile (\<lambda>x. x = c) (rev t))"
      "u = rev (dropWhile (\<lambda>x. x = c) (rev t))"
    by (metis rev_append rev_rev_ident takeWhile_dropWhile_id)
  have "u \<noteq> []" using ne u(2) by (simp add: trim_byte_def t_def)
  then have "hd u = hd t" using u(1) by (metis hd_append2)
  moreover have "hd t \<noteq> c"
    using t hd_dropWhile [of "\<lambda>x. x = c" s] by (simp add: t_def)
  ultimately show ?thesis using u(2) by (simp add: trim_byte_def t_def)
qed

lemma trim_byte_last: "trim_byte c s \<noteq> [] \<Longrightarrow> last (trim_byte c s) \<noteq> c"
  unfolding trim_byte_def by (metis (mono_tags, lifting) hd_dropWhile last_rev rev_is_Nil_conv)

lemma dropWhile_hd_id: "s = [] \<or> \<not> P (hd s) \<Longrightarrow> dropWhile P s = s"
  by (cases s) auto

lemma trim_byte_id: "s = [] \<or> hd s \<noteq> c \<and> last s \<noteq> c \<Longrightarrow> trim_byte c s = s"
  unfolding trim_byte_def by (auto simp: dropWhile_hd_id hd_rev)

lemma trim_byte_idem [simp]: "trim_byte c (trim_byte c s) = trim_byte c s"
  using trim_byte_id [of "trim_byte c s" c] trim_byte_hd trim_byte_last by blast

text \<open>
  The encodings of the runes with Unicode's White\_Space property: the ASCII ones, U+0085,
  U+00A0, U+1680, U+2000 to U+200A, U+2028, U+2029, U+202F, U+205F and U+3000.
\<close>

definition ascii_spaces :: "string list" where
  "ascii_spaces = [[CHR 0x09], [CHR 0x0A], [CHR 0x0B], [CHR 0x0C], [CHR 0x0D], [CHR 0x20]]"

definition space_encodings :: "string list" where
  "space_encodings = ascii_spaces @
     [[CHR 0xC2, CHR 0x85], [CHR 0xC2, CHR 0xA0], [CHR 0xE1, CHR 0x9A, CHR 0x80]] @
     map (\<lambda>n. [CHR 0xE2, CHR 0x80, char_of n]) ([0x80..<0x8B :: nat] @ [0xA8, 0xA9, 0xAF]) @
     [[CHR 0xE2, CHR 0x81, CHR 0x9F], [CHR 0xE3, CHR 0x80, CHR 0x80]]"

lemma space_encodings_nonempty: "p \<in> set space_encodings \<Longrightarrow> p \<noteq> []"
  by (auto simp: space_encodings_def ascii_spaces_def)

definition drop_space :: "string list \<Rightarrow> string \<Rightarrow> string option" where
  "drop_space encs s =
     (case filter (\<lambda>p. has_prefix s p) encs of [] \<Rightarrow> None | p # _ \<Rightarrow> Some (drop (length p) s))"

fun trim_left_fuel :: "string list \<Rightarrow> nat \<Rightarrow> string \<Rightarrow> string" where
  "trim_left_fuel encs 0 s = s"
| "trim_left_fuel encs (Suc n) s =
     (case drop_space encs s of None \<Rightarrow> s | Some t \<Rightarrow> trim_left_fuel encs n t)"

text \<open>Each step removes at least one byte, so the length of the string is enough fuel.\<close>

definition trim_space :: "string \<Rightarrow> string" where
  "trim_space s =
     (let t = trim_left_fuel space_encodings (length s) s
      in rev (trim_left_fuel (map rev space_encodings) (length t) (rev t)))"

text \<open>A visible byte: printable ASCII other than the space.\<close>

definition visible :: "char \<Rightarrow> bool" where
  "visible c \<longleftrightarrow> 0x21 \<le> (of_char c :: nat) \<and> (of_char c :: nat) \<le> 0x7E"

lemma drop_space_visible:
  assumes "s = [] \<or> visible (hd s)"
    and "\<And>p. p \<in> set encs \<Longrightarrow> p \<noteq> [] \<and> \<not> visible (hd p)"
  shows "drop_space encs s = None"
proof -
  have "\<not> has_prefix s p" if "p \<in> set encs" for p
    using assms(1) assms(2) [OF that] by (cases s; cases p) (auto simp: has_prefix_def)
  then have "filter (\<lambda>p. has_prefix s p) encs = []" by (simp add: filter_empty_conv)
  then show ?thesis by (simp add: drop_space_def)
qed

lemma trim_left_visible:
  assumes "s = [] \<or> visible (hd s)"
    and "\<And>p. p \<in> set encs \<Longrightarrow> p \<noteq> [] \<and> \<not> visible (hd p)"
  shows "trim_left_fuel encs n s = s"
  using drop_space_visible [OF assms] by (cases n) auto

lemma space_encodings_invisible:
  "list_all (\<lambda>p. p \<noteq> [] \<and> \<not> visible (hd p) \<and> \<not> visible (last p)) space_encodings"
  by code_simp

lemma trim_space_visible [string_simps]:
  assumes "\<And>c. c \<in> set s \<Longrightarrow> visible c"
  shows "trim_space s = s"
proof -
  have l: "p \<noteq> [] \<and> \<not> visible (hd p)" if "p \<in> set space_encodings" for p
    using that space_encodings_invisible by (simp add: list_all_iff)
  have r: "p \<noteq> [] \<and> \<not> visible (hd p)" if "p \<in> set (map rev space_encodings)" for p
    using that space_encodings_invisible by (auto simp: list_all_iff hd_rev)
  have hd: "s = [] \<or> visible (hd s)" and lst: "rev s = [] \<or> visible (hd (rev s))"
    using assms [of "hd s"] assms [of "last s"] by (simp_all add: hd_rev) (metis hd_in_set last_in_set)+
  have "trim_left_fuel (map rev space_encodings) n (rev s) = rev s" for n
    using lst r by (rule trim_left_visible)
  moreover have "trim_left_fuel space_encodings n s = s" for n
    using hd l by (rule trim_left_visible)
  ultimately show ?thesis by (simp add: trim_space_def Let_def)
qed

lemma drop_space_shorter:
  "drop_space encs s = Some t \<Longrightarrow> (\<And>p. p \<in> set encs \<Longrightarrow> p \<noteq> []) \<Longrightarrow> length t < length s"
proof -
  assume d: "drop_space encs s = Some t" and ne: "\<And>p. p \<in> set encs \<Longrightarrow> p \<noteq> []"
  from d obtain p ps where f: "filter (\<lambda>p. has_prefix s p) encs = p # ps" "t = drop (length p) s"
    by (auto simp: drop_space_def split: list.splits)
  have "p \<in> set encs" "has_prefix s p"
    using arg_cong [OF f(1), of set] by auto
  then show ?thesis using f(2) ne [of p] by (auto simp: has_prefix_iff)
qed

text \<open>With the length as fuel the trimmed string does not start with white space.\<close>

lemma trim_left_complete:
  assumes "\<And>p. p \<in> set encs \<Longrightarrow> p \<noteq> []" and "length s \<le> n"
  shows "drop_space encs (trim_left_fuel encs n s) = None"
  using assms(2)
proof (induction n arbitrary: s)
  case 0
  have "\<not> has_prefix [] p" if "p \<in> set encs" for p
    using assms(1) [OF that] by (simp add: has_prefix_def)
  then show ?case using 0 by (simp add: drop_space_def filter_empty_conv)
next
  case (Suc n)
  show ?case
  proof (cases "drop_space encs s")
    case (Some t)
    then have "length t \<le> n" using drop_space_shorter [OF Some assms(1)] Suc.prems by simp
    then show ?thesis using Some Suc.IH by simp
  qed simp
qed

subsection \<open>Case folding\<close>

definition ascii_lower :: "char \<Rightarrow> char" where
  "ascii_lower c =
     (let n = (of_char c :: nat) in if 0x41 \<le> n \<and> n \<le> 0x5A then char_of (n + 0x20) else c)"

definition rune_K :: string where "rune_K = [CHR 0xE2, CHR 0x84, CHR 0xAA]"
definition rune_dotted_I :: string where "rune_dotted_I = [CHR 0xC4, CHR 0xB0]"
definition rune_long_s :: string where "rune_long_s = [CHR 0xC5, CHR 0xBF]"

function to_lower :: "string \<Rightarrow> string" where
  "to_lower s =
     (if s = [] then []
      else if has_prefix s rune_K then CHR ''k'' # to_lower (drop 3 s)
      else if has_prefix s rune_dotted_I then CHR ''i'' # to_lower (drop 2 s)
      else ascii_lower (hd s) # to_lower (tl s))"
  by pat_completeness auto
termination
  by (relation "measure length") auto

declare to_lower.simps [simp del]

function fold_key :: "string \<Rightarrow> string" where
  "fold_key s =
     (if s = [] then []
      else if has_prefix s rune_K then CHR ''k'' # fold_key (drop 3 s)
      else if has_prefix s rune_long_s then CHR ''s'' # fold_key (drop 2 s)
      else ascii_lower (hd s) # fold_key (tl s))"
  by pat_completeness auto
termination
  by (relation "measure length") auto

declare fold_key.simps [simp del]

text \<open>\<open>strings.EqualFold\<close>; exact when one of the two strings is ASCII.\<close>

definition equal_fold :: "string \<Rightarrow> string \<Rightarrow> bool" where
  "equal_fold s t \<longleftrightarrow> fold_key s = fold_key t"

lemma equal_fold_refl [simp]: "equal_fold s s"
  by (simp add: equal_fold_def)

lemma equal_fold_sym: "equal_fold s t \<longleftrightarrow> equal_fold t s"
  by (auto simp: equal_fold_def)

lemma equal_fold_trans: "equal_fold s t \<Longrightarrow> equal_fold t u \<Longrightarrow> equal_fold s u"
  by (simp add: equal_fold_def)

definition ascii :: "string \<Rightarrow> bool" where
  "ascii s \<longleftrightarrow> list_all (\<lambda>c. (of_char c :: nat) < 0x80) s"

lemma ascii_simps [simp]: "ascii []" "ascii (c # cs) \<longleftrightarrow> (of_char c :: nat) < 0x80 \<and> ascii cs"
  by (auto simp: ascii_def)

lemma ascii_no_rune:
  assumes "ascii s"
  shows "\<not> has_prefix s rune_K" "\<not> has_prefix s rune_dotted_I" "\<not> has_prefix s rune_long_s"
  using assms by (cases s; auto simp: has_prefix_def rune_K_def rune_dotted_I_def rune_long_s_def)+

lemma to_lower_ascii: "ascii s \<Longrightarrow> to_lower s = map ascii_lower s"
  by (induction s) (subst to_lower.simps; simp add: ascii_no_rune)+

lemma fold_key_ascii: "ascii s \<Longrightarrow> fold_key s = map ascii_lower s"
  by (induction s) (subst fold_key.simps; simp add: ascii_no_rune)+

text \<open>On ASCII keys the two case-insensitive comparisons of the driver agree.\<close>

lemma equal_fold_lower:
  "ascii s \<Longrightarrow> ascii t \<Longrightarrow> equal_fold s t \<longleftrightarrow> to_lower s = to_lower t"
  by (simp add: equal_fold_def fold_key_ascii to_lower_ascii)

subsection \<open>Replacement\<close>

text \<open>\<open>strings.ReplaceAll(s, old, new)\<close> for a non-empty \<open>old\<close>: left to right, no overlap.\<close>

function replace_all :: "string \<Rightarrow> string \<Rightarrow> string \<Rightarrow> string" where
  "replace_all s old new =
     (if s = [] \<or> old = [] then s
      else if has_prefix s old then new @ replace_all (drop (length old) s) old new
      else hd s # replace_all (tl s) old new)"
  by pat_completeness auto
termination
  by (relation "measure (\<lambda>(s, old, new). length s)") auto

declare replace_all.simps [simp del]

lemma replace_all_Nil [simp]: "replace_all [] old new = []"
  by (subst replace_all.simps) simp

lemma replace_all_Cons:
  "old \<noteq> [] \<Longrightarrow> replace_all (c # cs) old new =
     (if has_prefix (c # cs) old then new @ replace_all (drop (length old) (c # cs)) old new
      else c # replace_all cs old new)"
  by (subst replace_all.simps) simp

lemma replace_all_absent: "\<not> contains s old \<Longrightarrow> replace_all s old new = s"
proof (induction s)
  case Nil
  then show ?case by simp
next
  case (Cons c cs)
  then have "old \<noteq> []" by auto
  with Cons show ?case by (simp add: replace_all_Cons)
qed

lemma replace_all_hit: "old \<noteq> [] \<Longrightarrow> replace_all (old @ s) old new = new @ replace_all s old new"
  by (subst replace_all.simps) simp

text \<open>A prefix without the first byte of \<open>old\<close> is copied.\<close>

lemma replace_all_skip:
  "old \<noteq> [] \<Longrightarrow> hd old \<notin> set p \<Longrightarrow> replace_all (p @ s) old new = p @ replace_all s old new"
proof (induction p)
  case Nil
  then show ?case by simp
next
  case (Cons c cs)
  have "\<not> has_prefix (c # cs @ s) old"
    using Cons.prems by (cases old) (auto simp: has_prefix_def)
  then show ?case using Cons by (simp add: replace_all_Cons)
qed

lemma replace_all_set: "set (replace_all s old new) \<subseteq> set s \<union> set new"
proof (induction s old new rule: replace_all.induct)
  case (1 s old new)
  show ?case
  proof (cases "s = [] \<or> old = []")
    case False
    then obtain c cs where s: "s = c # cs" by (cases s) auto
    show ?thesis
    proof (cases "has_prefix s old")
      case True
      have "set (replace_all (drop (length old) s) old new) \<subseteq> set s \<union> set new"
        using "1.IH"(1) [OF False True] set_drop_subset [of "length old" s] by blast
      then show ?thesis using False True by (subst replace_all.simps) simp
    next
      case f: False
      then show ?thesis
        using "1.IH"(2) [OF False f] False by (subst replace_all.simps) (auto simp: s)
    qed
  qed (subst replace_all.simps, auto)
qed

subsection \<open>Numbers and quoting\<close>

definition digit_char :: "nat \<Rightarrow> char" where
  "digit_char d = char_of (48 + d)"

fun show_nat :: "nat \<Rightarrow> string" where
  "show_nat n = (if n < 10 then [digit_char n] else show_nat (n div 10) @ [digit_char (n mod 10)])"

declare show_nat.simps [simp del]

text \<open>\<open>%d\<close> and \<open>%v\<close> of a signed integer.\<close>

definition show_int :: "int \<Rightarrow> string" where
  "show_int i = (if i < 0 then CHR ''-'' # show_nat (nat (- i)) else show_nat (nat i))"

text \<open>\<open>%v\<close> of a slice of strings.\<close>

definition show_slice :: "string list \<Rightarrow> string" where
  "show_slice xs = ''['' @ join '' '' xs @ '']''"

definition hex_char :: "nat \<Rightarrow> char" where
  "hex_char d = (if d < 10 then char_of (48 + d) else char_of (87 + d))"

text \<open>
  \<open>%q\<close>: quotes and backslashes are escaped, control bytes are written as escapes; bytes of a
  non-ASCII rune are copied, as Go does for printable runes.
\<close>

definition quote_byte :: "char \<Rightarrow> string" where
  "quote_byte c =
     (let n = (of_char c :: nat) in
      if n = 0x22 \<or> n = 0x5C then [CHR 0x5C, c]
      else if n = 0x07 then [CHR 0x5C, CHR ''a''] else if n = 0x08 then [CHR 0x5C, CHR ''b'']
      else if n = 0x0C then [CHR 0x5C, CHR ''f''] else if n = 0x0A then [CHR 0x5C, CHR ''n'']
      else if n = 0x0D then [CHR 0x5C, CHR ''r''] else if n = 0x09 then [CHR 0x5C, CHR ''t'']
      else if n = 0x0B then [CHR 0x5C, CHR ''v'']
      else if n < 0x20 \<or> n = 0x7F then [CHR 0x5C, CHR ''x'', hex_char (n div 16), hex_char (n mod 16)]
      else [c])"

definition quote :: "string \<Rightarrow> string" where
  "quote s = [CHR 0x22] @ concat (map quote_byte s) @ [CHR 0x22]"

definition is_digit :: "char \<Rightarrow> bool" where
  "is_digit c \<longleftrightarrow> 48 \<le> (of_char c :: nat) \<and> (of_char c :: nat) \<le> 57"

definition read_digits :: "string \<Rightarrow> nat option" where
  "read_digits s =
     (if s = [] \<or> \<not> list_all is_digit s then None
      else Some (foldl (\<lambda>a c. 10 * a + (of_char c - 48)) 0 s))"

text \<open>\<open>strconv.ParseInt(s, 10, 64)\<close>; \<open>None\<close> is a syntax or a range error.\<close>

definition parse_int64 :: "string \<Rightarrow> int64 option" where
  "parse_int64 s =
     (let neg = has_prefix s ''-'';
          t = (if neg \<or> has_prefix s ''+'' then tl s else s)
      in case read_digits t of
           None \<Rightarrow> None
         | Some n \<Rightarrow>
             (if neg then (if int n \<le> 2 ^ 63 then Some (word_of_int (- int n)) else None)
              else (if int n < 2 ^ 63 then Some (word_of_int (int n)) else None)))"

lemma digit_char_is_digit: "d < 10 \<Longrightarrow> is_digit (digit_char d)"
  by (simp add: is_digit_def digit_char_def)

lemma show_nat_digits: "list_all is_digit (show_nat n)"
proof (induction n rule: show_nat.induct)
  case (1 n)
  then show ?case by (subst show_nat.simps) (auto simp: digit_char_is_digit)
qed

lemma show_nat_nonempty [simp]: "show_nat n \<noteq> []"
  by (subst show_nat.simps) simp

lemma read_show_nat_fold: "foldl (\<lambda>a c. 10 * a + (of_char c - 48)) 0 (show_nat n) = n"
proof (induction n rule: show_nat.induct)
  case (1 n)
  then show ?case by (subst show_nat.simps) (auto simp: digit_char_def)
qed

lemma read_show_nat: "read_digits (show_nat n) = Some n"
  by (simp add: read_digits_def show_nat_digits read_show_nat_fold)

text \<open>Printing and parsing an \<open>int64\<close> are inverse.\<close>

lemma parse_show_int: "parse_int64 (show_int (sint x)) = Some x"
proof (cases "sint x < 0")
  case True
  have "nat (- sint x) \<le> 2 ^ 63" using sint64_ge [of x] by simp
  then show ?thesis using True
    by (simp add: parse_int64_def show_int_def has_prefix_def read_show_nat)
next
  case False
  obtain c cs where c: "show_nat (nat (sint x)) = c # cs" by (cases "show_nat (nat (sint x))") auto
  have "is_digit c" using show_nat_digits [of "nat (sint x)"] c by simp
  then have "c \<noteq> CHR ''-''" "c \<noteq> CHR ''+''" by (auto simp: is_digit_def)
  moreover have "nat (sint x) < 2 ^ 63" using sint64_lt [of x] by simp
  ultimately show ?thesis using False c read_show_nat [of "nat (sint x)"]
    by (simp add: parse_int64_def show_int_def has_prefix_def)
qed

end
