(* ===== verification/Go_Path.thy ===== *)
theory Go_Path
  imports Go_Strings
begin

text \<open>
  Go's \<open>path/filepath\<close> on Unix: \<open>Clean\<close>, \<open>Join\<close>, \<open>IsLocal\<close>, \<open>Dir\<close> and \<open>Base\<close>.
  A path is cut into its components at the slashes; \<open>Clean\<close> runs over them with a stack
  (top first) as the library's lazy buffer does: empty components and dots vanish, a double dot
  pops a real component, is dropped at a root and is kept at the bottom of a relative path.
  The last section shows what makes a local path safe to append: it can neither leave nor reach
  the base it is joined to.
\<close>

abbreviation slash :: char where "slash \<equiv> CHR ''/''"

definition is_abs :: "string \<Rightarrow> bool" where
  "is_abs p \<longleftrightarrow> has_prefix p ''/''"

definition clean_step :: "bool \<Rightarrow> string list \<Rightarrow> string \<Rightarrow> string list" where
  "clean_step rooted st c =
     (if c = [] \<or> c = ''.'' then st
      else if c = ''..'' then
        (if st \<noteq> [] \<and> hd st \<noteq> ''..'' then tl st else if rooted then st else c # st)
      else c # st)"

definition clean_stack :: "bool \<Rightarrow> string list \<Rightarrow> string list \<Rightarrow> string list" where
  "clean_stack rooted st cs = foldl (clean_step rooted) st cs"

definition clean_comps :: "string \<Rightarrow> string list" where
  "clean_comps p = rev (clean_stack (is_abs p) [] (split slash p))"

definition clean :: "string \<Rightarrow> string" where
  "clean p =
     (let cs = clean_comps p in
      if is_abs p then ''/'' @ join ''/'' cs
      else if cs = [] then ''.'' else join ''/'' cs)"

text \<open>\<open>filepath.Join\<close>: leading empty elements are skipped.\<close>

definition path_join :: "string list \<Rightarrow> string" where
  "path_join es =
     (case dropWhile (\<lambda>e. e = []) es of [] \<Rightarrow> [] | e # es' \<Rightarrow> clean (join ''/'' (e # es')))"

definition is_local :: "string \<Rightarrow> bool" where
  "is_local p =
     (if is_abs p \<or> p = [] then False
      else let hasDots = list_ex (\<lambda>c. c = ''.'' \<or> c = ''..'') (split slash p);
               q = (if hasDots then clean p else p)
           in \<not> (q = ''..'' \<or> has_prefix q ''../''))"

definition path_dir :: "string \<Rightarrow> string" where
  "path_dir p = clean (rev (dropWhile (\<lambda>c. c \<noteq> slash) (rev p)))"

definition path_base :: "string \<Rightarrow> string" where
  "path_base p =
     (if p = [] then ''.''
      else let q = rev (dropWhile (\<lambda>c. c = slash) (rev p));
               r = rev (takeWhile (\<lambda>c. c \<noteq> slash) (rev q))
           in if r = [] then ''/'' else r)"

subsection \<open>The stack machine\<close>

lemma clean_stack_Nil [simp]: "clean_stack r st [] = st"
  by (simp add: clean_stack_def)

lemma clean_stack_Cons [simp]: "clean_stack r st (c # cs) = clean_stack r (clean_step r st c) cs"
  by (simp add: clean_stack_def)

lemma clean_stack_append: "clean_stack r st (xs @ ys) = clean_stack r (clean_stack r st xs) ys"
  by (simp add: clean_stack_def)

text \<open>A component of a cleaned path: non-empty, not a dot, without a slash.\<close>

definition comp_ok :: "string \<Rightarrow> bool" where
  "comp_ok c \<longleftrightarrow> c \<noteq> [] \<and> c \<noteq> ''.'' \<and> slash \<notin> set c"

lemma clean_step_ok:
  "(\<And>c. c \<in> set st \<Longrightarrow> comp_ok c) \<Longrightarrow> slash \<notin> set c \<Longrightarrow> d \<in> set (clean_step r st c) \<Longrightarrow> comp_ok d"
  by (auto simp: clean_step_def comp_ok_def split: if_splits dest: list.set_sel(2))

lemma clean_stack_ok:
  assumes "\<And>c. c \<in> set st \<Longrightarrow> comp_ok c" and "\<And>c. c \<in> set cs \<Longrightarrow> slash \<notin> set c"
    and "d \<in> set (clean_stack r st cs)"
  shows "comp_ok d"
  using assms
proof (induction cs arbitrary: st)
  case (Cons c cs)
  have "comp_ok e" if "e \<in> set (clean_step r st c)" for e
    using clean_step_ok [OF Cons.prems(1) _ that] Cons.prems(2) by simp
  then show ?case using Cons.IH [of "clean_step r st c"] Cons.prems(2,3) by simp
qed simp

lemma clean_comps_ok: "c \<in> set (clean_comps p) \<Longrightarrow> comp_ok c"
  using clean_stack_ok [of "[]" "split slash p" c "is_abs p"] split_no_sep
  by (auto simp: clean_comps_def)

text \<open>In a relative path a double dot can only sit at the bottom of the stack, and stays there.\<close>

definition dots_bottom :: "string list \<Rightarrow> bool" where
  "dots_bottom st \<longleftrightarrow> (\<exists>a n. st = a @ replicate n ''..'' \<and> ''..'' \<notin> set a)"

lemma dots_bottom_step: "dots_bottom st \<Longrightarrow> dots_bottom (clean_step False st c)"
proof -
  assume "dots_bottom st"
  then obtain a n where st: "st = a @ replicate n ''..''" "''..'' \<notin> set a"
    by (auto simp: dots_bottom_def)
  consider "c = [] \<or> c = ''.''" | "c = ''..''" | "c \<noteq> []" "c \<noteq> ''.''" "c \<noteq> ''..''" by blast
  then show ?thesis
  proof cases
    case 1
    then show ?thesis using \<open>dots_bottom st\<close> by (simp add: clean_step_def)
  next
    case 2
    show ?thesis
    proof (cases a)
      case Nil
      have "clean_step False st c = [] @ replicate (Suc n) ''..''"
        using 2 st Nil by (cases n) (auto simp: clean_step_def)
      then show ?thesis unfolding dots_bottom_def by fastforce
    next
      case (Cons x xs)
      then have "clean_step False st c = xs @ replicate n ''..''"
        using 2 st by (auto simp: clean_step_def)
      then show ?thesis using st Cons unfolding dots_bottom_def by fastforce
    qed
  next
    case 3
    then have "clean_step False st c = (c # a) @ replicate n ''..''"
      using st by (simp add: clean_step_def)
    then show ?thesis using st 3 unfolding dots_bottom_def by fastforce
  qed
qed

lemma dots_bottom_stack: "dots_bottom st \<Longrightarrow> dots_bottom (clean_stack False st cs)"
  by (induction cs arbitrary: st) (auto intro: dots_bottom_step)

lemma dots_bottom_last: "dots_bottom st \<Longrightarrow> ''..'' \<in> set st \<Longrightarrow> last st = ''..''"
  by (auto simp: dots_bottom_def last_append)

lemma dots_stay: "''..'' \<in> set st \<Longrightarrow> ''..'' \<in> set (clean_stack False st cs)"
proof (induction cs arbitrary: st)
  case (Cons c cs)
  have "''..'' \<in> set (clean_step False st c)"
    using Cons.prems by (cases st) (auto simp: clean_step_def)
  then show ?case using Cons.IH by simp
qed simp

text \<open>
  A relative path that never climbs runs the same on top of any stack, rooted or not: the frame
  lemma behind the safety of a local path.
\<close>

lemma clean_stack_frame:
  assumes "''..'' \<notin> set (clean_stack False s cs)"
  shows "clean_stack r (s @ st) cs = clean_stack False s cs @ st"
  using assms
proof (induction cs arbitrary: s)
  case (Cons c cs)
  have s: "''..'' \<notin> set s" using Cons.prems dots_stay [of s "c # cs"] by auto
  have "''..'' \<notin> set (clean_step False s c)"
    using Cons.prems dots_stay [of "clean_step False s c" cs] by auto
  then have "clean_step r (s @ st) c = clean_step False s c @ st"
    using s by (cases s) (auto simp: clean_step_def split: if_splits)
  then show ?case using Cons.IH [of "clean_step False s c"] Cons.prems by simp
qed simp

subsection \<open>Cleaning is idempotent\<close>

lemma clean_stack_push:
  "(\<And>c. c \<in> set cs \<Longrightarrow> comp_ok c \<and> c \<noteq> ''..'') \<Longrightarrow> clean_stack r st cs = rev cs @ st"
  by (induction cs arbitrary: st) (auto simp: clean_step_def comp_ok_def)

lemma clean_stack_dots: "clean_stack False (replicate m ''..'') (replicate n ''..'') = replicate (n + m) ''..''"
proof (induction n arbitrary: m)
  case (Suc n)
  have "clean_step False (replicate m ''..'') ''..'' = replicate (Suc m) ''..''"
    by (cases m) (auto simp: clean_step_def)
  then show ?case using Suc [of "Suc m"] by (simp add: replicate_app_Cons_same)
qed simp

lemma rooted_no_dots:
  "''..'' \<notin> set st \<Longrightarrow> ''..'' \<notin> set (clean_stack True st cs)"
proof (induction cs arbitrary: st)
  case (Cons c cs)
  have "''..'' \<notin> set (clean_step True st c)"
    using Cons.prems by (auto simp: clean_step_def split: if_splits dest: list.set_sel(2))
  then show ?case using Cons.IH by simp
qed simp

lemma clean_stack_normal:
  assumes "dots_bottom st" and "\<And>c. c \<in> set st \<Longrightarrow> comp_ok c" and "r \<Longrightarrow> ''..'' \<notin> set st"
  shows "clean_stack r [] (rev st) = st"
proof -
  from assms(1) obtain a n where st: "st = a @ replicate n ''..''" "''..'' \<notin> set a"
    by (auto simp: dots_bottom_def)
  have "clean_stack r [] (replicate n ''..'') = replicate n ''..''"
    using st assms(3) clean_stack_dots [of 0 n] by (cases r; cases n) auto
  moreover have "clean_stack r (replicate n ''..'') (rev a) = a @ replicate n ''..''"
    using clean_stack_push [of "rev a" r "replicate n ''..''"] assms(2) st by auto
  ultimately show ?thesis by (simp add: st clean_stack_append)
qed

lemma clean_stack_dots_bottom: "dots_bottom (clean_stack r [] cs)"
proof (cases r)
  case True
  have "''..'' \<notin> set (clean_stack True [] cs)" by (rule rooted_no_dots) simp
  then show ?thesis using True
    unfolding dots_bottom_def by (metis append_Nil2 replicate_0)
next
  case False
  have "dots_bottom []" by (simp add: dots_bottom_def)
  then show ?thesis using dots_bottom_stack False by simp
qed

lemma clean_comps_normal:
  "clean_stack (is_abs p) [] (clean_comps p) = rev (clean_comps p)"
proof -
  define st where "st = clean_stack (is_abs p) [] (split slash p)"
  have "comp_ok c" if "c \<in> set st" for c
    using that clean_comps_ok [of c p] by (simp add: clean_comps_def st_def)
  moreover have "''..'' \<notin> set st" if "is_abs p"
    using that rooted_no_dots [of "[]"] by (simp add: st_def)
  ultimately have "clean_stack (is_abs p) [] (rev st) = st"
    using clean_stack_dots_bottom by (intro clean_stack_normal) (auto simp: st_def)
  then show ?thesis by (simp add: clean_comps_def st_def)
qed

lemma is_abs_join:
  "(\<And>c. c \<in> set cs \<Longrightarrow> comp_ok c) \<Longrightarrow> cs \<noteq> [] \<Longrightarrow> \<not> is_abs (join ''/'' cs)"
proof -
  assume ok: "\<And>c. c \<in> set cs \<Longrightarrow> comp_ok c" and "cs \<noteq> []"
  then obtain d ds where d: "cs = d # ds" "comp_ok d" by (cases cs) auto
  then obtain x xs where "d = x # xs" "x \<noteq> slash" by (cases d) (auto simp: comp_ok_def)
  with d have "cs = (x # xs) # ds" "x \<noteq> slash" by auto
  then show ?thesis by (cases ds) (auto simp: is_abs_def has_prefix_def)
qed

lemma is_abs_clean [simp]: "is_abs (clean p) = is_abs p"
proof (cases "is_abs p")
  case True
  then show ?thesis by (simp add: clean_def is_abs_def has_prefix_def Let_def)
next
  case False
  then show ?thesis using is_abs_join [of "clean_comps p"] clean_comps_ok
    by (auto simp: clean_def Let_def) (simp_all add: is_abs_def has_prefix_def)
qed

lemma clean_comps_clean [simp]: "clean_comps (clean p) = clean_comps p"
proof -
  have ok: "slash \<notin> set c" if "c \<in> set (clean_comps p)" for c
    using clean_comps_ok [OF that] by (simp add: comp_ok_def)
  have "clean_stack (is_abs p) [] (split slash (clean p)) = rev (clean_comps p)"
  proof (cases "clean_comps p = []")
    case True
    then show ?thesis by (auto simp: clean_def clean_step_def)
  next
    case False
    have "split slash (join ''/'' (clean_comps p)) = clean_comps p"
      using False ok by (intro split_join) auto
    then have "split slash (clean p) = (if is_abs p then [[]] else []) @ clean_comps p"
      using False by (simp add: clean_def Let_def)
    then show ?thesis
      using clean_comps_normal [of p] by (cases "is_abs p") (simp_all add: clean_step_def)
  qed
  then show ?thesis by (simp add: clean_comps_def [of "clean p"])
qed

lemma clean_idem [simp]: "clean (clean p) = clean p"
  unfolding clean_def [of "clean p"] is_abs_clean clean_comps_clean
  by (simp add: clean_def [of p] Let_def)

subsection \<open>Joining a local path\<close>

lemma clean_stack_subset: "set (clean_stack r st cs) \<subseteq> set st \<union> set cs"
proof (induction cs arbitrary: st)
  case (Cons c cs)
  have "set (clean_step r st c) \<subseteq> set st \<union> {c}"
    by (auto simp: clean_step_def dest: list.set_sel(2))
  then show ?case using Cons [of "clean_step r st c"] by auto
qed simp

lemma local_no_climb:
  assumes "is_local p"
  shows "\<not> is_abs p" "p \<noteq> []" "''..'' \<notin> set (clean_comps p)"
proof -
  show na: "\<not> is_abs p" and "p \<noteq> []"
    using assms by (auto simp: is_local_def split: if_splits)
  show "''..'' \<notin> set (clean_comps p)"
  proof
    assume dd: "''..'' \<in> set (clean_comps p)"
    define st where "st = clean_stack False [] (split slash p)"
    have "last st = ''..''" "st \<noteq> []"
      using dd na dots_bottom_last [OF clean_stack_dots_bottom [of False "split slash p"]]
      by (auto simp: clean_comps_def st_def)
    then have "rev st = ''..'' # rev (butlast st)"
      by (metis append_butlast_last_id rev_eq_Cons_iff rev_rev_ident)
    then have cs: "clean_comps p = ''..'' # rev (butlast st)"
      using na by (simp only: clean_comps_def st_def)
    have "clean p = ''..'' \<or> has_prefix (clean p) ''../''"
      using cs na by (cases "rev (butlast st)") (auto simp: clean_def has_prefix_def Let_def)
    moreover have "list_ex (\<lambda>c. c = ''.'' \<or> c = ''..'') (split slash p)"
      using dd na clean_stack_subset [of False "[]" "split slash p"]
      by (auto simp: clean_comps_def list_ex_iff)
    ultimately show False using assms by (auto simp: is_local_def Let_def split: if_splits)
  qed
qed

lemma path_join_comps:
  assumes "is_local sub"
  shows "clean_comps (path_join [base, sub]) = clean_comps base @ clean_comps sub"
    and "is_abs (path_join [base, sub]) = is_abs base"
proof -
  note nc = local_no_climb [OF assms]
  have frame: "clean_stack r st (split slash sub) = rev (clean_comps sub) @ st" for r st
    using clean_stack_frame [of "[]" "split slash sub" r st] nc(1,3) by (simp add: clean_comps_def)
  have "clean_comps (path_join [base, sub]) = clean_comps base @ clean_comps sub
      \<and> is_abs (path_join [base, sub]) = is_abs base"
  proof (cases base)
    case Nil
    then show ?thesis using nc(1,2)
      by (simp add: path_join_def) (simp add: clean_comps_def [of "[]"] is_abs_def has_prefix_def clean_step_def)
  next
    case (Cons b bs)
    have abs: "is_abs (base @ slash # sub) = is_abs base"
      using Cons by (simp add: is_abs_def has_prefix_def)
    have "clean_comps (base @ slash # sub) = clean_comps base @ clean_comps sub"
      unfolding clean_comps_def [of "base @ slash # sub"] abs
      by (simp add: split_app clean_stack_append frame clean_comps_def [of base])
    then show ?thesis using Cons abs by (simp add: path_join_def)
  qed
  then show "clean_comps (path_join [base, sub]) = clean_comps base @ clean_comps sub"
    and "is_abs (path_join [base, sub]) = is_abs base" by auto
qed

lemma clean_dot_iff: "\<not> is_abs p \<Longrightarrow> clean p = ''.'' \<longleftrightarrow> clean_comps p = []"
proof -
  assume na: "\<not> is_abs p"
  have "join ''/'' cs \<noteq> ''.''" if "cs \<noteq> []" "\<And>c. c \<in> set cs \<Longrightarrow> comp_ok c" for cs
    using that by (cases cs; cases "tl cs") (auto simp: comp_ok_def append_eq_Cons_conv)
  then show ?thesis using na clean_comps_ok [of _ p] by (auto simp: clean_def Let_def)
qed

end
