(* ===== verification/Grpc_Errors.thy ===== *)
theory Grpc_Errors
  imports Go_Strings
begin

text \<open>
  Go errors as values. A handler returns a gRPC status error, an error of the Azure SDK, an
  operating-system error or a plain one; the constructors follow the tests that the driver applies
  to an error, in the order in which it applies them: \<open>status.FromError\<close>,
  \<open>errors.Is(err, context.DeadlineExceeded)\<close>, \<open>errors.As\<close> to an \<open>azcore.ResponseError\<close>,
  and \<open>os.IsNotExist\<close> or \<open>mount.IsCorruptedMnt\<close> for the rest. A nil error is \<open>None\<close>, or the
  right side of a \<open>result\<close>. \<open>status.Error\<close> of the code OK is nil, so OK is no value of \<open>code\<close>.
  A panic (a nil pointer read) is an outcome of its own, which no caller turns into another error.
\<close>

datatype code = Canceled | Unknown | InvalidArgument | DeadlineExceeded | NotFound | AlreadyExists
  | PermissionDenied | ResourceExhausted | FailedPrecondition | Aborted | OutOfRange
  | Unimplemented | Internal | Unavailable | DataLoss | Unauthenticated

fun code_string :: "code \<Rightarrow> string" where
  "code_string Canceled = ''Canceled''"
| "code_string Unknown = ''Unknown''"
| "code_string InvalidArgument = ''InvalidArgument''"
| "code_string DeadlineExceeded = ''DeadlineExceeded''"
| "code_string NotFound = ''NotFound''"
| "code_string AlreadyExists = ''AlreadyExists''"
| "code_string PermissionDenied = ''PermissionDenied''"
| "code_string ResourceExhausted = ''ResourceExhausted''"
| "code_string FailedPrecondition = ''FailedPrecondition''"
| "code_string Aborted = ''Aborted''"
| "code_string OutOfRange = ''OutOfRange''"
| "code_string Unimplemented = ''Unimplemented''"
| "code_string Internal = ''Internal''"
| "code_string Unavailable = ''Unavailable''"
| "code_string DataLoss = ''DataLoss''"
| "code_string Unauthenticated = ''Unauthenticated''"

text \<open>The fields of an \<open>azcore.ResponseError\<close> the driver reads, and its \<open>Error()\<close> text.\<close>

record http_error =
  StatusCode :: int
  ErrorCode :: string
  HttpText :: string

text \<open>How \<open>os.IsNotExist\<close>, \<open>os.IsExist\<close> and \<open>mount.IsCorruptedMnt\<close> classify an OS error.\<close>

datatype os_kind = ErrNotExist | ErrExist | ErrCorruptedMnt | ErrOther

text \<open>
  \<open>ResponseError h t\<close> is an error that is or wraps the response error \<open>h\<close>; \<open>t\<close> is its own text.
\<close>

datatype go_error =
    StatusError code string
  | CtxDeadlineExceeded string
  | ResponseError http_error string
  | OsError os_kind string
  | PlainError string
  | Panic string

type_synonym 'a result = "go_error + 'a"

fun error_text :: "go_error \<Rightarrow> string" where
  "error_text (StatusError c m) = ''rpc error: code = '' @ code_string c @ '' desc = '' @ m"
| "error_text (CtxDeadlineExceeded t) = t"
| "error_text (ResponseError h t) = t"
| "error_text (OsError k t) = t"
| "error_text (PlainError t) = t"
| "error_text (Panic t) = t"

text \<open>\<open>status.Code\<close> of a non-nil error and the \<open>ok\<close> of \<open>status.FromError\<close>.\<close>

fun status_code :: "go_error \<Rightarrow> code" where
  "status_code (StatusError c m) = c"
| "status_code _ = Unknown"

fun is_status :: "go_error \<Rightarrow> bool" where
  "is_status (StatusError c m) \<longleftrightarrow> True"
| "is_status _ \<longleftrightarrow> False"

text \<open>Every error of a result is a gRPC status: what a CSI handler owes its caller.\<close>

fun status_result :: "'a result \<Rightarrow> bool" where
  "status_result (Inl e) \<longleftrightarrow> is_status e"
| "status_result (Inr x) \<longleftrightarrow> True"

lemma is_status_iff [err_simps]: "is_status e \<longleftrightarrow> (\<exists>c m. e = StatusError c m)"
  by (cases e) auto

end
