(* ===== verification/Util.thy ===== *)
theory Util
  imports Grpc_Errors
begin

text \<open>
  \<open>pkg/util/util.go\<close>: the size arithmetic, the mount-option printer, the tag parser, the
  placeholder replacement and the case-insensitive access to a parameter map. A map argument is
  given in the order in which the function's own \<open>range\<close> statement visits it, so a theorem
  about all arguments speaks about all visiting orders. The lock map is in the theory \<open>Lock_Map\<close>.
\<close>

subsection \<open>Sizes\<close>

definition GiB :: int64 where "GiB = 1024 * 1024 * 1024"
definition TiB :: int64 where "TiB = 1024 * GiB"

definition roundUpSize :: "int64 \<Rightarrow> int64 \<Rightarrow> int64" where
  "roundUpSize volumeSizeBytes allocationUnitBytes =
     (let roundedUp = go_div volumeSizeBytes allocationUnitBytes
      in if 0 <s go_mod volumeSizeBytes allocationUnitBytes then roundedUp + 1 else roundedUp)"

definition RoundUpBytes :: "int64 \<Rightarrow> int64" where
  "RoundUpBytes volumeSizeBytes = roundUpSize volumeSizeBytes GiB * GiB"

definition RoundUpGiB :: "int64 \<Rightarrow> int64" where
  "RoundUpGiB volumeSizeBytes = roundUpSize volumeSizeBytes GiB"

definition BytesToGiB :: "int64 \<Rightarrow> int64" where
  "BytesToGiB volumeSizeBytes = go_div volumeSizeBytes GiB"

definition GiBToBytes :: "int64 \<Rightarrow> int64" where
  "GiBToBytes volumeSizeGiB = volumeSizeGiB * GiB"

subsection \<open>Mount options and directories\<close>

fun GetMountOptions_loop :: "string \<Rightarrow> string list \<Rightarrow> string" where
  "GetMountOptions_loop str [] = str"
| "GetMountOptions_loop str (opt # opts) = GetMountOptions_loop (str @ '' '' @ opt) opts"

definition GetMountOptions :: "string list \<Rightarrow> string" where
  "GetMountOptions options =
     (case options of [] \<Rightarrow> '''' | o0 # os \<Rightarrow> GetMountOptions_loop o0 os)"

text \<open>\<open>MakeDir\<close>, given what \<open>os.MkdirAll\<close> returned: an "exists" error is swallowed.\<close>

definition MakeDir :: "go_error option \<Rightarrow> go_error option" where
  "MakeDir mkdirAll =
     (case mkdirAll of
        None \<Rightarrow> None
      | Some err \<Rightarrow> (case err of OsError ErrExist _ \<Rightarrow> None | _ \<Rightarrow> Some err))"

subsection \<open>Tags\<close>

abbreviation tagsDelimiter :: char where "tagsDelimiter \<equiv> CHR '',''"
abbreviation tagKeyValueDelimiter :: char where "tagKeyValueDelimiter \<equiv> CHR ''=''"

definition tags_error :: "string \<Rightarrow> go_error" where
  "tags_error tags = PlainError (''tags '' @ [CHR 0x27] @ tags @ [CHR 0x27] @
     '' are invalid, the format should be: '' @ [CHR 0x27] @ ''key1=value1,key2=value2'' @ [CHR 0x27])"

definition ConvertTag :: "string \<Rightarrow> string \<Rightarrow> gomap \<Rightarrow> go_error + gomap" where
  "ConvertTag tags tag m =
     (case split tagKeyValueDelimiter tag of
        [k, v] \<Rightarrow>
          (let key = trim_space k in
           if key = '''' then Inl (tags_error tags)
           else Inr (AList.update key (trim_space v) m))
      | _ \<Rightarrow> Inl (tags_error tags))"

definition ConvertTagsToMap :: "string \<Rightarrow> go_error + gomap" where
  "ConvertTagsToMap tags =
     (if tags = '''' then Inr []
      else range_loop (ConvertTag tags) (split tagsDelimiter tags) [])"

subsection \<open>Replacement and case-insensitive maps\<close>

definition ReplaceWithMap :: "string \<Rightarrow> gomap \<Rightarrow> string" where
  "ReplaceWithMap str m =
     fold (\<lambda>(k, v) s. if k \<noteq> '''' then replace_all s k v else s) m str"

fun find_fold :: "gomap \<Rightarrow> string \<Rightarrow> (string \<times> string) option" where
  "find_fold [] key = None"
| "find_fold ((k, v) # m) key = (if equal_fold k key then Some (k, v) else find_fold m key)"

text \<open>A nil map is \<open>None\<close>.\<close>

definition SetKeyValueInMap :: "gomap option \<Rightarrow> string \<Rightarrow> string \<Rightarrow> gomap option" where
  "SetKeyValueInMap m key value =
     (case m of
        None \<Rightarrow> None
      | Some m' \<Rightarrow>
          (case find_fold m' key of
             Some (k, _) \<Rightarrow> Some (AList.update k value m')
           | None \<Rightarrow> Some (AList.update key value m')))"

definition GetValueInMap :: "gomap option \<Rightarrow> string \<Rightarrow> string" where
  "GetValueInMap m key =
     (case m of
        None \<Rightarrow> ''''
      | Some m' \<Rightarrow> (case find_fold m' key of Some (_, v) \<Rightarrow> v | None \<Rightarrow> ''''))"

subsection \<open>Properties of the size arithmetic\<close>

lemma sint_GiB [simp]: "sint GiB = 2 ^ 30"
  by (simp add: GiB_def)

lemma sint_TiB [simp]: "sint TiB = 2 ^ 40"
  by (simp add: TiB_def GiB_def)

lemma roundUpSize_sint:
  assumes "0 < sint u"
  shows "sint (roundUpSize v u) = - ((- sint v) div sint u)"
proof (cases "0 \<le> sint v")
  case True
  have m: "0 <s go_mod v u \<longleftrightarrow> 0 < sint v mod sint u"
    using True assms by (simp add: sless_0_iff sint_go_mod)
  show ?thesis
  proof (cases "0 < sint v mod sint u")
    case big: True
    have "sint u \<noteq> 1" using big by auto
    then have "2 \<le> sint u" using assms by simp
    then have "sint v div sint u \<le> sint v div 2" "0 \<le> sint v div sint u"
      using True zdiv_mono2 [of "sint v" 2 "sint u"] by (auto simp: pos_imp_zdiv_nonneg_iff)
    then have "sint (go_div v u + 1) = sint v div sint u + 1"
      using True assms sint64_lt [of v] by (subst sint64_add) (simp_all add: sint_go_div)
    then show ?thesis using big m assms ceil_div_int [of "sint u" "sint v"]
      by (simp add: roundUpSize_def Let_def)
  next
    case False
    then show ?thesis using True m assms ceil_div_int [of "sint u" "sint v"]
      by (simp add: roundUpSize_def sint_go_div)
  qed
next
  case False
  then have "\<not> 0 <s go_mod v u" using sint_go_mod_neg [of v u] assms by (simp add: sless_0_iff)
  then show ?thesis using False assms
    by (simp add: roundUpSize_def sint_go_div_pos sdiv_neg)
qed

lemma roundUpSize_bounds:
  assumes "0 < sint u"
  shows "sint v \<le> sint (roundUpSize v u) * sint u" "sint (roundUpSize v u) * sint u < sint v + sint u"
  unfolding roundUpSize_sint [OF assms] by (rule ceil_div_bounds [OF assms])+

lemma RoundUpBytes_exact:
  assumes "sint v \<le> 2 ^ 63 - 2 ^ 30"
  shows "sint (RoundUpBytes v) = sint (roundUpSize v GiB) * 2 ^ 30"
proof -
  define q where "q = sint (roundUpSize v GiB)"
  have "sint v \<le> q * 2 ^ 30" "q * 2 ^ 30 < sint v + 2 ^ 30"
    using roundUpSize_bounds [of GiB v] by (simp_all add: q_def)
  then have "- (2 ^ 63) \<le> q * 2 ^ 30" "q * 2 ^ 30 < 2 ^ 63"
    using assms sint64_ge [of v] by linarith+
  then show ?thesis unfolding RoundUpBytes_def q_def by (subst sint64_mult) simp_all
qed

text \<open>Above the last multiple of a GiB that an \<open>int64\<close> holds, the product wraps to the minimum.\<close>

lemma RoundUpBytes_overflow:
  assumes "2 ^ 63 - 2 ^ 30 < sint v"
  shows "sint (RoundUpBytes v) = - (2 ^ 63)"
proof -
  define q where "q = sint (roundUpSize v GiB)"
  have "sint v \<le> q * 2 ^ 30" "q * 2 ^ 30 < sint v + 2 ^ 30"
    using roundUpSize_bounds [of GiB v] by (simp_all add: q_def)
  then have "q = 2 ^ 33" using assms sint64_lt [of v] by simp
  then have "roundUpSize v GiB = 2 ^ 33"
    using word_eq_of_sint [of "roundUpSize v GiB"] by (simp add: q_def)
  then show ?thesis by (simp add: RoundUpBytes_def GiB_def)
qed

subsection \<open>Properties of the printers and of the tag parser\<close>

lemma GetMountOptions_loop_join: "GetMountOptions_loop str opts = join '' '' (str # opts)"
proof (induction str opts rule: GetMountOptions_loop.induct)
  case (2 str opt opts)
  then show ?case using join_prefix [of "'' ''" "str @ '' ''" opt opts] by simp
qed simp

lemma GetMountOptions_join: "GetMountOptions opts = join '' '' opts"
  by (cases opts) (auto simp: GetMountOptions_def GetMountOptions_loop_join)

text \<open>The documented tag format, printed.\<close>

definition print_tag :: "string \<times> string \<Rightarrow> string" where
  "print_tag kv = fst kv @ ''='' @ snd kv"

definition print_tags :: "gomap \<Rightarrow> string" where
  "print_tags m = join '','' (map print_tag m)"

definition tag_text_ok :: "string \<Rightarrow> bool" where
  "tag_text_ok s \<longleftrightarrow> (\<forall>c\<in>set s. visible c \<and> c \<noteq> CHR '','' \<and> c \<noteq> CHR ''='')"

lemma alist_update_new: "k \<notin> fst ` set m \<Longrightarrow> AList.update k v m = m @ [(k, v)]"
  by (induction m) auto

lemma ConvertTag_print:
  assumes "tag_text_ok k" "k \<noteq> ''''" "tag_text_ok v"
  shows "ConvertTag tags (print_tag (k, v)) m = Inr (AList.update k v m)"
proof -
  have "CHR ''='' \<notin> set k" "CHR ''='' \<notin> set v" "trim_space k = k" "trim_space v = v"
    using assms(1,3) by (auto simp: tag_text_ok_def intro!: trim_space_visible)
  then show ?thesis using assms(2)
    by (simp add: ConvertTag_def print_tag_def split_append_sep split_plain)
qed

lemma ConvertTags_print_loop:
  assumes "\<And>k v. (k, v) \<in> set kvs \<Longrightarrow> tag_text_ok k \<and> k \<noteq> '''' \<and> tag_text_ok v"
    and "distinct (map fst (m @ kvs))"
  shows "range_loop (ConvertTag tags) (map print_tag kvs) m = Inr (m @ kvs)"
  using assms
proof (induction kvs arbitrary: m)
  case (Cons kv kvs)
  obtain k v where kv: "kv = (k, v)" by (cases kv) auto
  have "k \<notin> fst ` set m" using Cons.prems(2) kv by auto
  then have "ConvertTag tags (print_tag kv) m = Inr (m @ [kv])"
    using Cons.prems(1) [of k v] kv by (simp add: ConvertTag_print alist_update_new)
  moreover have "range_loop (ConvertTag tags) (map print_tag kvs) (m @ [kv]) = Inr ((m @ [kv]) @ kvs)"
    using Cons.prems(2) by (intro Cons.IH Cons.prems(1)) auto
  ultimately show ?case by simp
qed simp

lemma print_tag_no_comma: "tag_text_ok k \<Longrightarrow> tag_text_ok v \<Longrightarrow> CHR '','' \<notin> set (print_tag (k, v))"
  by (auto simp: print_tag_def tag_text_ok_def)

lemma ConvertTagsToMap_print:
  assumes "kvs \<noteq> []" "distinct (map fst kvs)"
    and "\<And>k v. (k, v) \<in> set kvs \<Longrightarrow> tag_text_ok k \<and> k \<noteq> '''' \<and> tag_text_ok v"
  shows "ConvertTagsToMap (print_tags kvs) = Inr kvs"
proof -
  have "CHR '','' \<notin> set p" if "p \<in> set (map print_tag kvs)" for p
    using that assms(3) print_tag_no_comma by fastforce
  then have "split (CHR '','') (print_tags kvs) = map print_tag kvs"
    unfolding print_tags_def using assms(1) by (intro split_join) auto
  moreover have "print_tags kvs \<noteq> ''''"
    using assms(1) by (cases kvs; cases "tl kvs") (auto simp: print_tags_def print_tag_def)
  ultimately show ?thesis
    using ConvertTags_print_loop [of kvs "[]"] assms(2,3) by (simp add: ConvertTagsToMap_def)
qed

text \<open>A parsed tag map has distinct, non-empty keys.\<close>

lemma ConvertTag_Inr:
  assumes "ConvertTag tags tag m = Inr m'"
  obtains k v where "k \<noteq> ''''" "m' = AList.update k v m"
  using assms by (auto simp: ConvertTag_def Let_def split: list.splits if_splits)

lemma ConvertTagsToMap_ok:
  assumes "ConvertTagsToMap tags = Inr m"
  shows "go_map_ok m" "'''' \<notin> fst ` set m"
proof -
  let ?P = "\<lambda>m :: gomap. go_map_ok m \<and> '''' \<notin> fst ` set m"
  have step: "?P m'" if "?P m" "ConvertTag tags tag m = Inr m'" for tag m m'
  proof -
    from that(2) obtain k v where kv: "k \<noteq> ''''" "m' = AList.update k v m" by (rule ConvertTag_Inr)
    then have "fst ` set m' = insert k (fst ` set m)" using dom_update [of k v m] by simp
    then show ?thesis using that(1) kv by (auto simp: update_go_map_ok)
  qed
  have "?P m"
  proof (cases "tags = ''''")
    case True
    then show ?thesis using assms by (simp add: ConvertTagsToMap_def go_map_ok_def)
  next
    case False
    then have "range_loop (ConvertTag tags) (split (CHR '','') tags) [] = Inr m"
      using assms by (simp add: ConvertTagsToMap_def)
    moreover have "?P []" by (simp add: go_map_ok_def)
    ultimately show ?thesis using step by (rule range_loop_invariant [where P = ?P, rotated 2])
  qed
  then show "go_map_ok m" "'''' \<notin> fst ` set m" by auto
qed

text \<open>A tag map that the documented format can express.\<close>

definition printable_tags :: "gomap \<Rightarrow> bool" where
  "printable_tags kvs \<longleftrightarrow> kvs \<noteq> [] \<and> distinct (map fst kvs) \<and>
     list_all (\<lambda>(k, v). tag_text_ok k \<and> k \<noteq> '''' \<and> tag_text_ok v) kvs"

text \<open>
  C36. Tags survive their text form. A tag map with distinct, non-empty keys whose texts have no comma, no
  equals sign and no white space, printed in the documented format \<open>key1=value1,key2=value2\<close>, is read
  back as it was, in its order; and every text that is accepted gives a map with distinct and non-empty
  keys.
\<close>

theorem tags_roundtrip:
  "(printable_tags kvs \<longrightarrow> ConvertTagsToMap (print_tags kvs) = Inr kvs)
   \<and> (ConvertTagsToMap tags = Inr m \<longrightarrow> go_map_ok m \<and> '''' \<notin> fst ` set m)"
proof (intro conjI impI)
  assume "printable_tags kvs"
  then show "ConvertTagsToMap (print_tags kvs) = Inr kvs"
    by (intro ConvertTagsToMap_print) (auto simp: printable_tags_def list_all_iff)
qed (auto dest: ConvertTagsToMap_ok)

theorem tags_roundtrip_witness:
  "ConvertTagsToMap (print_tags [(''team'', ''a''), (''env'', '''')]) = Inr [(''team'', ''a''), (''env'', '''')]"
proof -
  have "printable_tags [(''team'', ''a''), (''env'', '''')]"
    by (simp add: printable_tags_def tag_text_ok_def visible_def)
  then show ?thesis using tags_roundtrip by blast
qed

subsection \<open>The case-insensitive parameter store\<close>

text \<open>
  The contract of a case-insensitive store, as the controller uses it: a read after a write
  returns the written value for every spelling of the key and leaves the other keys alone.
\<close>

locale ci_store =
  fixes get :: "'m \<Rightarrow> string \<Rightarrow> string"
    and put :: "'m \<Rightarrow> string \<Rightarrow> string \<Rightarrow> 'm"
    and ok :: "'m \<Rightarrow> bool"
    and same_key :: "string \<Rightarrow> string \<Rightarrow> bool"
  assumes ok_put: "ok m \<Longrightarrow> ok (put m k v)"
    and get_put: "ok m \<Longrightarrow> get (put m k v) k' = (if same_key k k' then v else get m k')"
    and same_key_refl: "same_key k k"
begin

definition put_all :: "(string \<times> string) list \<Rightarrow> 'm \<Rightarrow> 'm" where
  "put_all kvs m = fold (\<lambda>(k, v) m. put m k v) kvs m"

lemma ok_put_all: "ok m \<Longrightarrow> ok (put_all kvs m)"
  unfolding put_all_def by (induction kvs arbitrary: m) (auto simp: ok_put split_beta)

lemma put_all_other:
  "ok m \<Longrightarrow> (\<And>k v. (k, v) \<in> set kvs \<Longrightarrow> \<not> same_key k k') \<Longrightarrow> get (put_all kvs m) k' = get m k'"
  unfolding put_all_def
proof (induction kvs arbitrary: m)
  case (Cons kv kvs)
  obtain k v where kv: "kv = (k, v)" by (cases kv) auto
  have "\<not> same_key k k'" using Cons.prems(2) kv by auto
  then have "get (put m k v) k' = get m k'" using Cons.prems(1) by (simp add: get_put)
  then show ?case using Cons.IH [of "put m k v"] Cons.prems kv by (auto simp: ok_put)
qed simp

text \<open>The last write to a key is the one that is read.\<close>

lemma put_all_last:
  assumes "ok m" "(\<And>k' v'. (k', v') \<in> set after \<Longrightarrow> \<not> same_key k' k)"
  shows "get (put_all (before @ (k, v) # after) m) k = v"
proof -
  have "put_all (before @ (k, v) # after) m = put_all after (put (put_all before m) k v)"
    by (simp add: put_all_def)
  then show ?thesis
    using put_all_other [of "put (put_all before m) k v" after k] assms
    by (simp add: ok_put ok_put_all get_put same_key_refl)
qed

end

text \<open>No two keys of the map differ in case only.\<close>

definition ci_ok :: "gomap option \<Rightarrow> bool" where
  "ci_ok m \<longleftrightarrow> (case m of None \<Rightarrow> False | Some m' \<Rightarrow> distinct (map (fold_key \<circ> fst) m'))"

lemma find_fold_Some:
  "find_fold m key = Some (k, v) \<Longrightarrow> (k, v) \<in> set m \<and> equal_fold k key"
  by (induction m key rule: find_fold.induct) (auto split: if_splits)

lemma find_fold_None: "find_fold m key = None \<longleftrightarrow> (\<forall>(k, v)\<in>set m. \<not> equal_fold k key)"
  by (induction m key rule: find_fold.induct) auto

lemma find_fold_unique:
  assumes "distinct (map (fold_key \<circ> fst) m)" "(k, v) \<in> set m" "equal_fold k key"
  shows "find_fold m key = Some (k, v)"
  using assms
proof (induction m key rule: find_fold.induct)
  case (2 k' v' m key)
  show ?case
  proof (cases "equal_fold k' key")
    case True
    then have "fold_key k' = fold_key k" using "2.prems"(3) by (simp add: equal_fold_def)
    moreover have "fold_key k \<in> (fold_key \<circ> fst) ` set m" if "(k, v) \<in> set m"
      using that by (force simp: image_iff)
    ultimately have "(k', v') = (k, v)" using "2.prems"(1,2) by auto
    then show ?thesis using True by simp
  next
    case False
    then show ?thesis using 2 by auto
  qed
qed simp

lemma update_mem:
  assumes "distinct (map fst m)"
  shows "(a, b) \<in> set (AList.update k v m) \<longleftrightarrow> (a = k \<and> b = v) \<or> (a \<noteq> k \<and> (a, b) \<in> set m)"
  using assms by (induction m) (auto simp: image_iff)

lemma ci_distinct_fst: "distinct (map (fold_key \<circ> fst) m) \<Longrightarrow> distinct (map fst m)"
  by (metis distinct_map list.map_comp)

lemma update_fold_keys:
  "k \<in> fst ` set m \<Longrightarrow> map (f \<circ> fst) (AList.update k v m) = map (f \<circ> fst) m"
  by (induction m) auto

lemma SetKeyValueInMap_entries:
  assumes "distinct (map (fold_key \<circ> fst) m)"
  obtains k0 m' where "SetKeyValueInMap (Some m) key val = Some m'"
    and "equal_fold k0 key" "distinct (map (fold_key \<circ> fst) m')"
    and "\<And>a b. (a, b) \<in> set m' \<longleftrightarrow> (a = k0 \<and> b = val) \<or> (\<not> equal_fold a key \<and> (a, b) \<in> set m)"
proof (cases "find_fold m key")
  case None
  have no: "\<not> equal_fold a key" if "(a, b) \<in> set m" for a b
    using None that by (auto simp: find_fold_None)
  have "key \<notin> fst ` set m" using no [of key] by (force simp: image_iff)
  then have upd: "AList.update key val m = m @ [(key, val)]" by (rule alist_update_new)
  have "fold_key key \<notin> (fold_key \<circ> fst) ` set m"
    using no by (fastforce simp: equal_fold_def)
  then have "distinct (map (fold_key \<circ> fst) (m @ [(key, val)]))" using assms by simp
  then show ?thesis using that [of "m @ [(key, val)]" key] None upd no
    by (auto simp: SetKeyValueInMap_def)
next
  case (Some kv)
  obtain k0 v0 where kv: "kv = (k0, v0)" by (cases kv) auto
  have k0: "(k0, v0) \<in> set m" "equal_fold k0 key" using find_fold_Some Some kv by auto
  have uniq: "a = k0" if "(a, b) \<in> set m" "equal_fold a key" for a b
    using find_fold_unique [OF assms that] Some kv by simp
  have mem: "(a, b) \<in> set (AList.update k0 val m) \<longleftrightarrow>
      (a = k0 \<and> b = val) \<or> (a \<noteq> k0 \<and> (a, b) \<in> set m)" for a b
    using ci_distinct_fst [OF assms] by (rule update_mem)
  have "k0 \<in> fst ` set m" using k0(1) by (force simp: image_iff)
  then have "distinct (map (fold_key \<circ> fst) (AList.update k0 val m))"
    using assms by (simp add: update_fold_keys)
  moreover have "(a, b) \<in> set (AList.update k0 val m) \<longleftrightarrow>
      (a = k0 \<and> b = val) \<or> (\<not> equal_fold a key \<and> (a, b) \<in> set m)" for a b
    using mem [of a b] uniq [of a b] k0(2) by blast
  moreover have "SetKeyValueInMap (Some m) key val = Some (AList.update k0 val m)"
    using Some kv by (simp add: SetKeyValueInMap_def)
  ultimately show ?thesis using k0(2) that [of "AList.update k0 val m" k0] by blast
qed

lemma GetValueInMap_eq:
  assumes "distinct (map (fold_key \<circ> fst) m)" "(k, v) \<in> set m" "equal_fold k key"
  shows "GetValueInMap (Some m) key = v"
  using find_fold_unique [OF assms] by (simp add: GetValueInMap_def)

lemma GetValueInMap_absent:
  "(\<And>k v. (k, v) \<in> set m \<Longrightarrow> \<not> equal_fold k key) \<Longrightarrow> GetValueInMap (Some m) key = ''''"
proof -
  assume "\<And>k v. (k, v) \<in> set m \<Longrightarrow> \<not> equal_fold k key"
  then have "find_fold m key = None" by (auto simp: find_fold_None)
  then show ?thesis by (simp add: GetValueInMap_def)
qed

lemma ci_get_put:
  assumes "ci_ok m"
  shows "ci_ok (SetKeyValueInMap m key val)"
    and "GetValueInMap (SetKeyValueInMap m key val) key' =
      (if equal_fold key key' then val else GetValueInMap m key')"
proof -
  obtain l where m: "m = Some l" and d: "distinct (map (fold_key \<circ> fst) l)"
    using assms by (cases m) (auto simp: ci_ok_def)
  obtain k0 l' where l': "SetKeyValueInMap (Some l) key val = Some l'"
    "equal_fold k0 key" "distinct (map (fold_key \<circ> fst) l')"
    "\<And>a b. (a, b) \<in> set l' \<longleftrightarrow> (a = k0 \<and> b = val) \<or> (\<not> equal_fold a key \<and> (a, b) \<in> set l)"
    using SetKeyValueInMap_entries [OF d, of key val] by metis
  show "ci_ok (SetKeyValueInMap m key val)" using l' m by (simp add: ci_ok_def)
  show "GetValueInMap (SetKeyValueInMap m key val) key' =
      (if equal_fold key key' then val else GetValueInMap m key')"
  proof (cases "equal_fold key key'")
    case True
    then have "GetValueInMap (Some l') key' = val"
      using l'(2,3,4) by (intro GetValueInMap_eq [of l' k0]) (auto intro: equal_fold_trans)
    then show ?thesis using True l'(1) m by simp
  next
    case False
    have "GetValueInMap (Some l') key' = GetValueInMap (Some l) key'"
    proof (cases "\<exists>k v. (k, v) \<in> set l \<and> equal_fold k key'")
      case True
      then obtain k v where kv: "(k, v) \<in> set l" "equal_fold k key'" by auto
      then have "(k, v) \<in> set l'"
        using l'(4) False by (metis equal_fold_sym equal_fold_trans)
      then show ?thesis using kv d l'(3) by (simp add: GetValueInMap_eq)
    next
      case none: False
      have "\<not> equal_fold k0 key'" using False l'(2) by (metis equal_fold_sym equal_fold_trans)
      then have "GetValueInMap (Some l') key' = ''''"
        using none l'(4) by (intro GetValueInMap_absent) auto
      moreover have "GetValueInMap (Some l) key' = ''''"
        using none by (intro GetValueInMap_absent) auto
      ultimately show ?thesis by simp
    qed
    then show ?thesis using False l'(1) m by simp
  qed
qed

interpretation params: ci_store GetValueInMap SetKeyValueInMap ci_ok equal_fold
  by unfold_locales (auto simp: ci_get_put)

text \<open>Reading does not depend on the order in which the map is visited.\<close>

lemma GetValueInMap_same_map:
  assumes "same_map m m'" "ci_ok (Some m)"
  shows "GetValueInMap (Some m') key = GetValueInMap (Some m) key"
proof (cases "\<exists>k v. (k, v) \<in> set m \<and> equal_fold k key")
  case True
  then obtain k v where kv: "(k, v) \<in> set m" "equal_fold k key" by auto
  moreover have "distinct (map (fold_key \<circ> fst) m')"
    using assms by (simp add: ci_ok_def same_map_distinct)
  ultimately show ?thesis
    using assms same_map_set [OF assms(1)] by (simp add: GetValueInMap_eq ci_ok_def)
next
  case False
  have "GetValueInMap (Some m) key = ''''" using False by (intro GetValueInMap_absent) auto
  moreover have "GetValueInMap (Some m') key = ''''"
    using False same_map_set [OF assms(1)] by (intro GetValueInMap_absent) auto
  ultimately show ?thesis by simp
qed

end
