(* ===== verification/Volume_Locks.thy ===== *)
theory Volume_Locks
  imports Prelude
begin

text \<open>
  \<open>pkg/azurelustre/volume_lock.go\<close>: the set of volume keys with an ongoing operation. Both
  operations run under the mutex \<open>mux\<close>, so each is one atomic step. The contract the handlers
  rely on is the locale \<open>try_lock\<close>; the interleavings of concurrent handlers are the step
  relation \<open>handler_step\<close>: a handler enters by a successful \<open>TryAcquire\<close>, is turned away by
  a failed one (the handler then answers Aborted), and leaves by its deferred \<open>Release\<close>.
\<close>

record volumeLocks =
  locks :: "string set"

definition newVolumeLocks :: volumeLocks where
  "newVolumeLocks = \<lparr>locks = {}\<rparr>"

definition TryAcquire :: "string \<Rightarrow> volumeLocks \<Rightarrow> bool \<times> volumeLocks" where
  "TryAcquire volumeID vl =
     (if volumeID \<in> locks vl then (False, vl)
      else (True, vl\<lparr>locks := insert volumeID (locks vl)\<rparr>))"

definition Release :: "string \<Rightarrow> volumeLocks \<Rightarrow> volumeLocks" where
  "Release volumeID vl = vl\<lparr>locks := locks vl - {volumeID}\<rparr>"

subsection \<open>The contract\<close>

locale try_lock =
  fixes held :: "'l \<Rightarrow> string \<Rightarrow> bool"
    and acquire :: "string \<Rightarrow> 'l \<Rightarrow> bool \<times> 'l"
    and release :: "string \<Rightarrow> 'l \<Rightarrow> 'l"
  assumes acquire_result: "fst (acquire k l) \<longleftrightarrow> \<not> held l k"
    and acquire_busy: "held l k \<Longrightarrow> snd (acquire k l) = l"
    and acquire_held: "held (snd (acquire k l)) k' \<longleftrightarrow> k' = k \<or> held l k'"
    and release_held: "held (release k l) k' \<longleftrightarrow> k' \<noteq> k \<and> held l k'"
    and extensional: "(\<And>k. held l k \<longleftrightarrow> held l' k) \<Longrightarrow> l = l'"
begin

text \<open>A critical section that returns its lock leaves no trace.\<close>

lemma release_acquire: "\<not> held l k \<Longrightarrow> release k (snd (acquire k l)) = l"
  by (rule extensional) (auto simp: release_held acquire_held)

lemma acquire_twice: "fst (acquire k (snd (acquire k l))) \<longleftrightarrow> False"
  by (simp add: acquire_result acquire_held)

lemma acquire_other: "k \<noteq> k' \<Longrightarrow> fst (acquire k' (snd (acquire k l))) \<longleftrightarrow> fst (acquire k' l)"
  by (auto simp: acquire_result acquire_held)

end

interpretation vlocks: try_lock "\<lambda>vl k. k \<in> locks vl" TryAcquire Release
proof unfold_locales
  fix l l' :: volumeLocks
  assume "\<And>k. k \<in> locks l \<longleftrightarrow> k \<in> locks l'"
  then show "l = l'" by (intro volumeLocks.equality) auto
qed (auto simp: TryAcquire_def Release_def)

text \<open>The shape of every handler that takes a volume lock.\<close>

definition with_lock ::
    "string \<Rightarrow> (volumeLocks \<Rightarrow> 'r \<times> volumeLocks) \<Rightarrow> 'r \<Rightarrow> volumeLocks \<Rightarrow> 'r \<times> volumeLocks" where
  "with_lock k body busy vl =
     (case TryAcquire k vl of
        (False, vl') \<Rightarrow> (busy, vl')
      | (True, vl') \<Rightarrow> (let (r, vl'') = body vl' in (r, Release k vl'')))"

text \<open>\<open>with_lock\<close> around a body that does not touch the lock table restores the table.\<close>

lemma with_lock_restores:
  assumes "\<And>l. snd (body l) = l"
  shows "snd (with_lock k body busy vl) = vl"
proof (cases "k \<in> locks vl")
  case True
  then show ?thesis by (simp add: with_lock_def TryAcquire_def)
next
  case False
  then have "Release k (snd (TryAcquire k vl)) = vl" by (rule vlocks.release_acquire)
  moreover obtain vl' where "TryAcquire k vl = (True, vl')" using False by (simp add: TryAcquire_def)
  ultimately show ?thesis using assms [of vl'] by (simp add: with_lock_def split_beta)
qed

lemma with_lock_busy: "k \<in> locks vl \<Longrightarrow> with_lock k body busy vl = (busy, vl)"
  by (simp add: with_lock_def TryAcquire_def)

lemma with_lock_free:
  "k \<notin> locks vl \<Longrightarrow>
     fst (with_lock k body busy vl) = fst (body (vl\<lparr>locks := insert k (locks vl)\<rparr>))"
  by (simp add: with_lock_def TryAcquire_def split_beta)

subsection \<open>Interleavings of concurrent handlers\<close>

record handlers =
  table :: volumeLocks
  inside :: "(nat \<times> string) list"  \<comment> \<open>handlers between \<open>TryAcquire\<close> and \<open>Release\<close>\<close>

definition init_handlers :: handlers where
  "init_handlers = \<lparr>table = newVolumeLocks, inside = []\<rparr>"

inductive handler_step :: "handlers \<Rightarrow> handlers \<Rightarrow> bool" where
  enter: "TryAcquire k (table s) = (True, t) \<Longrightarrow>
     handler_step s (s\<lparr>table := t, inside := (i, k) # inside s\<rparr>)"
| turned_away: "TryAcquire k (table s) = (False, t) \<Longrightarrow> handler_step s (s\<lparr>table := t\<rparr>)"
| leave: "(i, k) \<in> set (inside s) \<Longrightarrow>
     handler_step s (s\<lparr>table := Release k (table s), inside := remove1 (i, k) (inside s)\<rparr>)"

inductive reachable_handlers :: "handlers \<Rightarrow> bool" where
  start: "reachable_handlers init_handlers"
| step: "reachable_handlers s \<Longrightarrow> handler_step s t \<Longrightarrow> reachable_handlers t"

inductive_cases handler_stepE: "handler_step s t"

text \<open>The table is exactly the keys of the handlers inside, each of which is there once.\<close>

definition locks_inv :: "handlers \<Rightarrow> bool" where
  "locks_inv s \<longleftrightarrow> locks (table s) = snd ` set (inside s) \<and> distinct (map snd (inside s))"

lemma remove1_keys:
  assumes "distinct (map snd xs)" "(i, k) \<in> set xs"
  shows "snd ` set (remove1 (i, k) xs) = snd ` set xs - {k}" "distinct (map snd (remove1 (i, k) xs))"
proof -
  have "distinct xs" using assms(1) by (simp add: distinct_map)
  have "inj_on snd (set xs)" using assms(1) by (simp add: distinct_map)
  then show "snd ` set (remove1 (i, k) xs) = snd ` set xs - {k}"
    using assms(2) \<open>distinct xs\<close> inj_on_image_set_diff [of snd "set xs" "set xs" "{(i, k)}"]
    by (simp add: set_remove1_eq)
  show "distinct (map snd (remove1 (i, k) xs))"
    using \<open>distinct xs\<close> \<open>inj_on snd (set xs)\<close>
    by (auto simp: distinct_map set_remove1_eq inj_on_def)
qed

lemma handler_step_inv:
  assumes "handler_step s t" "locks_inv s"
  shows "locks_inv t"
  using assms
proof cases
  case (enter k t' i)
  then have "k \<notin> locks (table s)" "locks t' = insert k (locks (table s))"
    by (auto simp: TryAcquire_def split: if_splits)
  then show ?thesis using assms(2) enter by (auto simp: locks_inv_def)
next
  case (turned_away k t')
  then show ?thesis using assms(2) by (auto simp: locks_inv_def TryAcquire_def split: if_splits)
next
  case (leave i k)
  then show ?thesis using assms(2) remove1_keys [of "inside s" i k]
    by (auto simp: locks_inv_def Release_def)
qed

lemma reachable_locks_inv: "reachable_handlers s \<Longrightarrow> locks_inv s"
proof (induction rule: reachable_handlers.induct)
  case start
  show ?case by (simp add: locks_inv_def init_handlers_def newVolumeLocks_def)
next
  case (step s t)
  then show ?case by (blast intro: handler_step_inv)
qed

text \<open>
  C11. Mutual exclusion over every interleaving: two handlers that are inside at the same time work
  on different keys, a request is turned away exactly when a handler with its key is inside, and
  once every handler has left, no key is locked (no lock leaks).
\<close>

theorem volume_locks_mutual_exclusion:
  assumes "reachable_handlers s"
  shows "(\<forall>xs i k ys j k' zs. inside s = xs @ (i, k) # ys @ (j, k') # zs \<longrightarrow> k \<noteq> k')
    \<and> (\<forall>k. fst (TryAcquire k (table s)) \<longleftrightarrow> (\<forall>i. (i, k) \<notin> set (inside s)))
    \<and> (inside s = [] \<longrightarrow> table s = newVolumeLocks)"
proof -
  have inv: "locks_inv s" using assms by (rule reachable_locks_inv)
  have "k \<noteq> k'" if "inside s = xs @ (i, k) # ys @ (j, k') # zs" for xs i k ys j k' zs
    using inv that by (auto simp: locks_inv_def)
  moreover have "fst (TryAcquire k (table s)) \<longleftrightarrow> (\<forall>i. (i, k) \<notin> set (inside s))" for k
    using inv by (force simp: locks_inv_def TryAcquire_def)
  moreover have "table s = newVolumeLocks" if "inside s = []"
    using inv that by (simp add: locks_inv_def newVolumeLocks_def)
  ultimately show ?thesis by blast
qed

theorem volume_locks_mutual_exclusion_witness:
  "\<exists>s. reachable_handlers s \<and> inside s = [(2, ''b''), (1, ''a'')]
     \<and> ''b'' \<noteq> ''a'' \<and> \<not> fst (TryAcquire ''a'' (table s))"
proof -
  define s1 where "s1 = \<lparr>table = \<lparr>locks = {''a''}\<rparr>, inside = [(1 :: nat, ''a'')]\<rparr>"
  define s2 where "s2 = \<lparr>table = \<lparr>locks = {''b'', ''a''}\<rparr>, inside = [(2 :: nat, ''b''), (1, ''a'')]\<rparr>"
  have e1: "handler_step init_handlers s1"
    using handler_step.enter [of "''a''" init_handlers "\<lparr>locks = {''a''}\<rparr>" 1]
    by (simp add: s1_def init_handlers_def newVolumeLocks_def TryAcquire_def)
  have e2: "handler_step s1 s2"
    using handler_step.enter [of "''b''" s1 "\<lparr>locks = {''b'', ''a''}\<rparr>" 2]
    by (simp add: s1_def s2_def TryAcquire_def)
  have r: "reachable_handlers s2"
    using reachable_handlers.step [OF reachable_handlers.step [OF reachable_handlers.start e1] e2] .
  note m = volume_locks_mutual_exclusion [OF r]
  have "inside s2 = [] @ (2, ''b'') # [] @ (1, ''a'') # []" by (simp add: s2_def)
  then have "''b'' \<noteq> ''a''" using m by blast
  moreover have "(1, ''a'') \<in> set (inside s2)" by (simp add: s2_def)
  then have "\<not> fst (TryAcquire ''a'' (table s2))" using m by blast
  ultimately show ?thesis using r by (auto simp: s2_def)
qed

end
