(* ===== verification/Lock_Map.thy ===== *)
theory Lock_Map
  imports Prelude
begin

text \<open>
  The \<open>LockMap\<close> of \<open>pkg/util/util.go\<close>: a map from entries to mutexes, itself guarded by a
  mutex. Its two public methods are cut into their atomic steps, so that any number of threads
  interleave: \<open>LockEntry\<close> takes the outer mutex, adds a missing entry, returns the outer mutex
  and only then reads the map again and blocks on the entry's mutex; \<open>UnlockEntry\<close> keeps the
  outer mutex throughout. Threads obey the discipline that an entry is unlocked by the thread
  that locked it. The field \<open>outer\<close> is the embedded \<open>sync.Mutex\<close>, with its holder.
\<close>

record lockMap =
  outer :: "nat option"
  mutexMap :: "string \<rightharpoonup> nat option"  \<comment> \<open>an entry's mutex: free, or locked by a thread\<close>

definition NewLockMap :: lockMap where
  "NewLockMap = \<lparr>outer = None, mutexMap = Map.empty\<rparr>"

definition addEntry :: "string \<Rightarrow> lockMap \<Rightarrow> lockMap" where
  "addEntry entry lm = lm\<lparr>mutexMap := (mutexMap lm)(entry \<mapsto> None)\<rparr>"

text \<open>The blocking \<open>Lock\<close> and the \<open>Unlock\<close> of an entry's mutex.\<close>

datatype 'a outcome = Done 'a | Blocked | Fatal

definition lockEntry :: "nat \<Rightarrow> string \<Rightarrow> lockMap \<Rightarrow> lockMap outcome" where
  "lockEntry i entry lm =
     (case mutexMap lm entry of
        None \<Rightarrow> Fatal  \<comment> \<open>nil pointer\<close>
      | Some (Some _) \<Rightarrow> Blocked
      | Some None \<Rightarrow> Done (lm\<lparr>mutexMap := (mutexMap lm)(entry \<mapsto> Some i)\<rparr>))"

definition unlockEntry :: "string \<Rightarrow> lockMap \<Rightarrow> lockMap outcome" where
  "unlockEntry entry lm =
     (case mutexMap lm entry of
        None \<Rightarrow> Fatal
      | Some None \<Rightarrow> Fatal  \<comment> \<open>unlock of an unlocked mutex\<close>
      | Some (Some _) \<Rightarrow> Done (lm\<lparr>mutexMap := (mutexMap lm)(entry \<mapsto> None)\<rparr>))"

text \<open>Where a thread stands in a call.\<close>

datatype pc =
    Idle
  | LockTop string     \<comment> \<open>\<open>LockEntry\<close>, holding the outer mutex, before the lookup\<close>
  | LockAdded string   \<comment> \<open>after the entry was added if missing\<close>
  | LockWait string    \<comment> \<open>outer mutex returned; about to read the map and lock the entry\<close>
  | Holding string
  | UnlockTop string   \<comment> \<open>\<open>UnlockEntry\<close>, holding the outer mutex\<close>
  | UnlockEnd string   \<comment> \<open>before the deferred unlock of the outer mutex\<close>
  | Crashed

record lm_state =
  lmap :: lockMap
  thr :: "nat \<Rightarrow> pc"

definition lm_init :: lm_state where
  "lm_init = \<lparr>lmap = NewLockMap, thr = (\<lambda>_. Idle)\<rparr>"

inductive lm_step :: "lm_state \<Rightarrow> lm_state \<Rightarrow> bool" where
  lock_call: "thr s i = Idle \<Longrightarrow> outer (lmap s) = None \<Longrightarrow>
     lm_step s (s\<lparr>lmap := (lmap s)\<lparr>outer := Some i\<rparr>, thr := (thr s)(i := LockTop e)\<rparr>)"
| lock_lookup: "thr s i = LockTop e \<Longrightarrow>
     lm_step s (s\<lparr>lmap := (if mutexMap (lmap s) e = None then addEntry e (lmap s) else lmap s),
       thr := (thr s)(i := LockAdded e)\<rparr>)"
| lock_unlock_outer: "thr s i = LockAdded e \<Longrightarrow>
     lm_step s (s\<lparr>lmap := (lmap s)\<lparr>outer := None\<rparr>, thr := (thr s)(i := LockWait e)\<rparr>)"
| lock_entry: "thr s i = LockWait e \<Longrightarrow> lockEntry i e (lmap s) = Done m \<Longrightarrow>
     lm_step s (s\<lparr>lmap := m, thr := (thr s)(i := Holding e)\<rparr>)"
| lock_fatal: "thr s i = LockWait e \<Longrightarrow> lockEntry i e (lmap s) = Fatal \<Longrightarrow>
     lm_step s (s\<lparr>thr := (thr s)(i := Crashed)\<rparr>)"
| unlock_call: "thr s i = Holding e \<Longrightarrow> outer (lmap s) = None \<Longrightarrow>
     lm_step s (s\<lparr>lmap := (lmap s)\<lparr>outer := Some i\<rparr>, thr := (thr s)(i := UnlockTop e)\<rparr>)"
| unlock_missing: "thr s i = UnlockTop e \<Longrightarrow> mutexMap (lmap s) e = None \<Longrightarrow>
     lm_step s (s\<lparr>thr := (thr s)(i := UnlockEnd e)\<rparr>)"
| unlock_entry: "thr s i = UnlockTop e \<Longrightarrow> mutexMap (lmap s) e \<noteq> None \<Longrightarrow>
     unlockEntry e (lmap s) = Done m \<Longrightarrow>
     lm_step s (s\<lparr>lmap := m, thr := (thr s)(i := UnlockEnd e)\<rparr>)"
| unlock_fatal: "thr s i = UnlockTop e \<Longrightarrow> mutexMap (lmap s) e \<noteq> None \<Longrightarrow>
     unlockEntry e (lmap s) = Fatal \<Longrightarrow> lm_step s (s\<lparr>thr := (thr s)(i := Crashed)\<rparr>)"
| unlock_return: "thr s i = UnlockEnd e \<Longrightarrow>
     lm_step s (s\<lparr>lmap := (lmap s)\<lparr>outer := None\<rparr>, thr := (thr s)(i := Idle)\<rparr>)"

inductive lm_reachable :: "lm_state \<Rightarrow> bool" where
  lm_start: "lm_reachable lm_init"
| lm_next: "lm_reachable s \<Longrightarrow> lm_step s t \<Longrightarrow> lm_reachable t"

subsection \<open>The invariant\<close>

fun in_outer :: "pc \<Rightarrow> bool" where
  "in_outer (LockTop _) \<longleftrightarrow> True"
| "in_outer (LockAdded _) \<longleftrightarrow> True"
| "in_outer (UnlockTop _) \<longleftrightarrow> True"
| "in_outer (UnlockEnd _) \<longleftrightarrow> True"
| "in_outer _ \<longleftrightarrow> False"

fun holds :: "pc \<Rightarrow> string option" where
  "holds (Holding e) = Some e"
| "holds (UnlockTop e) = Some e"
| "holds _ = None"

fun needs_entry :: "pc \<Rightarrow> string option" where
  "needs_entry (LockAdded e) = Some e"
| "needs_entry (LockWait e) = Some e"
| "needs_entry (Holding e) = Some e"
| "needs_entry (UnlockTop e) = Some e"
| "needs_entry _ = None"

definition lm_inv :: "lm_state \<Rightarrow> bool" where
  "lm_inv s \<longleftrightarrow>
     (\<forall>i. in_outer (thr s i) \<longleftrightarrow> outer (lmap s) = Some i) \<and>
     (\<forall>i e. needs_entry (thr s i) = Some e \<longrightarrow> mutexMap (lmap s) e \<noteq> None) \<and>
     (\<forall>i e. holds (thr s i) = Some e \<longleftrightarrow> mutexMap (lmap s) e = Some (Some i)) \<and>
     (\<forall>i. thr s i \<noteq> Crashed)"

lemma lm_inv_init: "lm_inv lm_init"
  by (simp add: lm_inv_def lm_init_def NewLockMap_def)

lemma lm_needs: "lm_inv s \<Longrightarrow> needs_entry (thr s i) = Some e \<Longrightarrow> mutexMap (lmap s) e \<noteq> None"
  unfolding lm_inv_def by blast

lemma lm_held: "lm_inv s \<Longrightarrow> holds (thr s i) = Some e \<Longrightarrow> mutexMap (lmap s) e = Some (Some i)"
  unfolding lm_inv_def by blast

lemma lm_outer: "lm_inv s \<Longrightarrow> in_outer (thr s i) \<longleftrightarrow> outer (lmap s) = Some i"
  unfolding lm_inv_def by blast

lemma lm_holds: "lm_inv s \<Longrightarrow> holds (thr s i) = Some e \<longleftrightarrow> mutexMap (lmap s) e = Some (Some i)"
  unfolding lm_inv_def by blast

text \<open>What a step of thread \<open>i\<close> to \<open>q\<close> has to respect.\<close>

lemma lm_inv_update:
  assumes inv: "lm_inv s"
    and "\<And>j. j \<noteq> i \<Longrightarrow> outer m' = Some j \<longleftrightarrow> outer (lmap s) = Some j"
    and "in_outer q \<longleftrightarrow> outer m' = Some i"
    and "\<And>e. mutexMap (lmap s) e \<noteq> None \<Longrightarrow> mutexMap m' e \<noteq> None"
    and "\<And>e. needs_entry q = Some e \<Longrightarrow> mutexMap m' e \<noteq> None"
    and "\<And>e j. j \<noteq> i \<Longrightarrow> mutexMap m' e = Some (Some j) \<longleftrightarrow> mutexMap (lmap s) e = Some (Some j)"
    and "\<And>e. holds q = Some e \<longleftrightarrow> mutexMap m' e = Some (Some i)"
    and "q \<noteq> Crashed"
  shows "lm_inv (s\<lparr>lmap := m', thr := (thr s)(i := q)\<rparr>)"
  using assms(2-) lm_needs [OF inv] lm_outer [OF inv] lm_holds [OF inv] inv
  by (simp add: lm_inv_def)

lemma lm_inv_unlock:
  assumes "thr s i = UnlockTop e" and "unlockEntry e (lmap s) = Done m" and inv: "lm_inv s"
  shows "lm_inv (s\<lparr>lmap := m, thr := (thr s)(i := UnlockEnd e)\<rparr>)"
proof -
  have held: "mutexMap (lmap s) e = Some (Some i)" using assms by (intro lm_held) auto
  then have m: "m = (lmap s)\<lparr>mutexMap := (mutexMap (lmap s))(e \<mapsto> None)\<rparr>"
    using assms(2) by (simp add: unlockEntry_def)
  have mine: "e' \<noteq> e \<Longrightarrow> mutexMap (lmap s) e' \<noteq> Some (Some i)" for e'
    using lm_holds [of s i e'] assms by auto
  have "outer (lmap s) = Some i" using lm_outer [of s i] assms by simp
  then show ?thesis unfolding m using inv held mine by (intro lm_inv_update) auto
qed

lemma lm_inv_step: "lm_step s t \<Longrightarrow> lm_inv s \<Longrightarrow> lm_inv t"
proof (induction rule: lm_step.induct)
  case (lock_call s i e)
  then show ?case using lm_holds [of s i] by (intro lm_inv_update) auto
next
  case (lock_lookup s i e)
  then show ?case using lm_holds [of s i] lm_outer [of s i]
    by (intro lm_inv_update) (auto simp: addEntry_def)
next
  case (lock_unlock_outer s i e)
  then show ?case using lm_holds [of s i] lm_outer [of s i] lm_needs [of s i]
    by (intro lm_inv_update) auto
next
  case (lock_entry s i e m)
  then show ?case using lm_holds [of s i] lm_outer [of s i]
    by (intro lm_inv_update) (auto simp: lockEntry_def split: option.splits if_splits)
next
  case (lock_fatal s i e)
  then have "mutexMap (lmap s) e \<noteq> None" by (intro lm_needs [of s i]) auto
  then show ?case using lock_fatal.hyps by (auto simp: lockEntry_def split: option.splits)
next
  case (unlock_call s i e)
  then show ?case using lm_holds [of s i] by (intro lm_inv_update) auto
next
  case (unlock_missing s i e)
  then have "mutexMap (lmap s) e \<noteq> None" by (intro lm_needs [of s i]) auto
  then show ?case using unlock_missing.hyps by simp
next
  case (unlock_entry s i e m)
  then show ?case by (intro lm_inv_unlock)
next
  case (unlock_fatal s i e)
  then have "mutexMap (lmap s) e = Some (Some i)" by (intro lm_held) auto
  then show ?case using unlock_fatal.hyps by (simp add: unlockEntry_def)
next
  case (unlock_return s i e)
  then show ?case using lm_holds [of s i] lm_outer [of s i] by (intro lm_inv_update) auto
qed

lemma lm_reachable_inv: "lm_reachable s \<Longrightarrow> lm_inv s"
  by (induction rule: lm_reachable.induct) (auto intro: lm_inv_init lm_inv_step)

subsection \<open>Correctness and a race\<close>


text \<open>The run of one thread up to the point where it waits for its entry.\<close>

definition lm_waiting :: lm_state where
  "lm_waiting = \<lparr>lmap = \<lparr>outer = None, mutexMap = [''a'' \<mapsto> None]\<rparr>, thr = (\<lambda>_. Idle)(0 := LockWait ''a'')\<rparr>"

lemma lm_waiting_reachable: "lm_reachable lm_waiting"
proof -
  have 1: "lm_reachable \<lparr>lmap = \<lparr>outer = Some 0, mutexMap = Map.empty\<rparr>, thr = (\<lambda>_. Idle)(0 := LockTop ''a'')\<rparr>"
    using lm_next [OF lm_start lock_call [of lm_init 0 "''a''"]]
    by (simp add: lm_init_def NewLockMap_def)
  have 2: "lm_reachable \<lparr>lmap = \<lparr>outer = Some 0, mutexMap = [''a'' \<mapsto> None]\<rparr>, thr = (\<lambda>_. Idle)(0 := LockAdded ''a'')\<rparr>"
    using lm_next [OF 1 lock_lookup [of _ 0 "''a''"]] by (simp add: addEntry_def)
  show ?thesis
    using lm_next [OF 2 lock_unlock_outer [of _ 0 "''a''"]] by (simp add: lm_waiting_def)
qed


text \<open>
  The map itself is not protected: there is a reachable state in which one thread is about to
  read \<open>mutexMap\<close> without the outer mutex (in \<open>lockEntry\<close>) while another is about to write a
  new entry into it under the outer mutex. Go's runtime ends a program that does both at once.
\<close>

theorem lock_map_race:
  "\<exists>s e e'. lm_reachable s \<and> thr s 0 = LockWait e \<and> outer (lmap s) \<noteq> Some 0
     \<and> thr s 1 = LockTop e' \<and> mutexMap (lmap s) e' = None"
proof -
  have "lm_reachable (lm_waiting\<lparr>lmap := (lmap lm_waiting)\<lparr>outer := Some 1\<rparr>,
      thr := (thr lm_waiting)(1 := LockTop ''b'')\<rparr>)" (is "lm_reachable ?s")
    by (rule lm_next [OF lm_waiting_reachable lock_call]) (auto simp: lm_waiting_def)
  moreover have "thr ?s 0 = LockWait ''a''" "outer (lmap ?s) \<noteq> Some 0" "thr ?s 1 = LockTop ''b''"
    "mutexMap (lmap ?s) ''b'' = None" by (auto simp: lm_waiting_def)
  ultimately show ?thesis by blast
qed

end
