(* ===== verification/Lustre_Volume.thy ===== *)
theory Lustre_Volume
  imports Util
begin

text \<open>
  The Lustre volume: the \<open>lustreVolume\<close> struct and \<open>getLustreVolFromID\<close> of
  \<open>pkg/azurelustre/azurelustre.go\<close>, \<open>createVolumeIDFromParams\<close> of
  \<open>controllerserver.go\<close>, \<open>newLustreVolume\<close> and \<open>getVolume\<close> of \<open>nodeserver.go\<close>. The
  controller writes a volume's identity into a \<open>#\<close>-separated identifier and into the volume
  context; the node reads both back. Each loop over a parameter map is characterised by the last
  value its \<open>range\<close> visits for a key (\<open>ci_last\<close>), which does not depend on the visiting order
  as long as no two keys differ in case only.
\<close>

abbreviation DefaultLustreFsName :: string where "DefaultLustreFsName \<equiv> ''lustrefs''"
abbreviation separator :: char where "separator \<equiv> CHR ''#''"

abbreviation VolumeContextMGSIPAddress :: string where "VolumeContextMGSIPAddress \<equiv> ''mgs-ip-address''"
abbreviation VolumeContextFSName :: string where "VolumeContextFSName \<equiv> ''fs-name''"
abbreviation VolumeContextSubDir :: string where "VolumeContextSubDir \<equiv> ''sub-dir''"
abbreviation VolumeContextResourceGroupName :: string where "VolumeContextResourceGroupName \<equiv> ''resource-group-name''"
abbreviation VolumeContextInternalDynamicallyCreated :: string where "VolumeContextInternalDynamicallyCreated \<equiv> ''created-by-dynamic-provisioning''"

record lustreVolume =
  vol_name :: string
  vol_id :: string
  mgsIPAddress :: string
  azureLustreName :: string
  subDir :: string
  createdByDynamicProvisioning :: bool
  resourceGroupName :: string

definition getLustreVolFromID :: "string \<Rightarrow> lustreVolume result" where
  "getLustreVolFromID i =
     (let segments = split separator i in
      if length segments < 3 then
        Inl (PlainError (''could not split volume ID '' @ quote i @ '' into lustre name and ip address''))
      else Inr \<lparr>vol_name = segments ! 0, vol_id = i, mgsIPAddress = segments ! 2,
        azureLustreName = DefaultLustreFsName,
        subDir = (if 4 \<le> length segments then trim_byte (CHR ''/'') (segments ! 3) else ''''),
        createdByDynamicProvisioning = (5 \<le> length segments \<and> segments ! 4 = ''t''),
        resourceGroupName = (if 6 \<le> length segments then segments ! 5 else '''')\<rparr>)"

subsection \<open>Identifiers from parameters\<close>

text \<open>The variables that the loop of \<open>createVolumeIDFromParams\<close> fills.\<close>

record id_vars =
  id_mgs :: string
  id_dyn :: string
  id_rg :: string
  id_subDir :: string

definition createVolumeID_case :: "string \<times> string \<Rightarrow> id_vars \<Rightarrow> id_vars result" where
  "createVolumeID_case kv st =
     (let k = to_lower (fst kv); v = snd kv in
      if k = VolumeContextMGSIPAddress then Inr (st\<lparr>id_mgs := v\<rparr>)
      else if k = VolumeContextInternalDynamicallyCreated then Inr (st\<lparr>id_dyn := v\<rparr>)
      else if k = VolumeContextResourceGroupName then Inr (st\<lparr>id_rg := v\<rparr>)
      else if k = VolumeContextSubDir then
        (let sub = trim_byte (CHR ''/'') v in
         if sub = '''' then
           Inl (StatusError InvalidArgument ''CreateVolume Parameter sub-dir must not be empty if provided'')
         else Inr (st\<lparr>id_subDir := sub\<rparr>))
      else Inr st)"

text \<open>\<open>volumeIDTemplate\<close>: six fields between hash signs.\<close>

definition volumeID_format :: "string \<Rightarrow> string \<Rightarrow> string \<Rightarrow> string \<Rightarrow> string \<Rightarrow> string \<Rightarrow> string" where
  "volumeID_format a b c d e f = join [separator] [a, b, c, d, e, f]"

definition createVolumeIDFromParams :: "string \<Rightarrow> gomap \<Rightarrow> string result" where
  "createVolumeIDFromParams volName params =
     (case range_loop createVolumeID_case params
             \<lparr>id_mgs = '''', id_dyn = '''', id_rg = '''', id_subDir = ''''\<rparr> of
        Inl e \<Rightarrow> Inl e
      | Inr st \<Rightarrow> Inr (volumeID_format volName DefaultLustreFsName (id_mgs st) (id_subDir st)
                        (id_dyn st) (id_rg st)))"

subsection \<open>Volumes from a volume context\<close>

record vol_vars =
  vv_mgs :: string
  vv_subDir :: string
  vv_dyn :: bool
  vv_rg :: string

definition newLustreVolume_case :: "string \<times> string \<Rightarrow> vol_vars \<Rightarrow> vol_vars result" where
  "newLustreVolume_case kv st =
     (let k = to_lower (fst kv); v = snd kv in
      if k = VolumeContextMGSIPAddress then Inr (st\<lparr>vv_mgs := v\<rparr>)
      else if k = VolumeContextSubDir then
        (let sub = trim_byte (CHR ''/'') v in
         if sub = '''' then
           Inl (StatusError InvalidArgument ''Context sub-dir must not be empty or root if provided'')
         else Inr (st\<lparr>vv_subDir := sub\<rparr>))
      else if k = VolumeContextInternalDynamicallyCreated then
        Inr (if v = ''t'' then st\<lparr>vv_dyn := True\<rparr> else st)
      else if k = VolumeContextResourceGroupName then Inr (st\<lparr>vv_rg := v\<rparr>)
      else Inr st)"

definition newLustreVolume :: "string \<Rightarrow> string \<Rightarrow> gomap \<Rightarrow> lustreVolume result" where
  "newLustreVolume volumeID volumeName params =
     (case range_loop newLustreVolume_case params
             \<lparr>vv_mgs = '''', vv_subDir = '''', vv_dyn = False, vv_rg = ''''\<rparr> of
        Inl e \<Rightarrow> Inl e
      | Inr st \<Rightarrow>
          if vv_mgs st = '''' then
            Inl (StatusError InvalidArgument ''Context mgs-ip-address must be provided'')
          else Inr \<lparr>vol_name = volumeName, vol_id = volumeID, mgsIPAddress = vv_mgs st,
            azureLustreName = DefaultLustreFsName, subDir = vv_subDir st,
            createdByDynamicProvisioning = vv_dyn st, resourceGroupName = vv_rg st\<rparr>)"

definition getVolume :: "string \<Rightarrow> gomap \<Rightarrow> lustreVolume result" where
  "getVolume volumeID context =
     (let volName = (case getLustreVolFromID volumeID of Inl _ \<Rightarrow> '''' | Inr v \<Rightarrow> vol_name v)
      in newLustreVolume volumeID volName context)"

subsection \<open>The last value of a key\<close>

fun ci_last :: "string \<Rightarrow> gomap \<Rightarrow> string option" where
  "ci_last key [] = None"
| "ci_last key ((k, v) # m) =
     (case ci_last key m of
        Some w \<Rightarrow> Some w
      | None \<Rightarrow> if to_lower k = key then Some v else None)"

definition ci_value :: "string \<Rightarrow> gomap \<Rightarrow> string" where
  "ci_value key m = (case ci_last key m of None \<Rightarrow> '''' | Some v \<Rightarrow> v)"

text \<open>No two keys become equal in lower case.\<close>

definition lc_ok :: "gomap \<Rightarrow> bool" where
  "lc_ok m \<longleftrightarrow> distinct (map (to_lower \<circ> fst) m)"

lemma ci_last_None: "ci_last key m = None \<longleftrightarrow> (\<forall>(k, v)\<in>set m. to_lower k \<noteq> key)"
  by (induction key m rule: ci_last.induct) (auto split: option.splits)

lemma ci_last_mem: "ci_last key m = Some v \<Longrightarrow> \<exists>k. (k, v) \<in> set m \<and> to_lower k = key"
  by (induction key m rule: ci_last.induct) (auto split: option.splits if_splits)

lemma ci_last_unique:
  assumes "lc_ok m" "(k, v) \<in> set m" "to_lower k = key"
  shows "ci_last key m = Some v"
proof -
  obtain w where w: "ci_last key m = Some w"
    using assms(2,3) ci_last_None [of key m] by (cases "ci_last key m") auto
  then obtain k' where k': "(k', w) \<in> set m" "to_lower k' = key" using ci_last_mem by blast
  have "inj_on (to_lower \<circ> fst) (set m)" using assms(1) by (simp add: lc_ok_def distinct_map)
  then have "(k', w) = (k, v)" by (rule inj_onD) (use k' assms(2,3) in auto)
  then show ?thesis using w by simp
qed

lemma ci_last_same_map:
  assumes "lc_ok m" "same_map m m'"
  shows "ci_last key m' = ci_last key m"
proof -
  have ok: "lc_ok m'" using assms by (simp add: lc_ok_def same_map_distinct)
  note s = same_map_set [OF assms(2)]
  show ?thesis
  proof (cases "ci_last key m")
    case None
    then have "ci_last key m' = None" using s unfolding ci_last_None by simp
    then show ?thesis using None by simp
  next
    case (Some v)
    then obtain k where "(k, v) \<in> set m" "to_lower k = key" using ci_last_mem by blast
    then show ?thesis using Some s ok by (simp add: ci_last_unique)
  qed
qed

lemma ci_value_same_map: "lc_ok m \<Longrightarrow> same_map m m' \<Longrightarrow> ci_value key m' = ci_value key m"
  using ci_last_same_map [of m m' key] by (simp add: ci_value_def)

text \<open>Some spelling of \<open>sub-dir\<close> has an empty or root value.\<close>

definition bad_subDir :: "gomap \<Rightarrow> bool" where
  "bad_subDir m \<longleftrightarrow>
     list_ex (\<lambda>(k, v). to_lower k = VolumeContextSubDir \<and> trim_byte (CHR ''/'') v = '''') m"

lemma bad_subDir_same_map: "same_map m m' \<Longrightarrow> bad_subDir m' = bad_subDir m"
  unfolding bad_subDir_def list_ex_iff by (drule same_map_set) simp

subsection \<open>What the loops compute\<close>

definition upd_opt :: "string option \<Rightarrow> string \<Rightarrow> string" where
  "upd_opt o_v d = (case o_v of None \<Rightarrow> d | Some v \<Rightarrow> v)"

lemma upd_opt_simps [simp]: "upd_opt None d = d" "upd_opt (Some v) d = v"
  by (simp_all add: upd_opt_def)

lemma ci_last_key: "ci_last key ((k, v) # m) = (if ci_last key m = None \<and> to_lower k = key then Some v else ci_last key m)"
  by (simp split: option.splits)

lemma createVolumeID_case_simps:
  "to_lower k = VolumeContextMGSIPAddress \<Longrightarrow> createVolumeID_case (k, v) st = Inr (st\<lparr>id_mgs := v\<rparr>)"
  "to_lower k = VolumeContextInternalDynamicallyCreated \<Longrightarrow> createVolumeID_case (k, v) st = Inr (st\<lparr>id_dyn := v\<rparr>)"
  "to_lower k = VolumeContextResourceGroupName \<Longrightarrow> createVolumeID_case (k, v) st = Inr (st\<lparr>id_rg := v\<rparr>)"
  "to_lower k = VolumeContextSubDir \<Longrightarrow> createVolumeID_case (k, v) st =
     (if trim_byte (CHR ''/'') v = '''' then
        Inl (StatusError InvalidArgument ''CreateVolume Parameter sub-dir must not be empty if provided'')
      else Inr (st\<lparr>id_subDir := trim_byte (CHR ''/'') v\<rparr>))"
  "to_lower k \<notin> {VolumeContextMGSIPAddress, VolumeContextInternalDynamicallyCreated,
     VolumeContextResourceGroupName, VolumeContextSubDir} \<Longrightarrow> createVolumeID_case (k, v) st = Inr st"
  by (simp_all add: createVolumeID_case_def Let_def)

lemma newLustreVolume_case_simps:
  "to_lower k = VolumeContextMGSIPAddress \<Longrightarrow> newLustreVolume_case (k, v) st = Inr (st\<lparr>vv_mgs := v\<rparr>)"
  "to_lower k = VolumeContextInternalDynamicallyCreated \<Longrightarrow>
     newLustreVolume_case (k, v) st = Inr (if v = ''t'' then st\<lparr>vv_dyn := True\<rparr> else st)"
  "to_lower k = VolumeContextResourceGroupName \<Longrightarrow> newLustreVolume_case (k, v) st = Inr (st\<lparr>vv_rg := v\<rparr>)"
  "to_lower k = VolumeContextSubDir \<Longrightarrow> newLustreVolume_case (k, v) st =
     (if trim_byte (CHR ''/'') v = '''' then
        Inl (StatusError InvalidArgument ''Context sub-dir must not be empty or root if provided'')
      else Inr (st\<lparr>vv_subDir := trim_byte (CHR ''/'') v\<rparr>))"
  "to_lower k \<notin> {VolumeContextMGSIPAddress, VolumeContextInternalDynamicallyCreated,
     VolumeContextResourceGroupName, VolumeContextSubDir} \<Longrightarrow> newLustreVolume_case (k, v) st = Inr st"
  by (simp_all add: newLustreVolume_case_def Let_def)

lemma createVolumeID_loop:
  "range_loop createVolumeID_case m st =
     (if bad_subDir m
      then Inl (StatusError InvalidArgument ''CreateVolume Parameter sub-dir must not be empty if provided'')
      else Inr \<lparr>id_mgs = upd_opt (ci_last VolumeContextMGSIPAddress m) (id_mgs st),
        id_dyn = upd_opt (ci_last VolumeContextInternalDynamicallyCreated m) (id_dyn st),
        id_rg = upd_opt (ci_last VolumeContextResourceGroupName m) (id_rg st),
        id_subDir = upd_opt (map_option (trim_byte (CHR ''/'')) (ci_last VolumeContextSubDir m)) (id_subDir st)\<rparr>)"
proof (induction m arbitrary: st)
  case Nil
  then show ?case by (simp add: bad_subDir_def)
next
  case (Cons kv m)
  obtain k v where kv: "kv = (k, v)" by (cases kv) auto
  consider "to_lower k = VolumeContextMGSIPAddress" | "to_lower k = VolumeContextInternalDynamicallyCreated"
    | "to_lower k = VolumeContextResourceGroupName" | "to_lower k = VolumeContextSubDir"
    | "to_lower k \<notin> {VolumeContextMGSIPAddress, VolumeContextInternalDynamicallyCreated,
         VolumeContextResourceGroupName, VolumeContextSubDir}" by blast
  then show ?case
    by cases (auto simp: kv Cons.IH createVolumeID_case_simps bad_subDir_def ci_last_key simp del: ci_last.simps)
qed

text \<open>The identifier as a function of the map, without its loop.\<close>

lemma createVolumeIDFromParams_eq:
  "createVolumeIDFromParams volName m =
     (if bad_subDir m
      then Inl (StatusError InvalidArgument ''CreateVolume Parameter sub-dir must not be empty if provided'')
      else Inr (volumeID_format volName DefaultLustreFsName (ci_value VolumeContextMGSIPAddress m)
        (trim_byte (CHR ''/'') (ci_value VolumeContextSubDir m))
        (ci_value VolumeContextInternalDynamicallyCreated m)
        (ci_value VolumeContextResourceGroupName m)))"
  by (simp add: createVolumeIDFromParams_def createVolumeID_loop ci_value_def upd_opt_def
      trim_byte_def split: option.splits)

lemma newLustreVolume_loop:
  "range_loop newLustreVolume_case m st =
     (if bad_subDir m
      then Inl (StatusError InvalidArgument ''Context sub-dir must not be empty or root if provided'')
      else Inr \<lparr>vv_mgs = upd_opt (ci_last VolumeContextMGSIPAddress m) (vv_mgs st),
        vv_subDir = upd_opt (map_option (trim_byte (CHR ''/'')) (ci_last VolumeContextSubDir m)) (vv_subDir st),
        vv_dyn = (vv_dyn st \<or> list_ex (\<lambda>(k, v). to_lower k = VolumeContextInternalDynamicallyCreated \<and> v = ''t'') m),
        vv_rg = upd_opt (ci_last VolumeContextResourceGroupName m) (vv_rg st)\<rparr>)"
proof (induction m arbitrary: st)
  case Nil
  then show ?case by (simp add: bad_subDir_def)
next
  case (Cons kv m)
  obtain k v where kv: "kv = (k, v)" by (cases kv) auto
  consider "to_lower k = VolumeContextMGSIPAddress" | "to_lower k = VolumeContextInternalDynamicallyCreated"
    | "to_lower k = VolumeContextResourceGroupName" | "to_lower k = VolumeContextSubDir"
    | "to_lower k \<notin> {VolumeContextMGSIPAddress, VolumeContextInternalDynamicallyCreated,
         VolumeContextResourceGroupName, VolumeContextSubDir}" by blast
  then show ?case
    by cases (auto simp: kv Cons.IH newLustreVolume_case_simps bad_subDir_def ci_last_key simp del: ci_last.simps)
qed

lemma dyn_flag_value:
  assumes "lc_ok m"
  shows "list_ex (\<lambda>(k, v). to_lower k = key \<and> v = ''t'') m \<longleftrightarrow> ci_value key m = ''t''"
proof (cases "ci_last key m")
  case None
  then have "ci_value key m = ''''" by (simp add: ci_value_def)
  then show ?thesis using None by (auto simp: ci_last_None list_ex_iff)
next
  case (Some v)
  then obtain k where k: "(k, v) \<in> set m" "to_lower k = key" using ci_last_mem by blast
  have "list_ex (\<lambda>(k, v). to_lower k = key \<and> v = ''t'') m \<longleftrightarrow> v = ''t''"
  proof
    assume "list_ex (\<lambda>(k, v). to_lower k = key \<and> v = ''t'') m"
    then obtain k' where "(k', ''t'') \<in> set m" "to_lower k' = key" by (auto simp: list_ex_iff)
    then show "v = ''t''" using ci_last_unique [OF assms] Some by fastforce
  next
    assume "v = ''t''"
    then show "list_ex (\<lambda>(k, v). to_lower k = key \<and> v = ''t'') m"
      using k by (auto simp: list_ex_iff)
  qed
  then show ?thesis using Some by (simp add: ci_value_def)
qed

lemma newLustreVolume_eq:
  assumes "lc_ok m"
  shows "newLustreVolume volumeID volName m =
     (if bad_subDir m
      then Inl (StatusError InvalidArgument ''Context sub-dir must not be empty or root if provided'')
      else if ci_value VolumeContextMGSIPAddress m = ''''
      then Inl (StatusError InvalidArgument ''Context mgs-ip-address must be provided'')
      else Inr \<lparr>vol_name = volName, vol_id = volumeID,
        mgsIPAddress = ci_value VolumeContextMGSIPAddress m, azureLustreName = DefaultLustreFsName,
        subDir = trim_byte (CHR ''/'') (ci_value VolumeContextSubDir m),
        createdByDynamicProvisioning = (ci_value VolumeContextInternalDynamicallyCreated m = ''t''),
        resourceGroupName = ci_value VolumeContextResourceGroupName m\<rparr>)"
  using dyn_flag_value [OF assms, of VolumeContextInternalDynamicallyCreated]
  by (simp add: newLustreVolume_def newLustreVolume_loop ci_value_def upd_opt_def
      trim_byte_def split: option.splits)

subsection \<open>Reading an identifier back\<close>

lemma split_volumeID:
  assumes "separator \<notin> set a" "separator \<notin> set b" "separator \<notin> set c" "separator \<notin> set d"
    "separator \<notin> set e"
  shows "split separator (volumeID_format a b c d e f) = a # b # c # d # e # split separator f"
  using assms by (simp add: volumeID_format_def split_append_sep)

lemma getLustreVolFromID_format:
  assumes "separator \<notin> set a" "separator \<notin> set b" "separator \<notin> set c" "separator \<notin> set d"
    "separator \<notin> set e" "separator \<notin> set f"
  shows "getLustreVolFromID (volumeID_format a b c d e f) =
    Inr \<lparr>vol_name = a, vol_id = volumeID_format a b c d e f, mgsIPAddress = c,
      azureLustreName = DefaultLustreFsName, subDir = trim_byte (CHR ''/'') d,
      createdByDynamicProvisioning = (e = ''t''), resourceGroupName = f\<rparr>"
  using assms by (simp add: getLustreVolFromID_def split_volumeID split_plain)

lemma ci_value_set: "set (ci_value key m) \<subseteq> (\<Union>(k, v)\<in>set m. set v)"
proof (cases "ci_last key m")
  case (Some v)
  then obtain k where "(k, v) \<in> set m" using ci_last_mem by blast
  then show ?thesis using Some by (auto simp: ci_value_def)
qed (simp add: ci_value_def)

subsection \<open>Properties\<close>

text \<open>
  C1. The identifier round trip: whatever order the controller visits the parameters in, reading
  the identifier back and reading the volume context on a node (in any order) give the same
  volume, the one the parameters describe, provided that neither the name nor the four parameters
  that enter the identifier contain the separator.
\<close>

theorem volume_id_roundtrip:
  assumes created: "createVolumeIDFromParams volName m = Inr vid"
    and keys: "lc_ok m"
    and mgs: "ci_value VolumeContextMGSIPAddress m \<noteq> ''''"
    and name: "separator \<notin> set volName"
    and vals: "\<forall>key \<in> {VolumeContextMGSIPAddress, VolumeContextSubDir,
        VolumeContextInternalDynamicallyCreated, VolumeContextResourceGroupName}.
        separator \<notin> set (ci_value key m)"
  shows "\<exists>vol. getLustreVolFromID vid = Inr vol
    \<and> (\<forall>m'. same_map m m' \<longrightarrow> getVolume vid m' = Inr vol)
    \<and> vol = \<lparr>vol_name = volName, vol_id = vid, mgsIPAddress = ci_value VolumeContextMGSIPAddress m,
        azureLustreName = DefaultLustreFsName,
        subDir = trim_byte (CHR ''/'') (ci_value VolumeContextSubDir m),
        createdByDynamicProvisioning = (ci_value VolumeContextInternalDynamicallyCreated m = ''t''),
        resourceGroupName = ci_value VolumeContextResourceGroupName m\<rparr>"
proof -
  let ?sub = "trim_byte (CHR ''/'') (ci_value VolumeContextSubDir m)"
  have ok: "\<not> bad_subDir m" and vid: "vid = volumeID_format volName DefaultLustreFsName
      (ci_value VolumeContextMGSIPAddress m) ?sub (ci_value VolumeContextInternalDynamicallyCreated m)
      (ci_value VolumeContextResourceGroupName m)"
    using created by (simp_all add: createVolumeIDFromParams_eq split: if_splits)
  have sub: "separator \<notin> set ?sub" using vals trim_byte_set by fastforce
  have read: "getLustreVolFromID vid = Inr \<lparr>vol_name = volName, vol_id = vid,
      mgsIPAddress = ci_value VolumeContextMGSIPAddress m, azureLustreName = DefaultLustreFsName,
      subDir = ?sub,
      createdByDynamicProvisioning = (ci_value VolumeContextInternalDynamicallyCreated m = ''t''),
      resourceGroupName = ci_value VolumeContextResourceGroupName m\<rparr>"
    unfolding vid using name vals sub by (subst getLustreVolFromID_format) auto
  moreover have "getVolume vid m' = getLustreVolFromID vid" if "same_map m m'" for m'
  proof -
    have "lc_ok m'" using that keys by (simp add: lc_ok_def same_map_distinct)
    then have "newLustreVolume vid volName m' = getLustreVolFromID vid"
      using ok mgs bad_subDir_same_map [OF that] ci_value_same_map [OF keys that] read
      by (simp add: newLustreVolume_eq)
    then show ?thesis using read by (simp add: getVolume_def)
  qed
  ultimately show ?thesis by simp
qed

definition example_params :: gomap where
  "example_params = [(''MGS-IP-Address'', ''10.0.0.4''), (''sub-dir'', ''/data/a/''),
     (''created-by-dynamic-provisioning'', ''t''), (''resource-group-name'', ''rg'')]"

theorem volume_id_roundtrip_witness:
  "getLustreVolFromID ''pvc-1#lustrefs#10.0.0.4#data/a#t#rg'' =
     getVolume ''pvc-1#lustrefs#10.0.0.4#data/a#t#rg'' (rev example_params)
   \<and> (\<exists>vol. getLustreVolFromID ''pvc-1#lustrefs#10.0.0.4#data/a#t#rg'' = Inr vol
       \<and> subDir vol = ''data/a'' \<and> createdByDynamicProvisioning vol)"
proof -
  have 1: "createVolumeIDFromParams ''pvc-1'' example_params = Inr ''pvc-1#lustrefs#10.0.0.4#data/a#t#rg''"
    by code_simp
  have 2: "lc_ok example_params" by code_simp
  have 3: "ci_value VolumeContextMGSIPAddress example_params \<noteq> ''''" by code_simp
  have 4: "separator \<notin> set ''pvc-1''" by simp
  have 5: "\<forall>key \<in> {VolumeContextMGSIPAddress, VolumeContextSubDir,
        VolumeContextInternalDynamicallyCreated, VolumeContextResourceGroupName}.
        separator \<notin> set (ci_value key example_params)" by code_simp
  have 6: "trim_byte (CHR ''/'') (ci_value VolumeContextSubDir example_params) = ''data/a''"
    "ci_value VolumeContextInternalDynamicallyCreated example_params = ''t''" by code_simp+
  have "same_map example_params (rev example_params)" by (simp add: same_map_def)
  then show ?thesis using volume_id_roundtrip [OF 1 2 3 4 5] 6 by auto
qed

text \<open>
  The identifier and the volume read from a context do not depend on the order in which Go
  visits the map, as long as no two keys are equal in lower case.
\<close>

theorem volume_id_order_independent:
  assumes "lc_ok m" "same_map m m'"
  shows "createVolumeIDFromParams volName m' = createVolumeIDFromParams volName m
    \<and> newLustreVolume vid volName m' = newLustreVolume vid volName m"
proof -
  have "lc_ok m'" using assms by (simp add: lc_ok_def same_map_distinct)
  then show ?thesis
    using assms(1) bad_subDir_same_map [OF assms(2)] ci_value_same_map [OF assms]
    by (simp add: createVolumeIDFromParams_eq newLustreVolume_eq)
qed

theorem volume_id_order_independent_witness:
  "createVolumeIDFromParams ''pvc-1'' (rev example_params) = createVolumeIDFromParams ''pvc-1'' example_params"
proof -
  have "lc_ok example_params" by code_simp
  moreover have "same_map example_params (rev example_params)" by (simp add: same_map_def)
  ultimately show ?thesis using volume_id_order_independent by blast
qed

text \<open>
  Without that condition it does: a map may hold two spellings of one key, and the order of
  the visit then decides which server address enters the identifier.
\<close>

theorem volume_id_order_dependent:
  "\<exists>m m'. go_map_ok m \<and> same_map m m'
     \<and> createVolumeIDFromParams ''v'' m = Inr ''v#lustrefs#10.0.0.1###''
     \<and> createVolumeIDFromParams ''v'' m' = Inr ''v#lustrefs#10.0.0.2###''"
proof -
  let ?m = "[(''mgs-ip-address'', ''10.0.0.2''), (''MGS-IP-ADDRESS'', ''10.0.0.1'')]"
  have "go_map_ok ?m" "same_map ?m (rev ?m)" by (simp_all add: go_map_ok_def same_map_def)
  moreover have "createVolumeIDFromParams ''v'' ?m = Inr ''v#lustrefs#10.0.0.1###''" by code_simp
  moreover have "createVolumeIDFromParams ''v'' (rev ?m) = Inr ''v#lustrefs#10.0.0.2###''" by code_simp
  ultimately show ?thesis by blast
qed

end
