(* ===== verification/Dynamic_Provisioning.thy ===== *)
theory Dynamic_Provisioning
  imports Util Complex_Main
begin

text \<open>
  \<open>pkg/azurelustre/dynamic_provisioning.go\<close>: creating, deleting and sizing Azure Managed Lustre
  clusters, with the structs of \<open>controllerserver.go\<close> and \<open>azurelustre.go\<close> it works on.

  The Azure SDK is not part of the repository's own code, so each client is a parameter: a record
  of functions that answer a call from the history of all Azure calls made before it. Quantifying
  over a client therefore ranges over every behaviour of the service, including one that changes
  between two calls. Every operation returns its result together with the extended history, so
  theorems can say which requests were sent and in which order. A nil client or a nil pointer
  field of a response is \<open>None\<close>; reading a nil field is a panic.
\<close>

subsection \<open>Data\<close>

record SubnetProperties =
  SubnetID :: string
  VnetName :: string
  VnetResourceGroup :: string
  SubnetName :: string

text \<open>
  \<open>StorageCapacityTiB\<close> is a float32; its values are rationals here. \<open>Identities\<close> is a slice,
  nil when the parameter was not given.
\<close>

record AmlFilesystemProperties =
  ResourceGroupName :: string
  AmlFilesystemName :: string
  Location :: string
  Tags :: gomap
  Identities :: "string list option"
  SubnetInfo :: SubnetProperties
  MaintenanceDayOfWeek :: string
  TimeOfDayUTC :: string
  StorageCapacityTiB :: rat
  SKUName :: string
  Zone :: string

record LustreSkuValue =
  IncrementInTib :: int64
  MaximumInTib :: int64
  AvailableZones :: "string list"

datatype ClusterState = ClusterStateExists | ClusterStateNotFound | ClusterStateDeleting
  | ClusterStateFailed

abbreviation AmlfsSkuResourceType :: string where "AmlfsSkuResourceType \<equiv> ''amlFilesystems''"
abbreviation AmlfsSkuCapacityIncrementName :: string where "AmlfsSkuCapacityIncrementName \<equiv> ''OSS capacity increment (TiB)''"
abbreviation AmlfsSkuCapacityMaximumName :: string where "AmlfsSkuCapacityMaximumName \<equiv> ''default maximum capacity (TiB)''"

subsection \<open>The Azure clients\<close>

text \<open>The request body of a create or update: \<open>armstoragecache.AmlFilesystem\<close>.\<close>

record amlFilesystem =
  fs_Location :: string
  fs_Tags :: gomap
  fs_FilesystemSubnet :: string
  fs_DayOfWeek :: string
  fs_TimeOfDayUTC :: string
  fs_StorageCapacityTiB :: rat
  fs_SKU :: string
  fs_Zones :: "string list"
  fs_Identity :: "string list option"

datatype az_call =
    AmlGet string string
  | AmlBeginDelete string string
  | AmlPollDelete string string
  | AmlBeginCreateOrUpdate string string amlFilesystem
  | AmlPollCreate string string
  | SkusNextPage
  | RequiredSubnetsSize string rat
  | VnetUsageNextPage string string

type_synonym az_history = "az_call list"

text \<open>\<open>Get\<close> returns the provisioning state, if the response has one; a finished create the MGS address.\<close>

record AmlFilesystemsClient =
  cl_Get :: "az_history \<Rightarrow> string \<Rightarrow> string \<Rightarrow> string option result"
  cl_BeginDelete :: "az_history \<Rightarrow> string \<Rightarrow> string \<Rightarrow> go_error option"
  cl_PollDelete :: "az_history \<Rightarrow> string \<Rightarrow> string \<Rightarrow> go_error option"
  cl_BeginCreateOrUpdate :: "az_history \<Rightarrow> string \<Rightarrow> string \<Rightarrow> amlFilesystem \<Rightarrow> go_error option"
  cl_PollCreate :: "az_history \<Rightarrow> string \<Rightarrow> string \<Rightarrow> string option result"

record skuCapability =
  cap_Name :: "string option"
  cap_Value :: "string option"

record skuLocationInfo =
  li_Location :: "string option"
  li_Zones :: "string option list option"

record ResourceSKU =
  sku_Name :: "string option"
  sku_ResourceType :: "string option"
  sku_Locations :: "string option list"
  sku_LocationInfo :: "skuLocationInfo list"
  sku_Capabilities :: "skuCapability list"

text \<open>A pager is the list of the results its \<open>NextPage\<close> calls give; \<open>More\<close> is non-emptiness.\<close>

record SKUsClient =
  cl_SkuPages :: "az_history \<Rightarrow> ResourceSKU list result list"

record ManagementClient =
  cl_SubnetsSize :: "az_history \<Rightarrow> string \<Rightarrow> rat \<Rightarrow> 32 word option result"

record vnetUsage =
  u_ID :: "string option"
  u_CurrentValue :: "rat option"
  u_Limit :: "rat option"

record VirtualNetworksClient =
  cl_UsagePages :: "az_history \<Rightarrow> string \<Rightarrow> string \<Rightarrow> vnetUsage list result list"

record DynamicProvisioner =
  amlFilesystemsClient :: "AmlFilesystemsClient option"
  mgmtClient :: "ManagementClient option"
  skusClient :: "SKUsClient option"
  vnetClient :: "VirtualNetworksClient option"

subsection \<open>Errors\<close>

definition http_grpc_code :: "int \<Rightarrow> string \<Rightarrow> code" where
  "http_grpc_code statusCode errText =
     (if 400 \<le> statusCode \<and> statusCode < 500 then
        (if statusCode = 400 then InvalidArgument
         else if statusCode = 409 then
           (if contains errText ''Operation results in exceeding quota limits of resource type AmlFilesystem''
            then ResourceExhausted else InvalidArgument)
         else if statusCode = 404 then NotFound
         else if statusCode = 403 then PermissionDenied
         else if statusCode = 401 then Unauthenticated
         else if statusCode = 429 then Unavailable
         else InvalidArgument)
      else if 500 \<le> statusCode then
        (if statusCode = 500 then Internal
         else if statusCode = 502 then Unavailable
         else if statusCode = 503 then Unavailable
         else if statusCode = 504 then DeadlineExceeded
         else Unknown)
      else Unknown)"

fun convertHTTPResponseErrorToGrpcCodeError :: "go_error \<Rightarrow> go_error" where
  "convertHTTPResponseErrorToGrpcCodeError (StatusError c m) = StatusError c m"
| "convertHTTPResponseErrorToGrpcCodeError (CtxDeadlineExceeded t) = StatusError DeadlineExceeded t"
| "convertHTTPResponseErrorToGrpcCodeError (ResponseError h t) =
     (if StatusCode h < 400 \<and>
         (contains (ErrorCode h) ''Error'' \<or> contains (ErrorCode h) ''Timeout'' \<or> contains (ErrorCode h) ''Fail'')
      then StatusError DeadlineExceeded (ErrorCode h @ '': '' @ HttpText h)
      else StatusError (http_grpc_code (StatusCode h) t) (''error occurred calling API: '' @ HttpText h))"
| "convertHTTPResponseErrorToGrpcCodeError (OsError k t) =
     StatusError Unknown (''error occurred calling API: '' @ t)"
| "convertHTTPResponseErrorToGrpcCodeError (PlainError t) =
     StatusError Unknown (''error occurred calling API: '' @ t)"
| "convertHTTPResponseErrorToGrpcCodeError (Panic t) = Panic t"

abbreviation "convert_err \<equiv> convertHTTPResponseErrorToGrpcCodeError"

subsection \<open>Cluster state and deletion\<close>

definition currentClusterState ::
    "DynamicProvisioner \<Rightarrow> string \<Rightarrow> string \<Rightarrow> az_history \<Rightarrow> ClusterState result \<times> az_history" where
  "currentClusterState d rg name h =
     (case amlFilesystemsClient d of
        None \<Rightarrow> (Inl (StatusError Internal ''aml filesystem client is nil''), h)
      | Some cl \<Rightarrow>
          (let h' = h @ [AmlGet rg name] in
           case cl_Get cl h rg name of
             Inl err \<Rightarrow>
               (if contains (error_text err) ''ResourceNotFound'' then (Inr ClusterStateNotFound, h')
                else (Inl (convert_err err), h'))
           | Inr st \<Rightarrow>
               (if st = Some ''Deleting'' then (Inr ClusterStateDeleting, h')
                else if st = Some ''Failed'' then (Inr ClusterStateFailed, h')
                else (Inr ClusterStateExists, h'))))"

definition DeleteAmlFilesystem ::
    "DynamicProvisioner \<Rightarrow> string \<Rightarrow> string \<Rightarrow> az_history \<Rightarrow> go_error option \<times> az_history" where
  "DeleteAmlFilesystem d rg name h =
     (case amlFilesystemsClient d of
        None \<Rightarrow> (Some (StatusError Internal ''aml filesystem client is nil''), h)
      | Some cl \<Rightarrow>
          (let h1 = h @ [AmlBeginDelete rg name] in
           case cl_BeginDelete cl h rg name of
             Some err \<Rightarrow> (Some (convert_err err), h1)
           | None \<Rightarrow>
               (let h2 = h1 @ [AmlPollDelete rg name] in
                case cl_PollDelete cl h1 rg name of
                  Some err \<Rightarrow> (Some (convert_err err), h2)
                | None \<Rightarrow> (None, h2))))"

definition tryDeleteBeforeRetry ::
    "DynamicProvisioner \<Rightarrow> AmlFilesystemProperties \<Rightarrow> az_history \<Rightarrow> go_error \<times> az_history" where
  "tryDeleteBeforeRetry d p h =
     (case DeleteAmlFilesystem d (ResourceGroupName p) (AmlFilesystemName p) h of
        (Some err, h') \<Rightarrow> (convert_err err, h')
      | (None, h') \<Rightarrow>
          (StatusError Aborted (''AMLFS cluster '' @ AmlFilesystemName p @
             '' creation timed out. Deleted failed cluster, retrying cluster creation''), h'))"

definition checkErrorForRetry ::
    "DynamicProvisioner \<Rightarrow> go_error \<Rightarrow> AmlFilesystemProperties \<Rightarrow> az_history \<Rightarrow> bool result \<times> az_history" where
  "checkErrorForRetry d err0 p h =
     (let err = convert_err err0; errCode = status_code err in
      if errCode = DeadlineExceeded \<and> contains (error_text err) ''Timeout'' then (Inr True, h)
      else if errCode = DeadlineExceeded \<and>
              (contains (error_text err) ''Error'' \<or> contains (error_text err) ''Fail'') then
        (case currentClusterState d (ResourceGroupName p) (AmlFilesystemName p) h of
           (Inl e, h') \<Rightarrow> (Inl e, h')
         | (Inr st, h') \<Rightarrow> (Inr (st = ClusterStateFailed), h'))
      else (Inr False, h))"

subsection \<open>SKUs of a location\<close>

abbreviation nil_read :: "'a result" where
  "nil_read \<equiv> Inl (Panic ''nil pointer dereference'')"

definition keep_amlfs_sku :: "ResourceSKU \<Rightarrow> ResourceSKU list \<Rightarrow> ResourceSKU list result" where
  "keep_amlfs_sku sku acc =
     (case sku_ResourceType sku of
        None \<Rightarrow> nil_read
      | Some t \<Rightarrow> Inr (if t = AmlfsSkuResourceType then acc @ [sku] else acc))"

text \<open>The loop over the pages; \<open>NextPage\<close> is called until a page fails or none is left.\<close>

fun list_skus ::
    "ResourceSKU list result list \<Rightarrow> ResourceSKU list \<Rightarrow> az_history \<Rightarrow> ResourceSKU list result \<times> az_history" where
  "list_skus [] acc h = (Inr acc, h)"
| "list_skus (page # pages) acc h =
     (case page of
        Inl err \<Rightarrow> (Inl (StatusError Internal (''error retrieving SKUs: '' @ error_text err)), h @ [SkusNextPage])
      | Inr skus \<Rightarrow>
          (case range_loop keep_amlfs_sku skus acc of
             Inl e \<Rightarrow> (Inl e, h @ [SkusNextPage])
           | Inr acc' \<Rightarrow> list_skus pages acc' (h @ [SkusNextPage])))"

definition keep_location ::
    "string \<Rightarrow> ResourceSKU \<Rightarrow> string option \<Rightarrow> ResourceSKU list \<Rightarrow> ResourceSKU list result" where
  "keep_location location sku loc acc =
     (case loc of
        None \<Rightarrow> nil_read
      | Some l \<Rightarrow> Inr (if equal_fold l location then acc @ [sku] else acc))"

definition skus_for_location :: "string \<Rightarrow> ResourceSKU list \<Rightarrow> ResourceSKU list result" where
  "skus_for_location location skus =
     range_loop (\<lambda>sku. range_loop (keep_location location sku) (sku_Locations sku)) skus []"

text \<open>The zones of a SKU in a location, and whether its location info was found.\<close>

definition sku_zones :: "string \<Rightarrow> ResourceSKU \<Rightarrow> (string list \<times> bool) result" where
  "sku_zones location sku =
     range_loop (\<lambda>info (zones, found).
        case li_Location info of
          None \<Rightarrow> Inr (zones, found)
        | Some l \<Rightarrow>
            if equal_fold l location then
              (case li_Zones info of
                 Some zs \<Rightarrow> Inr (zones @ filter (\<lambda>z. z \<noteq> '''') (List.map_filter (\<lambda>z. z) zs), True)
               | None \<Rightarrow> (if sku_Name sku = None then nil_read else Inr (zones, found)))
            else Inr (zones, found))
     (sku_LocationInfo sku) ([], False)"

text \<open>The increment and the maximum among the capabilities; an unreadable value is skipped.\<close>

definition read_capability :: "skuCapability \<Rightarrow> int64 \<times> int64 \<Rightarrow> (int64 \<times> int64) result" where
  "read_capability cap vals =
     (case cap_Name cap of
        None \<Rightarrow> nil_read
      | Some n \<Rightarrow>
          if n = AmlfsSkuCapacityIncrementName then
            (case cap_Value cap of
               None \<Rightarrow> nil_read
             | Some v \<Rightarrow> Inr (case parse_int64 v of None \<Rightarrow> vals | Some x \<Rightarrow> (x, snd vals)))
          else if n = AmlfsSkuCapacityMaximumName then
            (case cap_Value cap of
               None \<Rightarrow> nil_read
             | Some v \<Rightarrow> Inr (case parse_int64 v of None \<Rightarrow> vals | Some x \<Rightarrow> (fst vals, x)))
          else Inr vals)"

definition sku_capacity :: "skuCapability list \<Rightarrow> (int64 \<times> int64) result" where
  "sku_capacity caps = range_loop read_capability caps (0, 0)"

type_synonym sku_map = "(string \<times> LustreSkuValue) list"

definition sku_value :: "string \<Rightarrow> ResourceSKU \<Rightarrow> sku_map \<Rightarrow> sku_map result" where
  "sku_value location sku m =
     (case sku_zones location sku of
        Inl e \<Rightarrow> Inl e
      | Inr (zones, found) \<Rightarrow>
          if \<not> found then
            (case sku_Name sku of
               None \<Rightarrow> nil_read
             | Some n \<Rightarrow> Inl (StatusError Internal
                 (''could not find location info for sku '' @ n @ '' in location '' @ location)))
          else
            (case sku_capacity (sku_Capabilities sku) of
               Inl e \<Rightarrow> Inl e
             | Inr (inc, mx) \<Rightarrow>
                 if inc \<noteq> 0 \<and> mx \<noteq> 0 then
                   (case sku_Name sku of
                      None \<Rightarrow> nil_read
                    | Some n \<Rightarrow> Inr (AList.update n
                        \<lparr>IncrementInTib = inc, MaximumInTib = mx, AvailableZones = sort zones\<rparr> m))
                 else Inr m))"

definition no_skus :: "string \<Rightarrow> 'a result" where
  "no_skus location = Inl (StatusError Internal (''found no AMLFS SKUs for location '' @ location))"

definition GetSkuValuesForLocation ::
    "DynamicProvisioner \<Rightarrow> string \<Rightarrow> az_history \<Rightarrow> sku_map result \<times> az_history" where
  "GetSkuValuesForLocation d location h =
     (case skusClient d of
        None \<Rightarrow> (Inl (StatusError Internal ''skus client is nil''), h)
      | Some cl \<Rightarrow>
          (case list_skus (cl_SkuPages cl h) [] h of
             (Inl e, h') \<Rightarrow> (Inl e, h')
           | (Inr amlfsSkus, h') \<Rightarrow>
               ((if amlfsSkus = [] then no_skus location
                 else case skus_for_location location amlfsSkus of
                   Inl e \<Rightarrow> Inl e
                 | Inr skusForLocation \<Rightarrow>
                     if skusForLocation = [] then no_skus location
                     else case range_loop (sku_value location) skusForLocation [] of
                       Inl e \<Rightarrow> Inl e
                     | Inr skuValues \<Rightarrow>
                         if skuValues = [] then no_skus location else Inr skuValues), h')))"

subsection \<open>Subnet capacity\<close>

definition getAmlfsSubnetSize ::
    "DynamicProvisioner \<Rightarrow> string \<Rightarrow> rat \<Rightarrow> az_history \<Rightarrow> int64 result \<times> az_history" where
  "getAmlfsSubnetSize d sku clusterSize h =
     (case mgmtClient d of
        None \<Rightarrow> (Inl (StatusError Internal ''storage management client is nil''), h)
      | Some cl \<Rightarrow>
          (let h' = h @ [RequiredSubnetsSize sku clusterSize] in
           case cl_SubnetsSize cl h sku clusterSize of
             Inl err \<Rightarrow> (Inl (convert_err err), h')
           | Inr None \<Rightarrow> (Inl (StatusError Internal
               ''received nil FilesystemSubnetSize from storage management client''), h')
           | Inr (Some n) \<Rightarrow> (Inr (scast n), h')))"

text \<open>\<open>int(f)\<close> of a float64 drops the fraction.\<close>

definition go_int :: "rat \<Rightarrow> int64" where
  "go_int r = word_of_int (if r < 0 then \<lceil>r\<rceil> else \<lfloor>r\<rfloor>)"

text \<open>The loop over the usages of a page: the first usage of the subnet ends the call.\<close>

fun find_usage :: "string \<Rightarrow> vnetUsage list \<Rightarrow> int64 option result" where
  "find_usage subnetID [] = Inr None"
| "find_usage subnetID (u # us) =
     (case u_ID u of
        None \<Rightarrow> nil_read
      | Some i \<Rightarrow>
          if i = subnetID then
            (case (u_CurrentValue u, u_Limit u) of
               (Some used, Some limit) \<Rightarrow> Inr (Some (go_int limit - go_int used))
             | _ \<Rightarrow> nil_read)
          else find_usage subnetID us)"

fun usage_pages ::
    "string \<Rightarrow> string \<Rightarrow> string \<Rightarrow> vnetUsage list result list \<Rightarrow> az_history \<Rightarrow> int64 result \<times> az_history" where
  "usage_pages rg vnet subnetID [] h =
     (Inl (StatusError FailedPrecondition (''subnet '' @ subnetID @ '' not found in vnet '' @ vnet @
        '', resource group '' @ rg @ ''. Ensure permissions are correct for configuration.'')), h)"
| "usage_pages rg vnet subnetID (page # pages) h =
     (let h' = h @ [VnetUsageNextPage rg vnet] in
      case page of
        Inl err \<Rightarrow> (Inl (convert_err err), h')
      | Inr us \<Rightarrow>
          (case find_usage subnetID us of
             Inl e \<Rightarrow> (Inl e, h')
           | Inr (Some n) \<Rightarrow> (Inr n, h')
           | Inr None \<Rightarrow> usage_pages rg vnet subnetID pages h'))"

definition checkSubnetAddresses ::
    "DynamicProvisioner \<Rightarrow> string \<Rightarrow> string \<Rightarrow> string \<Rightarrow> az_history \<Rightarrow> int64 result \<times> az_history" where
  "checkSubnetAddresses d rg vnet subnetID h =
     (case vnetClient d of
        None \<Rightarrow> (Inl (StatusError Internal ''vnet client is nil''), h)
      | Some cl \<Rightarrow> usage_pages rg vnet subnetID (cl_UsagePages cl h rg vnet) h)"

definition CheckSubnetCapacity ::
    "DynamicProvisioner \<Rightarrow> SubnetProperties \<Rightarrow> string \<Rightarrow> rat \<Rightarrow> az_history \<Rightarrow> bool result \<times> az_history" where
  "CheckSubnetCapacity d subnet sku clusterSize h =
     (case getAmlfsSubnetSize d sku clusterSize h of
        (Inl err, h1) \<Rightarrow> (Inl (convert_err err), h1)
      | (Inr required, h1) \<Rightarrow>
          (case checkSubnetAddresses d (VnetResourceGroup subnet) (VnetName subnet) (SubnetID subnet) h1 of
             (Inl err, h2) \<Rightarrow> (Inl (convert_err err), h2)
           | (Inr available, h2) \<Rightarrow> (Inr (\<not> available <s required), h2)))"

subsection \<open>Creation\<close>

definition aml_request :: "AmlFilesystemProperties \<Rightarrow> amlFilesystem" where
  "aml_request p = \<lparr>fs_Location = Location p, fs_Tags = Tags p,
     fs_FilesystemSubnet = SubnetID (SubnetInfo p), fs_DayOfWeek = MaintenanceDayOfWeek p,
     fs_TimeOfDayUTC = TimeOfDayUTC p, fs_StorageCapacityTiB = StorageCapacityTiB p,
     fs_SKU = SKUName p, fs_Zones = (if Zone p \<noteq> '''' then [Zone p] else []),
     fs_Identity = map_option remdups (Identities p)\<rparr>"

definition subnet_complete :: "SubnetProperties \<Rightarrow> bool" where
  "subnet_complete s \<longleftrightarrow>
     \<not> (SubnetID s = '''' \<or> SubnetName s = '''' \<or> VnetName s = '''' \<or> VnetResourceGroup s = '''')"

text \<open>What follows a failed request or poll: the retry check, then a deletion or the error.\<close>

definition creation_failed ::
    "DynamicProvisioner \<Rightarrow> AmlFilesystemProperties \<Rightarrow> go_error \<Rightarrow> az_history \<Rightarrow> string result \<times> az_history" where
  "creation_failed d p err h =
     (case checkErrorForRetry d err p h of
        (Inl retryErr, h1) \<Rightarrow> (Inl (convert_err retryErr), h1)
      | (Inr True, h1) \<Rightarrow> (case tryDeleteBeforeRetry d p h1 of (e, h2) \<Rightarrow> (Inl e, h2))
      | (Inr False, h1) \<Rightarrow> (Inl (convert_err err), h1))"

text \<open>The request and the poll, once the cluster's state allows them.\<close>

definition request_cluster ::
    "DynamicProvisioner \<Rightarrow> AmlFilesystemsClient \<Rightarrow> AmlFilesystemProperties \<Rightarrow> az_history \<Rightarrow> string result \<times> az_history" where
  "request_cluster d cl p h =
     (let rg = ResourceGroupName p; name = AmlFilesystemName p;
          h1 = h @ [AmlBeginCreateOrUpdate rg name (aml_request p)] in
      case cl_BeginCreateOrUpdate cl h rg name (aml_request p) of
        Some err \<Rightarrow> creation_failed d p err h1
      | None \<Rightarrow>
          (let h2 = h1 @ [AmlPollCreate rg name] in
           case cl_PollCreate cl h1 rg name of
             Inl err \<Rightarrow> creation_failed d p err h2
           | Inr None \<Rightarrow> (nil_read, h2)
           | Inr (Some mgsAddress) \<Rightarrow> (Inr mgsAddress, h2)))"

definition CreateAmlFilesystem ::
    "DynamicProvisioner \<Rightarrow> AmlFilesystemProperties \<Rightarrow> az_history \<Rightarrow> string result \<times> az_history" where
  "CreateAmlFilesystem d p h =
     (case amlFilesystemsClient d of
        None \<Rightarrow> (Inl (StatusError Internal ''aml filesystem client is nil''), h)
      | Some cl \<Rightarrow>
          if \<not> subnet_complete (SubnetInfo p) then
            (Inl (StatusError InvalidArgument
               ''invalid subnet info, must have valid subnet ID, subnet name, vnet name, and vnet resource group''), h)
          else
            (case currentClusterState d (ResourceGroupName p) (AmlFilesystemName p) h of
               (Inl err, h1) \<Rightarrow> (Inl (convert_err err), h1)
             | (Inr ClusterStateNotFound, h1) \<Rightarrow>
                 (case CheckSubnetCapacity d (SubnetInfo p) (SKUName p) (StorageCapacityTiB p) h1 of
                    (Inl err, h2) \<Rightarrow> (Inl (convert_err err), h2)
                  | (Inr False, h2) \<Rightarrow>
                      (Inl (StatusError ResourceExhausted (''cannot create AMLFS cluster '' @ AmlFilesystemName p @
                         '' in subnet '' @ SubnetID (SubnetInfo p) @ '', not enough IP addresses available'')), h2)
                  | (Inr True, h2) \<Rightarrow> request_cluster d cl p h2)
             | (Inr ClusterStateDeleting, h1) \<Rightarrow>
                 (Inl (StatusError Aborted (''AMLFS cluster '' @ AmlFilesystemName p @
                    '' creation did not complete correctly, waiting for deletion to complete before retrying cluster creation'')), h1)
             | (Inr ClusterStateFailed, h1) \<Rightarrow> request_cluster d cl p h1
             | (Inr ClusterStateExists, h1) \<Rightarrow> request_cluster d cl p h1))"


subsection \<open>Errors of the provisioner\<close>

text \<open>What an operation may fail with: a gRPC status, or the panic of a nil read.\<close>

definition grpc_safe :: "go_error \<Rightarrow> bool" where
  "grpc_safe e \<longleftrightarrow> is_status e \<or> (\<exists>t. e = Panic t)"

lemma grpc_safe_simps [simp, err_simps]: "grpc_safe (StatusError c m)" "grpc_safe (Panic t)"
  by (auto simp: grpc_safe_def)

lemma grpc_safe_convert [simp, err_simps]: "grpc_safe (convert_err e)"
  by (cases e) auto

lemma convert_err_grpc_safe [simp]: "grpc_safe e \<Longrightarrow> convert_err e = e"
  by (cases e) (auto simp: grpc_safe_def)

lemma convert_err_idem [simp]: "convert_err (convert_err e) = convert_err e"
  by simp

text \<open>The only sources of the code that may lead to a deletion.\<close>

lemma convert_err_deadline:
  "status_code (convert_err e) = DeadlineExceeded \<longleftrightarrow>
     (case e of
        StatusError c m \<Rightarrow> c = DeadlineExceeded
      | CtxDeadlineExceeded t \<Rightarrow> True
      | ResponseError h t \<Rightarrow> StatusCode h = 504 \<or> StatusCode h < 400 \<and>
          (contains (ErrorCode h) ''Error'' \<or> contains (ErrorCode h) ''Timeout'' \<or> contains (ErrorCode h) ''Fail'')
      | _ \<Rightarrow> False)"
  by (cases e) (auto simp: http_grpc_code_def)

lemma DeleteAmlFilesystem_safe: "DeleteAmlFilesystem d rg n h = (Some e, h') \<Longrightarrow> grpc_safe e"
  by (auto simp: DeleteAmlFilesystem_def Let_def split: option.splits)

lemma currentClusterState_safe: "currentClusterState d rg n h = (Inl e, h') \<Longrightarrow> grpc_safe e"
  by (auto simp: currentClusterState_def Let_def split: option.splits sum.splits if_splits)

lemma tryDeleteBeforeRetry_safe: "tryDeleteBeforeRetry d p h = (e, h') \<Longrightarrow> grpc_safe e"
  by (auto simp: tryDeleteBeforeRetry_def split: prod.splits option.splits)

lemma creation_failed_safe: "creation_failed d p err h = (Inl e, h') \<Longrightarrow> grpc_safe e"
  by (auto simp: creation_failed_def split: prod.splits sum.splits bool.splits dest: tryDeleteBeforeRetry_safe)

lemma creation_failed_Inl: "\<exists>e h'. creation_failed d p err h = (Inl e, h')"
  by (auto simp: creation_failed_def split: prod.splits sum.splits bool.splits)

lemma request_cluster_safe: "request_cluster d cl p h = (Inl e, h') \<Longrightarrow> grpc_safe e"
  by (auto simp: request_cluster_def Let_def split: option.splits sum.splits dest: creation_failed_safe)

lemma CreateAmlFilesystem_safe: "CreateAmlFilesystem d p h = (Inl e, h') \<Longrightarrow> grpc_safe e"
  by (auto simp: CreateAmlFilesystem_def
      split: option.splits if_splits prod.splits sum.splits ClusterState.splits bool.splits
      dest: request_cluster_safe)

subsection \<open>The calls an operation makes\<close>

definition delete_traces :: "string \<Rightarrow> string \<Rightarrow> az_history set" where
  "delete_traces rg n = {[AmlBeginDelete rg n], [AmlBeginDelete rg n, AmlPollDelete rg n]}"

lemma DeleteAmlFilesystem_trace:
  assumes "DeleteAmlFilesystem d rg n h = (r, h')"
  shows "\<exists>cs. h' = h @ cs \<and> (cs \<in> delete_traces rg n \<or> cs = [] \<and> amlFilesystemsClient d = None)
    \<and> (r = None \<longrightarrow> cs = [AmlBeginDelete rg n, AmlPollDelete rg n])"
  using assms
  by (auto simp: DeleteAmlFilesystem_def delete_traces_def Let_def split: option.splits)

lemma currentClusterState_trace:
  "amlFilesystemsClient d = Some cl \<Longrightarrow> snd (currentClusterState d rg n h) = h @ [AmlGet rg n]"
  by (auto simp: currentClusterState_def Let_def split: option.splits sum.splits)

lemma list_skus_trace: "\<exists>k. snd (list_skus pages acc h) = h @ replicate k SkusNextPage \<and> k \<le> length pages"
proof (induction pages acc h rule: list_skus.induct)
  case (1 acc h)
  then show ?case by (auto intro: exI [of _ 0])
next
  case (2 page pages acc h)
  show ?case
  proof (cases "\<exists>skus acc'. page = Inr skus \<and> range_loop keep_amlfs_sku skus acc = Inr acc'")
    case True
    then obtain skus acc' where a: "page = Inr skus" "range_loop keep_amlfs_sku skus acc = Inr acc'" by blast
    obtain k where "snd (list_skus pages acc' (h @ [SkusNextPage])) = (h @ [SkusNextPage]) @ replicate k SkusNextPage"
      "k \<le> length pages"
      using 2 [OF a] by blast
    then show ?thesis using a by (intro exI [of _ "Suc k"]) simp
  next
    case False
    then have "snd (list_skus (page # pages) acc h) = h @ [SkusNextPage]" by (auto split: sum.splits)
    then show ?thesis by (intro exI [of _ 1]) simp
  qed
qed

lemma GetSkuValuesForLocation_trace:
  "GetSkuValuesForLocation d location h = (r, h') \<Longrightarrow> \<exists>k. h' = h @ replicate k SkusNextPage"
  using list_skus_trace [of "cl_SkuPages (the (skusClient d)) h" "[]" h]
  by (auto simp: GetSkuValuesForLocation_def split: option.splits prod.splits sum.splits
      intro: exI [of _ 0])

lemma usage_pages_trace:
  "\<exists>k. snd (usage_pages rg vnet sub pages h) = h @ replicate k (VnetUsageNextPage rg vnet)"
proof (induction rg vnet sub pages h rule: usage_pages.induct)
  case (1 rg vnet sub h)
  then show ?case by (auto intro: exI [of _ 0])
next
  case (2 rg vnet sub page pages h)
  show ?case
  proof (cases "\<exists>us. page = Inr us \<and> find_usage sub us = Inr None")
    case True
    then obtain us where us: "page = Inr us" "find_usage sub us = Inr None" by blast
    obtain k where "snd (usage_pages rg vnet sub pages (h @ [VnetUsageNextPage rg vnet])) =
        (h @ [VnetUsageNextPage rg vnet]) @ replicate k (VnetUsageNextPage rg vnet)"
      using 2 [OF refl us(1,2) refl] by blast
    then show ?thesis using us by (intro exI [of _ "Suc k"]) (simp add: Let_def)
  next
    case False
    then have "snd (usage_pages rg vnet sub (page # pages) h) = h @ [VnetUsageNextPage rg vnet]"
      by (auto simp: Let_def split: sum.splits option.splits)
    then show ?thesis by (intro exI [of _ 1]) simp
  qed
qed


lemma CheckSubnetCapacity_trace:
  assumes "CheckSubnetCapacity d s sku tib h = (r, h')"
  shows "\<exists>cs. h' = h @ cs \<and>
    set cs \<subseteq> {RequiredSubnetsSize sku tib, VnetUsageNextPage (VnetResourceGroup s) (VnetName s)}"
proof -
  have sized: "\<exists>cs. snd (getAmlfsSubnetSize d sku tib h) = h @ cs \<and> set cs \<subseteq> {RequiredSubnetsSize sku tib}"
    by (auto simp: getAmlfsSubnetSize_def Let_def split: option.splits sum.splits)
  have addr: "\<exists>cs. snd (checkSubnetAddresses d (VnetResourceGroup s) (VnetName s) (SubnetID s) h1) = h1 @ cs
      \<and> set cs \<subseteq> {VnetUsageNextPage (VnetResourceGroup s) (VnetName s)}" for h1
    using usage_pages_trace [of "VnetResourceGroup s" "VnetName s" "SubnetID s"
        "cl_UsagePages (the (vnetClient d)) h1 (VnetResourceGroup s) (VnetName s)" h1]
    by (fastforce simp: checkSubnetAddresses_def split: option.splits)
  show ?thesis
    using assms sized addr [of "snd (getAmlfsSubnetSize d sku tib h)"]
    by (auto simp: CheckSubnetCapacity_def split: prod.splits sum.splits)
qed

lemma CheckSubnetCapacity_Inr:
  assumes "CheckSubnetCapacity d s sku tib h = (Inr b, h')"
  shows "\<exists>needed h1 free. getAmlfsSubnetSize d sku tib h = (Inr needed, h1)
    \<and> checkSubnetAddresses d (VnetResourceGroup s) (VnetName s) (SubnetID s) h1 = (Inr free, h')
    \<and> (b \<longleftrightarrow> sint needed \<le> sint free)"
  using assms
  by (auto simp: CheckSubnetCapacity_def word_sless_alt split: prod.splits sum.splits)

text \<open>The calls after a failed request or poll: an optional look at the state, an optional deletion.\<close>

definition failure_traces :: "string \<Rightarrow> string \<Rightarrow> az_history set" where
  "failure_traces rg n = {g @ del | g del. g \<in> {[], [AmlGet rg n]} \<and> (del = [] \<or> del \<in> delete_traces rg n)}"

lemma failure_tracesI:
  "g \<in> {[], [AmlGet rg n]} \<Longrightarrow> del = [] \<or> del \<in> delete_traces rg n \<Longrightarrow> g @ del \<in> failure_traces rg n"
  unfolding failure_traces_def by blast

lemma failure_traces_Nil [simp]: "[] \<in> failure_traces rg n"
  using failure_tracesI [of "[]" rg n "[]"] by simp

lemma checkErrorForRetry_trace:
  assumes "checkErrorForRetry d err p h = (r, h')" "amlFilesystemsClient d = Some cl"
  shows "h' = h \<or> h' = h @ [AmlGet (ResourceGroupName p) (AmlFilesystemName p)]"
  using assms currentClusterState_trace [OF assms(2), of "ResourceGroupName p" "AmlFilesystemName p" h]
  by (auto simp: checkErrorForRetry_def Let_def split: if_splits prod.splits sum.splits)

lemma tryDeleteBeforeRetry_trace:
  assumes "tryDeleteBeforeRetry d p h = (e, h')" "amlFilesystemsClient d = Some cl"
  shows "\<exists>del \<in> delete_traces (ResourceGroupName p) (AmlFilesystemName p). h' = h @ del"
  using assms DeleteAmlFilesystem_trace [of d "ResourceGroupName p" "AmlFilesystemName p" h]
  by (fastforce simp: tryDeleteBeforeRetry_def split: prod.splits option.splits)

lemma creation_failed_trace:
  assumes "creation_failed d p err h = (r, h')" "amlFilesystemsClient d = Some cl"
  shows "\<exists>t \<in> failure_traces (ResourceGroupName p) (AmlFilesystemName p). h' = h @ t"
proof -
  obtain q h1 where q: "checkErrorForRetry d err p h = (q, h1)" by fastforce
  let ?g = "[AmlGet (ResourceGroupName p) (AmlFilesystemName p)]"
  obtain g where g: "h1 = h @ g" "g \<in> {[], ?g}"
    using checkErrorForRetry_trace [OF q assms(2)] by auto
  show ?thesis
  proof (cases "q = Inr True")
    case True
    then have "tryDeleteBeforeRetry d p h1 = (fst (tryDeleteBeforeRetry d p h1), h')"
      using assms(1) q by (auto simp: creation_failed_def split: prod.splits)
    from tryDeleteBeforeRetry_trace [OF this assms(2)] obtain del where
      "del \<in> delete_traces (ResourceGroupName p) (AmlFilesystemName p)" "h' = h1 @ del" by blast
    then show ?thesis using g by (intro bexI [of _ "g @ del"]) (auto intro!: failure_tracesI)
  next
    case False
    then have "h' = h1" using assms(1) q by (auto simp: creation_failed_def split: sum.splits bool.splits)
    then show ?thesis using g failure_tracesI [of g _ _ "[]"] by (intro bexI [of _ g]) auto
  qed
qed

text \<open>The calls of the request itself: the request, the poll and what a failure adds.\<close>

lemma request_cluster_trace:
  assumes "request_cluster d cl p h = (r, h')" "amlFilesystemsClient d = Some cl"
  shows "\<exists>poll fail. h' = h @ AmlBeginCreateOrUpdate (ResourceGroupName p) (AmlFilesystemName p) (aml_request p) # poll @ fail
    \<and> poll \<in> {[], [AmlPollCreate (ResourceGroupName p) (AmlFilesystemName p)]}
    \<and> fail \<in> failure_traces (ResourceGroupName p) (AmlFilesystemName p)
    \<and> (\<forall>mgs. r = Inr mgs \<longrightarrow> poll \<noteq> [] \<and> fail = [])"
proof -
  let ?rg = "ResourceGroupName p" and ?n = "AmlFilesystemName p"
  let ?b = "AmlBeginCreateOrUpdate ?rg ?n (aml_request p)"
  have bad: "\<exists>fail. h' = h @ ?b # poll @ fail \<and> fail \<in> failure_traces ?rg ?n \<and> (\<forall>mgs. r \<noteq> Inr mgs)"
    if "creation_failed d p err (h @ ?b # poll) = (r, h')" for err poll
  proof -
    from creation_failed_trace [OF that assms(2)]
    obtain t where "t \<in> failure_traces ?rg ?n" "h' = (h @ ?b # poll) @ t" by blast
    moreover have "\<forall>mgs. r \<noteq> Inr mgs" using creation_failed_Inl [of d p err "h @ ?b # poll"] that by auto
    ultimately show ?thesis by auto
  qed
  show ?thesis
  proof (cases "cl_BeginCreateOrUpdate cl h ?rg ?n (aml_request p)")
    case (Some err)
    then show ?thesis using bad [of err "[]"] assms(1) by (auto simp: request_cluster_def Let_def)
  next
    case begun: None
    show ?thesis
    proof (cases "cl_PollCreate cl (h @ [?b]) ?rg ?n")
      case (Inl err)
      then have "creation_failed d p err (h @ ?b # [AmlPollCreate ?rg ?n]) = (r, h')"
        using begun assms(1) by (simp add: request_cluster_def Let_def)
      from bad [OF this] obtain fail where "h' = h @ ?b # [AmlPollCreate ?rg ?n] @ fail"
        "fail \<in> failure_traces ?rg ?n" "\<forall>mgs. r \<noteq> Inr mgs" by blast
      then show ?thesis by (intro exI [of _ "[AmlPollCreate ?rg ?n]"] exI [of _ fail]) simp
    next
      case (Inr m)
      then have "h' = h @ ?b # [AmlPollCreate ?rg ?n] @ []"
        using begun assms(1) by (auto simp: request_cluster_def Let_def split: option.splits)
      then show ?thesis by (intro exI [of _ "[AmlPollCreate ?rg ?n]"] exI [of _ "[]"]) auto
    qed
  qed
qed


lemma request_cluster_Inr:
  assumes "request_cluster d cl p h = (Inr mgs, h')"
  shows "cl_BeginCreateOrUpdate cl h (ResourceGroupName p) (AmlFilesystemName p) (aml_request p) = None
    \<and> cl_PollCreate cl (h @ [AmlBeginCreateOrUpdate (ResourceGroupName p) (AmlFilesystemName p) (aml_request p)])
        (ResourceGroupName p) (AmlFilesystemName p) = Inr (Some mgs)"
proof -
  have "fst (creation_failed d p err h1) \<noteq> Inr mgs" for err h1
    using creation_failed_Inl [of d p err h1] by auto
  then show ?thesis using assms
    by (auto simp: request_cluster_def Let_def split: option.splits sum.splits dest: arg_cong [of _ _ fst])
qed

text \<open>
  The two ways into the request: a cluster that does not exist and fits into the subnet, or one
  that exists (failed or not) and is not being deleted.
\<close>

lemma CreateAmlFilesystem_cases:
  assumes "CreateAmlFilesystem d p h = (r, h')"
  obtains (rejected) "amlFilesystemsClient d = None \<or> \<not> subnet_complete (SubnetInfo p)" "h' = h" "\<exists>e. r = Inl e"
  | (stopped) cl cs where "amlFilesystemsClient d = Some cl" "subnet_complete (SubnetInfo p)"
      "h' = h @ AmlGet (ResourceGroupName p) (AmlFilesystemName p) # cs"
      "set cs \<subseteq> {RequiredSubnetsSize (SKUName p) (StorageCapacityTiB p),
         VnetUsageNextPage (VnetResourceGroup (SubnetInfo p)) (VnetName (SubnetInfo p))}" "\<exists>e. r = Inl e"
  | (create) cl cs h2 where "amlFilesystemsClient d = Some cl" "subnet_complete (SubnetInfo p)"
      "currentClusterState d (ResourceGroupName p) (AmlFilesystemName p) h =
         (Inr ClusterStateNotFound, h @ [AmlGet (ResourceGroupName p) (AmlFilesystemName p)])"
      "CheckSubnetCapacity d (SubnetInfo p) (SKUName p) (StorageCapacityTiB p)
         (h @ [AmlGet (ResourceGroupName p) (AmlFilesystemName p)]) = (Inr True, h2)"
      "h2 = h @ AmlGet (ResourceGroupName p) (AmlFilesystemName p) # cs"
      "set cs \<subseteq> {RequiredSubnetsSize (SKUName p) (StorageCapacityTiB p),
         VnetUsageNextPage (VnetResourceGroup (SubnetInfo p)) (VnetName (SubnetInfo p))}"
      "request_cluster d cl p h2 = (r, h')"
  | (update) cl st where "amlFilesystemsClient d = Some cl" "subnet_complete (SubnetInfo p)"
      "st \<in> {ClusterStateFailed, ClusterStateExists}"
      "currentClusterState d (ResourceGroupName p) (AmlFilesystemName p) h =
         (Inr st, h @ [AmlGet (ResourceGroupName p) (AmlFilesystemName p)])"
      "request_cluster d cl p (h @ [AmlGet (ResourceGroupName p) (AmlFilesystemName p)]) = (r, h')"
proof (cases "amlFilesystemsClient d = None \<or> \<not> subnet_complete (SubnetInfo p)")
  case True
  then show ?thesis using assms by (intro rejected) (auto simp: CreateAmlFilesystem_def split: option.splits)
next
  case False
  then obtain cl where cl: "amlFilesystemsClient d = Some cl" and sub: "subnet_complete (SubnetInfo p)" by auto
  let ?get = "AmlGet (ResourceGroupName p) (AmlFilesystemName p)"
  obtain st where st: "currentClusterState d (ResourceGroupName p) (AmlFilesystemName p) h = (st, h @ [?get])"
    using currentClusterState_trace [OF cl, of "ResourceGroupName p" "AmlFilesystemName p" h]
    by (metis prod.collapse)
  obtain q h2 where q: "CheckSubnetCapacity d (SubnetInfo p) (SKUName p) (StorageCapacityTiB p) (h @ [?get]) = (q, h2)"
    by fastforce
  from CheckSubnetCapacity_trace [OF q] obtain cs where cs: "h2 = h @ ?get # cs"
    "set cs \<subseteq> {RequiredSubnetsSize (SKUName p) (StorageCapacityTiB p),
         VnetUsageNextPage (VnetResourceGroup (SubnetInfo p)) (VnetName (SubnetInfo p))}" by auto
  note run = assms [unfolded CreateAmlFilesystem_def, simplified cl sub st q, simplified]
  show ?thesis
  proof (cases st)
    case (Inl e)
    then show ?thesis using run by (intro stopped [of cl "[]"]) (auto simp: cl sub)
  next
    case (Inr s)
    consider "s \<in> {ClusterStateFailed, ClusterStateExists}" | "s = ClusterStateDeleting"
      | "s = ClusterStateNotFound" "q = Inr True" | "s = ClusterStateNotFound" "q \<noteq> Inr True"
      by (cases s) auto
    then show ?thesis
    proof cases
      case 1
      then show ?thesis using run st Inr by (intro update [of cl s]) (auto simp: cl sub)
    next
      case 2
      then show ?thesis using run Inr by (intro stopped [of cl "[]"]) (auto simp: cl sub)
    next
      case 3
      then show ?thesis using run st Inr q cs by (intro create [of cl h2 cs]) (auto simp: cl sub)
    next
      case 4
      then show ?thesis using run Inr cs
        by (intro stopped [of cl cs]) (auto simp: cl sub q split: sum.splits bool.splits)
    qed
  qed
qed


subsection \<open>The creation protocol\<close>

text \<open>The calls that only read.\<close>

fun reads_only :: "az_call \<Rightarrow> bool" where
  "reads_only (AmlGet rg n) = True"
| "reads_only (RequiredSubnetsSize sku tib) = True"
| "reads_only (VnetUsageNextPage rg vnet) = True"
| "reads_only SkusNextPage = True"
| "reads_only _ = False"

text \<open>A concrete service: it answers \<open>Get\<close> with a fixed response and fails every poll of a creation as told.\<close>

definition sample_client :: "string option result \<Rightarrow> go_error option \<Rightarrow> AmlFilesystemsClient" where
  "sample_client state failure = \<lparr>cl_Get = \<lambda>h rg n. state,
    cl_BeginDelete = \<lambda>h rg n. None, cl_PollDelete = \<lambda>h rg n. None,
    cl_BeginCreateOrUpdate = \<lambda>h rg n b. None,
    cl_PollCreate = \<lambda>h rg n. (case failure of None \<Rightarrow> Inr (Some ''10.0.0.4'') | Some e \<Rightarrow> Inl e)\<rparr>"

definition sample_sku :: ResourceSKU where
  "sample_sku = \<lparr>sku_Name = Some ''AMLFS-Durable-Premium-250'', sku_ResourceType = Some ''amlFilesystems'',
     sku_Locations = [Some ''eastus''],
     sku_LocationInfo = [\<lparr>li_Location = Some ''EastUS'', li_Zones = Some [Some ''2'', Some ''1'']\<rparr>],
     sku_Capabilities = [\<lparr>cap_Name = Some AmlfsSkuCapacityIncrementName, cap_Value = Some ''8''\<rparr>,
       \<lparr>cap_Name = Some AmlfsSkuCapacityMaximumName, cap_Value = Some ''128''\<rparr>]\<rparr>"

definition sample_provisioner :: "AmlFilesystemsClient \<Rightarrow> DynamicProvisioner" where
  "sample_provisioner cl = \<lparr>amlFilesystemsClient = Some cl,
    mgmtClient = Some \<lparr>cl_SubnetsSize = \<lambda>h sku tib. Inr (Some 10)\<rparr>,
    skusClient = Some \<lparr>cl_SkuPages = \<lambda>h. [Inr [sample_sku]]\<rparr>,
    vnetClient = Some \<lparr>cl_UsagePages = \<lambda>h rg n. [Inr [\<lparr>u_ID = Some ''s'', u_CurrentValue = Some 3, u_Limit = Some 20\<rparr>]]\<rparr>\<rparr>"

definition sample_properties :: AmlFilesystemProperties where
  "sample_properties = \<lparr>ResourceGroupName = ''rg'', AmlFilesystemName = ''fs'', Location = ''eastus'', Tags = [],
    Identities = None, SubnetInfo = \<lparr>SubnetID = ''s'', VnetName = ''v'', VnetResourceGroup = ''vrg'', SubnetName = ''sn''\<rparr>,
    MaintenanceDayOfWeek = ''Monday'', TimeOfDayUTC = ''01:00'', StorageCapacityTiB = 8, SKUName = ''sku'', Zone = ''''\<rparr>"

lemmas sample_simps = sample_client_def sample_sku_def sample_provisioner_def sample_properties_def

text \<open>
  C9. The calls of \<open>CreateAmlFilesystem\<close>, for every behaviour of the Azure services: first a
  prefix of reads; then either nothing more and an error, or exactly one create-or-update request
  of the cluster with the body built from the properties, at most one poll, and then at most one
  deletion, of the same cluster, after which an error is returned. It succeeds exactly with the
  address of a finished poll as the last call.
\<close>

theorem create_protocol:
  assumes "CreateAmlFilesystem d p h = (r, h')"
  shows "\<exists>pre post. h' = h @ pre @ post \<and> list_all reads_only pre
    \<and> (post = [] \<and> (\<exists>e. r = Inl e)
       \<or> (\<exists>cl poll fail. amlFilesystemsClient d = Some cl \<and> subnet_complete (SubnetInfo p)
           \<and> post = AmlBeginCreateOrUpdate (ResourceGroupName p) (AmlFilesystemName p) (aml_request p) # poll @ fail
           \<and> poll \<in> {[], [AmlPollCreate (ResourceGroupName p) (AmlFilesystemName p)]}
           \<and> fail \<in> failure_traces (ResourceGroupName p) (AmlFilesystemName p)
           \<and> (\<forall>mgs. r = Inr mgs \<longrightarrow> poll \<noteq> [] \<and> fail = []
                \<and> cl_PollCreate cl (h @ pre @ [hd post]) (ResourceGroupName p) (AmlFilesystemName p) = Inr (Some mgs))))"
proof -
  let ?rg = "ResourceGroupName p" and ?n = "AmlFilesystemName p"
  have request: ?thesis
    if cl: "amlFilesystemsClient d = Some cl" "subnet_complete (SubnetInfo p)"
      and pre: "list_all reads_only pre" and run: "request_cluster d cl p (h @ pre) = (r, h')" for cl pre
  proof -
    obtain poll fail where t: "h' = (h @ pre) @ AmlBeginCreateOrUpdate ?rg ?n (aml_request p) # poll @ fail"
      "poll \<in> {[], [AmlPollCreate ?rg ?n]}" "fail \<in> failure_traces ?rg ?n"
      "\<forall>mgs. r = Inr mgs \<longrightarrow> poll \<noteq> [] \<and> fail = []"
      using request_cluster_trace [OF run cl(1)] by blast
    have polled: "cl_PollCreate cl (h @ pre @ [AmlBeginCreateOrUpdate ?rg ?n (aml_request p)]) ?rg ?n = Inr (Some mgs)"
      if "r = Inr mgs" for mgs
      using request_cluster_Inr [of d cl p "h @ pre" mgs h'] run that by simp
    show ?thesis
      by (rule exI [of _ pre], rule exI [of _ "AmlBeginCreateOrUpdate ?rg ?n (aml_request p) # poll @ fail"])
        (use cl pre t polled in auto)
  qed
  have reads: "list_all reads_only (AmlGet ?rg ?n # cs)"
    if "set cs \<subseteq> {RequiredSubnetsSize (SKUName p) (StorageCapacityTiB p),
      VnetUsageNextPage (VnetResourceGroup (SubnetInfo p)) (VnetName (SubnetInfo p))}" for cs
    using that by (auto simp: list_all_iff)
  from assms show ?thesis
  proof (cases rule: CreateAmlFilesystem_cases)
    case rejected
    then show ?thesis by (intro exI [of _ "[]"]) auto
  next
    case (stopped cl cs)
    then show ?thesis using reads [of cs]
      by (intro exI [of _ "AmlGet ?rg ?n # cs"] exI [of _ "[]"]) auto
  next
    case (create cl cs h2)
    then show ?thesis using request [of cl "AmlGet ?rg ?n # cs"] reads [of cs] by simp
  next
    case (update cl st)
    then show ?thesis using request [of cl "[AmlGet ?rg ?n]"] by simp
  qed
qed


theorem create_protocol_witness:
  "\<exists>r h'. CreateAmlFilesystem (sample_provisioner (sample_client (Inl (PlainError ''ResourceNotFound'')) None))
       sample_properties [] = (r, h') \<and> r = Inr ''10.0.0.4'' \<and> length h' = 5 \<and>
     (\<exists>pre post. h' = [] @ pre @ post \<and> list_all reads_only pre \<and> post \<noteq> [])"
proof -
  obtain r h' where run: "CreateAmlFilesystem (sample_provisioner (sample_client (Inl (PlainError ''ResourceNotFound'')) None))
       sample_properties [] = (r, h')" and r: "r = Inr ''10.0.0.4''" "length h' = 5"
    by (simp add: CreateAmlFilesystem_def sample_simps currentClusterState_def subnet_complete_def
        CheckSubnetCapacity_def getAmlfsSubnetSize_def checkSubnetAddresses_def request_cluster_def go_int_def
        has_prefix_def word_sless_alt Let_def)
  from create_protocol [OF run] r have "\<exists>pre post. h' = [] @ pre @ post \<and> list_all reads_only pre \<and> post \<noteq> []"
    by (metis Inr_not_Inl list.distinct(1))
  with run r show ?thesis by blast
qed

text \<open>When a failed request ends in a deletion.\<close>

lemma checkErrorForRetry_True:
  assumes "checkErrorForRetry d err p h = (Inr True, h')" "amlFilesystemsClient d = Some cl"
  shows "status_code (convert_err err) = DeadlineExceeded
    \<and> (contains (error_text (convert_err err)) ''Timeout''
       \<or> cl_Get cl h (ResourceGroupName p) (AmlFilesystemName p) = Inr (Some ''Failed''))"
  using assms
  by (auto simp: checkErrorForRetry_def currentClusterState_def Let_def split: if_splits sum.splits)

lemma failure_traces_no_begin: "t \<in> failure_traces rg n \<Longrightarrow> AmlBeginCreateOrUpdate rg' n' b \<notin> set t"
  by (auto simp: failure_traces_def delete_traces_def)

text \<open>The retry policy holds for a failed call: its error is a deadline that names a timeout or left a failed cluster.\<close>

definition retry_warranted :: "AmlFilesystemsClient \<Rightarrow> AmlFilesystemProperties \<Rightarrow> go_error \<Rightarrow> az_history \<Rightarrow> bool" where
  "retry_warranted cl p err h \<longleftrightarrow> status_code (convert_err err) = DeadlineExceeded
     \<and> (contains (error_text (convert_err err)) ''Timeout''
        \<or> cl_Get cl h (ResourceGroupName p) (AmlFilesystemName p) = Inr (Some ''Failed''))"

lemma creation_failed_delete:
  assumes "creation_failed d p err h = (r, h @ t)" "amlFilesystemsClient d = Some cl"
    and "AmlBeginDelete (ResourceGroupName p) (AmlFilesystemName p) \<in> set t"
  shows "retry_warranted cl p err h \<and> (\<exists>e. r = Inl e \<and> (status_code e = Aborted \<or>
     (\<exists>h1 e'. e = convert_err e' \<and> (cl_BeginDelete cl h1 (ResourceGroupName p) (AmlFilesystemName p) = Some e'
        \<or> cl_PollDelete cl h1 (ResourceGroupName p) (AmlFilesystemName p) = Some e'))))"
proof -
  obtain q h1 where q: "checkErrorForRetry d err p h = (q, h1)" by fastforce
  have h1: "h1 = h \<or> h1 = h @ [AmlGet (ResourceGroupName p) (AmlFilesystemName p)]"
    by (rule checkErrorForRetry_trace [OF q assms(2)])
  have True: "q = Inr True"
  proof (rule ccontr)
    assume "q \<noteq> Inr True"
    then have "h @ t = h1" using assms(1) q by (auto simp: creation_failed_def split: sum.splits bool.splits)
    then show False using h1 assms(3) by auto
  qed
  then have "(r, h @ t) = (case tryDeleteBeforeRetry d p h1 of (e, h2) \<Rightarrow> (Inl e, h2))"
    using assms(1) q by (simp add: creation_failed_def)
  then show ?thesis using checkErrorForRetry_True [of d err p h h1 cl] q True assms(2)
    by (auto simp: retry_warranted_def tryDeleteBeforeRetry_def DeleteAmlFilesystem_def Let_def
        split: option.splits prod.splits; blast)
qed


lemma request_cluster_delete:
  assumes "request_cluster d cl p h = (r, h @ t)" "amlFilesystemsClient d = Some cl"
    and "AmlBeginDelete (ResourceGroupName p) (AmlFilesystemName p) \<in> set t"
  shows "\<exists>err h1. (cl_BeginCreateOrUpdate cl h (ResourceGroupName p) (AmlFilesystemName p) (aml_request p) = Some err
        \<or> cl_PollCreate cl (h @ [AmlBeginCreateOrUpdate (ResourceGroupName p) (AmlFilesystemName p) (aml_request p)])
            (ResourceGroupName p) (AmlFilesystemName p) = Inl err)
      \<and> retry_warranted cl p err h1 \<and> (\<exists>e. r = Inl e \<and> (status_code e = Aborted \<or>
     (\<exists>h1 e'. e = convert_err e' \<and> (cl_BeginDelete cl h1 (ResourceGroupName p) (AmlFilesystemName p) = Some e'
        \<or> cl_PollDelete cl h1 (ResourceGroupName p) (AmlFilesystemName p) = Some e'))))"
proof -
  let ?rg = "ResourceGroupName p" and ?n = "AmlFilesystemName p"
  let ?b = "AmlBeginCreateOrUpdate ?rg ?n (aml_request p)"
  have failed: "retry_warranted cl p err (h @ ?b # q) \<and> (\<exists>e. r = Inl e \<and> (status_code e = Aborted \<or>
       (\<exists>h1 e'. e = convert_err e' \<and> (cl_BeginDelete cl h1 ?rg ?n = Some e' \<or> cl_PollDelete cl h1 ?rg ?n = Some e'))))"
    if run: "creation_failed d p err (h @ ?b # q) = (r, h @ t)" and "q = [] \<or> q = [AmlPollCreate ?rg ?n]" for err q
  proof -
    from creation_failed_trace [OF run assms(2)] obtain u where u: "h @ t = (h @ ?b # q) @ u" by blast
    then have "AmlBeginDelete ?rg ?n \<in> set u" using assms(3) that(2) by auto
    then show ?thesis using creation_failed_delete [of d p err "h @ ?b # q" r u cl] run u assms(2) by simp
  qed
  show ?thesis
  proof (cases "cl_BeginCreateOrUpdate cl h ?rg ?n (aml_request p)")
    case (Some err)
    then show ?thesis using failed [of err "[]"] assms(1) by (auto simp: request_cluster_def Let_def)
  next
    case begun: None
    show ?thesis
    proof (cases "cl_PollCreate cl (h @ [?b]) ?rg ?n")
      case (Inl err)
      then have "creation_failed d p err (h @ ?b # [AmlPollCreate ?rg ?n]) = (r, h @ t)"
        using begun assms(1) by (simp add: request_cluster_def Let_def)
      then show ?thesis using failed [of err "[AmlPollCreate ?rg ?n]"] Inl by blast
    next
      case (Inr m)
      then have "t = [?b, AmlPollCreate ?rg ?n]"
        using begun assms(1) by (auto simp: request_cluster_def Let_def split: option.splits)
      then show ?thesis using assms(3) by simp
    qed
  qed
qed


text \<open>A gateway timeout (504), as the SDK reports it.\<close>

definition gateway_timeout :: go_error where
  "gateway_timeout = ResponseError \<lparr>StatusCode = 504, ErrorCode = ''GatewayTimeout'', HttpText = ''GatewayTimeout''\<rparr> ''GatewayTimeout''"

lemma sample_timeout_run:
  "CreateAmlFilesystem (sample_provisioner (sample_client (Inr (Some ''Succeeded'')) (Some gateway_timeout))) sample_properties [] =
     (Inl (StatusError Aborted ''AMLFS cluster fs creation timed out. Deleted failed cluster, retrying cluster creation''),
      [AmlGet ''rg'' ''fs'', AmlBeginCreateOrUpdate ''rg'' ''fs'' (aml_request sample_properties), AmlPollCreate ''rg'' ''fs'',
       AmlBeginDelete ''rg'' ''fs'', AmlPollDelete ''rg'' ''fs''])"
  by (simp add: CreateAmlFilesystem_def sample_simps currentClusterState_def subnet_complete_def gateway_timeout_def
        request_cluster_def creation_failed_def checkErrorForRetry_def tryDeleteBeforeRetry_def DeleteAmlFilesystem_def
        http_grpc_code_def has_prefix_def Let_def)




text \<open>
  C10. A create-or-update request is sent only with a complete subnet, with the body built from the
  properties, and either for a cluster the service does not know and whose required addresses are
  free in the subnet, or for a known cluster that is not being deleted.
\<close>

theorem create_guard:
  assumes "CreateAmlFilesystem d p h = (r, h')"
    and "AmlBeginCreateOrUpdate rg n b \<in> set (drop (length h) h')"
  shows "rg = ResourceGroupName p \<and> n = AmlFilesystemName p \<and> b = aml_request p \<and> subnet_complete (SubnetInfo p)
    \<and> (\<exists>cl. amlFilesystemsClient d = Some cl
        \<and> (case cl_Get cl h rg n of
             Inl err \<Rightarrow> contains (error_text err) ''ResourceNotFound'' \<and>
               (\<exists>needed free h1 h2. getAmlfsSubnetSize d (SKUName p) (StorageCapacityTiB p) (h @ [AmlGet rg n]) = (Inr needed, h1)
                  \<and> checkSubnetAddresses d (VnetResourceGroup (SubnetInfo p)) (VnetName (SubnetInfo p)) (SubnetID (SubnetInfo p)) h1
                     = (Inr free, h2)
                  \<and> sint needed \<le> sint free)
           | Inr st \<Rightarrow> st \<noteq> Some ''Deleting''))"
proof -
  let ?rg = "ResourceGroupName p" and ?n = "AmlFilesystemName p"
  have same: "rg = ?rg \<and> n = ?n \<and> b = aml_request p"
    if cl: "amlFilesystemsClient d = Some cl" and run: "request_cluster d cl p (h @ pre) = (r, h')"
      and pre: "list_all reads_only pre" for cl pre
  proof -
    from request_cluster_trace [OF run cl] obtain poll fail where
      t: "h' = (h @ pre) @ AmlBeginCreateOrUpdate ?rg ?n (aml_request p) # poll @ fail"
      "poll \<in> {[], [AmlPollCreate ?rg ?n]}" "fail \<in> failure_traces ?rg ?n" by blast
    have "AmlBeginCreateOrUpdate rg n b \<notin> set pre" using pre by (auto simp: list_all_iff)
    then show ?thesis using t assms(2) failure_traces_no_begin [OF t(3)] by auto
  qed
  from assms(1) show ?thesis
  proof (cases rule: CreateAmlFilesystem_cases)
    case rejected
    then show ?thesis using assms(2) by simp
  next
    case (stopped cl cs)
    then show ?thesis using assms(2) by auto
  next
    case (create cl cs h2)
    have "list_all reads_only (AmlGet ?rg ?n # cs)" using create(6) by (auto simp: list_all_iff)
    then have eq: "rg = ?rg" "n = ?n" "b = aml_request p"
      using same [of cl "AmlGet ?rg ?n # cs"] create by auto
    obtain err where "cl_Get cl h ?rg ?n = Inl err" "contains (error_text err) ''ResourceNotFound''"
      using create(1,3) by (auto simp: currentClusterState_def Let_def split: sum.splits if_splits)
    then show ?thesis using create(1,2) CheckSubnetCapacity_Inr [OF create(4)] eq by auto
  next
    case (update cl st)
    then have eq: "rg = ?rg" "n = ?n" "b = aml_request p"
      using same [of cl "[AmlGet ?rg ?n]"] by auto
    obtain st' where "cl_Get cl h ?rg ?n = Inr st'" "st' \<noteq> Some ''Deleting''"
      using update(1,3,4) by (auto simp: currentClusterState_def Let_def split: sum.splits if_splits)
    then show ?thesis using update(1,2) eq by auto
  qed
qed

theorem create_guard_witness:
  "subnet_complete (SubnetInfo sample_properties)
     \<and> (case cl_Get (sample_client (Inr (Some ''Succeeded'')) (Some gateway_timeout)) [] ''rg'' ''fs'' of
          Inl err \<Rightarrow> False | Inr st \<Rightarrow> st \<noteq> Some ''Deleting'')"
proof -
  have "AmlBeginCreateOrUpdate ''rg'' ''fs'' (aml_request sample_properties) \<in>
    set (drop (length []) [AmlGet ''rg'' ''fs'', AmlBeginCreateOrUpdate ''rg'' ''fs'' (aml_request sample_properties),
      AmlPollCreate ''rg'' ''fs'', AmlBeginDelete ''rg'' ''fs'', AmlPollDelete ''rg'' ''fs''])" by simp
  from create_guard [OF sample_timeout_run this] show ?thesis
    by (simp add: sample_provisioner_def sample_client_def)
qed

subsection \<open>What the SKU table holds\<close>

lemma list_skus_sound:
  assumes "list_skus pages acc h = (Inr skus, h')"
  shows "\<forall>sku\<in>set skus. sku \<in> set acc \<or>
    (\<exists>page. Inr page \<in> set pages \<and> sku \<in> set page \<and> sku_ResourceType sku = Some AmlfsSkuResourceType)"
  using assms
proof (induction pages acc h rule: list_skus.induct)
  case (2 page pages acc h)
  then obtain xs acc' where xs: "page = Inr xs" "range_loop keep_amlfs_sku xs acc = Inr acc'"
    "list_skus pages acc' (h @ [SkusNextPage]) = (Inr skus, h')"
    by (auto split: sum.splits)
  have "\<forall>sku\<in>set acc'. sku \<in> set acc \<or> sku \<in> set xs \<and> sku_ResourceType sku = Some AmlfsSkuResourceType"
    by (rule range_loop_invariant [where P = "\<lambda>s. \<forall>sku\<in>set s. sku \<in> set acc \<or> sku \<in> set xs \<and> sku_ResourceType sku = Some AmlfsSkuResourceType", OF _ _ xs(2)])
      (auto simp: keep_amlfs_sku_def split: option.splits if_splits)
  then show ?case using "2.IH" [OF xs] xs(1) by fastforce
qed simp

lemma skus_for_location_sound:
  assumes "skus_for_location location skus = Inr xs"
  shows "\<forall>sku\<in>set xs. sku \<in> set skus \<and> (\<exists>l. Some l \<in> set (sku_Locations sku) \<and> equal_fold l location)"
proof -
  let ?P = "\<lambda>s. \<forall>sku\<in>set s. sku \<in> set skus \<and> (\<exists>l. Some l \<in> set (sku_Locations sku) \<and> equal_fold l location)"
  have inner: "?P t" if "sku \<in> set skus" "?P s"
    and "range_loop (keep_location location sku) (sku_Locations sku) s = Inr t" for sku s t
    by (rule range_loop_invariant [where P = ?P, OF that(2) _ that(3)])
      (use that(1) in \<open>auto simp: keep_location_def split: option.splits if_splits\<close>)
  show ?thesis
    by (rule range_loop_invariant [where P = ?P, OF _ inner assms [unfolded skus_for_location_def]]) auto
qed

lemma sku_zones_nonempty:
  assumes "sku_zones location sku = Inr (zones, found)"
  shows "'''' \<notin> set zones"
proof -
  have "(\<lambda>(zones, found). '''' \<notin> set zones) (zones, found)"
    using _ _ assms unfolding sku_zones_def
    by (rule range_loop_invariant) (auto split: option.splits if_splits)
  then show ?thesis by simp
qed

text \<open>A row of the table: where it comes from and what its values satisfy.\<close>

definition sku_row_ok :: "string \<Rightarrow> ResourceSKU set \<Rightarrow> string \<times> LustreSkuValue \<Rightarrow> bool" where
  "sku_row_ok location skus row \<longleftrightarrow> IncrementInTib (snd row) \<noteq> 0 \<and> MaximumInTib (snd row) \<noteq> 0
     \<and> sorted (AvailableZones (snd row)) \<and> '''' \<notin> set (AvailableZones (snd row))
     \<and> (\<exists>sku\<in>skus. sku_Name sku = Some (fst row) \<and> sku_ResourceType sku = Some AmlfsSkuResourceType
          \<and> (\<exists>l. Some l \<in> set (sku_Locations sku) \<and> equal_fold l location)
          \<and> sku_capacity (sku_Capabilities sku) = Inr (IncrementInTib (snd row), MaximumInTib (snd row)))"

lemma set_update_subset: "set (AList.update k v m) \<subseteq> insert (k, v) (set m)"
  by (induction m) auto

lemma sku_value_ok:
  assumes "sku_value location sku m = Inr m'" "go_map_ok m" "\<forall>row\<in>set m. sku_row_ok location S row"
    and "sku \<in> S" "sku_ResourceType sku = Some AmlfsSkuResourceType"
    and "\<exists>l. Some l \<in> set (sku_Locations sku) \<and> equal_fold l location"
  shows "go_map_ok m' \<and> (\<forall>row\<in>set m'. sku_row_ok location S row)"
proof -
  obtain zones where z: "sku_zones location sku = Inr (zones, True)"
    using assms(1) by (auto simp: sku_value_def split: sum.splits if_splits option.splits)
  obtain inc mx where c: "sku_capacity (sku_Capabilities sku) = Inr (inc, mx)"
    using assms(1) z by (auto simp: sku_value_def split: sum.splits)
  show ?thesis
  proof (cases "inc \<noteq> 0 \<and> mx \<noteq> 0")
    case True
    then obtain n where n: "sku_Name sku = Some n"
      and m': "m' = AList.update n \<lparr>IncrementInTib = inc, MaximumInTib = mx, AvailableZones = sort zones\<rparr> m"
      using assms(1) z c by (auto simp: sku_value_def split: option.splits)
    have "sku_row_ok location S (n, \<lparr>IncrementInTib = inc, MaximumInTib = mx, AvailableZones = sort zones\<rparr>)"
      using True n c assms(4-6) sku_zones_nonempty [OF z] by (auto simp: sku_row_ok_def)
    then show ?thesis using assms(2,3) set_update_subset [of n _ m] unfolding m'
      by (auto simp: update_go_map_ok)
  next
    case False
    then show ?thesis using assms(1-3) z c by (auto simp: sku_value_def)
  qed
qed


definition service_skus :: "SKUsClient \<Rightarrow> az_history \<Rightarrow> ResourceSKU set" where
  "service_skus cl h = {sku. \<exists>page. Inr page \<in> set (cl_SkuPages cl h) \<and> sku \<in> set page}"

lemma GetSkuValuesForLocation_Inr:
  assumes "GetSkuValuesForLocation d location h = (Inr m, h')"
  shows "\<exists>cl. skusClient d = Some cl \<and> m \<noteq> [] \<and> go_map_ok m
    \<and> (\<forall>row\<in>set m. sku_row_ok location (service_skus cl h) row)"
proof -
  obtain cl where cl: "skusClient d = Some cl"
    using assms by (auto simp: GetSkuValuesForLocation_def split: option.splits)
  obtain skus where skus: "list_skus (cl_SkuPages cl h) [] h = (Inr skus, h')"
    using assms cl by (auto simp: GetSkuValuesForLocation_def split: sum.splits prod.splits)
  obtain xs where xs: "skus_for_location location skus = Inr xs"
    using assms cl skus by (auto simp: GetSkuValuesForLocation_def no_skus_def split: sum.splits if_splits)
  have loop: "range_loop (sku_value location) xs [] = Inr m" and "m \<noteq> []"
    using assms cl skus xs by (auto simp: GetSkuValuesForLocation_def no_skus_def split: sum.splits if_splits)
  let ?S = "service_skus cl h"
  let ?P = "\<lambda>m. go_map_ok m \<and> (\<forall>row\<in>set m. sku_row_ok location ?S row)"
  have src: "x \<in> ?S \<and> sku_ResourceType x = Some AmlfsSkuResourceType
      \<and> (\<exists>l. Some l \<in> set (sku_Locations x) \<and> equal_fold l location)" if "x \<in> set xs" for x
    using skus_for_location_sound [OF xs] list_skus_sound [OF skus] that by (fastforce simp: service_skus_def)
  have step: "?P t" if "x \<in> set xs" "?P s" "sku_value location x s = Inr t" for x s t
    using that sku_value_ok [OF that(3), of ?S] src [OF that(1)] by blast
  have "?P m"
    by (rule range_loop_invariant [where P = ?P, OF _ step loop]) (simp_all add: go_map_ok_def)
  then show ?thesis using cl \<open>m \<noteq> []\<close> by simp
qed

text \<open>
  C24. A table returned by \<open>GetSkuValuesForLocation\<close> is not empty, has one row per SKU name, and
  each row comes from a SKU of the service of the Lustre resource type that is offered in the
  location: its increment and maximum are the ones read from the SKU's capabilities and are not
  zero, and its zones are sorted and not empty strings.
\<close>

theorem sku_table_sound:
  assumes "GetSkuValuesForLocation d location h = (Inr m, h')"
  shows "\<exists>cl. skusClient d = Some cl \<and> m \<noteq> [] \<and> go_map_ok m
    \<and> (\<forall>row\<in>set m. sku_row_ok location (service_skus cl h) row)"
  using assms by (rule GetSkuValuesForLocation_Inr)

lemma sample_skus_run:
  "GetSkuValuesForLocation (sample_provisioner cl) ''eastus'' h =
     (Inr [(''AMLFS-Durable-Premium-250'', \<lparr>IncrementInTib = 8, MaximumInTib = 128, AvailableZones = [''1'', ''2'']\<rparr>)],
      h @ [SkusNextPage])"
proof -
  have "equal_fold ''eastus'' ''eastus''" "equal_fold ''EastUS'' ''eastus''" by code_simp+
  moreover have "parse_int64 ''8'' = Some 8" "parse_int64 ''128'' = Some 128" by code_simp+
  moreover have "sort [''2'', ''1''] = [''1'', ''2'']" by code_simp
  moreover note map_filter_simps
  ultimately have "list_skus [Inr [sample_sku]] [] h = (Inr [sample_sku], h @ [SkusNextPage])"
    "skus_for_location ''eastus'' [sample_sku] = Inr [sample_sku]"
    "sku_zones ''eastus'' sample_sku = Inr ([''2'', ''1''], True)"
    "sku_capacity (sku_Capabilities sample_sku) = Inr (8, 128)" "sku_Name sample_sku = Some ''AMLFS-Durable-Premium-250''"
    "sort [''2'', ''1''] = [''1'', ''2'']"
    by (simp_all add: sample_sku_def keep_amlfs_sku_def keep_location_def skus_for_location_def sku_zones_def
        sku_capacity_def read_capability_def)
  then show ?thesis
    by (simp add: GetSkuValuesForLocation_def sample_provisioner_def sku_value_def)
qed

theorem sku_table_sound_witness:
  "sku_row_ok ''eastus'' (service_skus \<lparr>cl_SkuPages = \<lambda>h. [Inr [sample_sku]]\<rparr> [])
     (''AMLFS-Durable-Premium-250'', \<lparr>IncrementInTib = 8, MaximumInTib = 128, AvailableZones = [''1'', ''2'']\<rparr>)"
  using sku_table_sound [OF sample_skus_run [of "sample_client (Inr None) None" "[]"]]
  by (simp add: sample_provisioner_def)

lemma list_skus_safe: "list_skus pages acc h = (Inl e, h') \<Longrightarrow> grpc_safe e"
proof (induction pages acc h rule: list_skus.induct)
  case (2 page pages acc h)
  have "grpc_safe e" if "range_loop keep_amlfs_sku xs s = Inl e" for xs s e
    using range_loop_error [OF that] by (auto simp: keep_amlfs_sku_def split: option.splits)
  then show ?case using 2 by (auto split: sum.splits)
qed simp


lemma sku_zones_safe: "sku_zones location sku = Inl e \<Longrightarrow> grpc_safe e"
  unfolding sku_zones_def
  by (drule range_loop_error) (auto split: option.splits if_splits prod.splits)

lemma read_capability_safe: "read_capability cap vals = Inl e \<Longrightarrow> grpc_safe e"
  by (cases "cap_Name cap"; cases "cap_Value cap") (auto simp: read_capability_def split: if_splits)

lemma sku_capacity_safe: "sku_capacity caps = Inl e \<Longrightarrow> grpc_safe e"
  unfolding sku_capacity_def by (drule range_loop_error) (blast dest: read_capability_safe)

lemma sku_value_safe:
  assumes "sku_value location sku m = Inl e"
  shows "grpc_safe e"
proof (cases "sku_zones location sku")
  case (Inl e')
  then show ?thesis using assms sku_zones_safe by (simp add: sku_value_def)
next
  case zones: (Inr zf)
  show ?thesis
  proof (cases "sku_capacity (sku_Capabilities sku)")
    case (Inl e')
    then have "grpc_safe e'" by (rule sku_capacity_safe)
    then show ?thesis using assms zones Inl
      by (cases zf) (auto simp: sku_value_def split: if_splits option.splits)
  next
    case (Inr c)
    then show ?thesis using assms zones
      by (cases zf; cases c) (auto simp: sku_value_def split: if_splits option.splits)
  qed
qed

lemma skus_for_location_safe: "skus_for_location location skus = Inl e \<Longrightarrow> grpc_safe e"
  unfolding skus_for_location_def
proof -
  assume "range_loop (\<lambda>sku. range_loop (keep_location location sku) (sku_Locations sku)) skus [] = Inl e"
  from range_loop_error [OF this] obtain sku s where "range_loop (keep_location location sku) (sku_Locations sku) s = Inl e"
    by blast
  from range_loop_error [OF this] show ?thesis by (auto simp: keep_location_def split: option.splits)
qed

lemma sku_values_safe: "range_loop (sku_value location) skus m = Inl e \<Longrightarrow> grpc_safe e"
  by (drule range_loop_error) (blast dest: sku_value_safe)

lemma GetSkuValuesForLocation_safe: "GetSkuValuesForLocation d location h = (Inl e, h') \<Longrightarrow> grpc_safe e"
  by (auto simp: GetSkuValuesForLocation_def no_skus_def split: option.splits prod.splits sum.splits if_splits
      dest: list_skus_safe skus_for_location_safe sku_values_safe)

subsection \<open>The interface of the controller to the provisioner\<close>

text \<open>\<open>DynamicProvisionerInterface\<close>: an interface value is the record of its methods.\<close>

record DynamicProvisionerInterface =
  if_DeleteAmlFilesystem :: "string \<Rightarrow> string \<Rightarrow> az_history \<Rightarrow> go_error option \<times> az_history"
  if_CreateAmlFilesystem :: "AmlFilesystemProperties \<Rightarrow> az_history \<Rightarrow> string result \<times> az_history"
  if_GetSkuValuesForLocation :: "string \<Rightarrow> az_history \<Rightarrow> sku_map result \<times> az_history"

definition dp_interface :: "DynamicProvisioner \<Rightarrow> DynamicProvisionerInterface" where
  "dp_interface d = \<lparr>if_DeleteAmlFilesystem = DeleteAmlFilesystem d,
     if_CreateAmlFilesystem = CreateAmlFilesystem d,
     if_GetSkuValuesForLocation = GetSkuValuesForLocation d\<rparr>"

text \<open>The cluster that a call may change.\<close>

fun az_target :: "az_call \<Rightarrow> (string \<times> string) option" where
  "az_target (AmlBeginDelete rg n) = Some (rg, n)"
| "az_target (AmlPollDelete rg n) = Some (rg, n)"
| "az_target (AmlBeginCreateOrUpdate rg n b) = Some (rg, n)"
| "az_target (AmlPollCreate rg n) = Some (rg, n)"
| "az_target _ = None"

definition stays_on :: "(string \<times> string) option set \<Rightarrow> az_history \<Rightarrow> az_history \<Rightarrow> bool" where
  "stays_on T h h' \<longleftrightarrow> (\<exists>cs. h' = h @ cs \<and> az_target ` set cs \<subseteq> T)"

lemma stays_on_refl [simp]: "stays_on T h h"
  by (simp add: stays_on_def)

lemma stays_on_trans:
  assumes "stays_on T h h1" "stays_on T h1 h2"
  shows "stays_on T h h2"
proof -
  from assms obtain cs cs' where "h1 = h @ cs" "az_target ` set cs \<subseteq> T" "h2 = h1 @ cs'" "az_target ` set cs' \<subseteq> T"
    by (auto simp: stays_on_def)
  then have "h2 = h @ (cs @ cs')" "az_target ` set (cs @ cs') \<subseteq> T" by (simp_all add: image_Un)
  then show ?thesis unfolding stays_on_def by blast
qed

lemma stays_on_mono: "stays_on S h h' \<Longrightarrow> S \<subseteq> T \<Longrightarrow> stays_on T h h'"
  by (auto simp: stays_on_def)

text \<open>
  What the controller relies on: errors are gRPC statuses (or panics), calls are only added to the
  history and change only the cluster the operation names, and a SKU table has one row per name
  with non-zero sizes.
\<close>

locale lustre_provisioner =
  fixes I :: DynamicProvisionerInterface
  assumes delete_safe: "if_DeleteAmlFilesystem I rg n h = (Some e, h') \<Longrightarrow> grpc_safe e"
    and create_safe: "if_CreateAmlFilesystem I p h = (Inl e, h') \<Longrightarrow> grpc_safe e"
    and skus_safe: "if_GetSkuValuesForLocation I location h = (Inl e, h') \<Longrightarrow> grpc_safe e"
    and delete_calls: "if_DeleteAmlFilesystem I rg n h = (r, h') \<Longrightarrow> stays_on {Some (rg, n)} h h'"
    and create_calls: "if_CreateAmlFilesystem I p h = (r', h') \<Longrightarrow>
      stays_on {None, Some (ResourceGroupName p, AmlFilesystemName p)} h h'"
    and skus_calls: "if_GetSkuValuesForLocation I location h = (r'', h') \<Longrightarrow> stays_on {None} h h'"
    and skus_rows: "if_GetSkuValuesForLocation I location h = (Inr m, h') \<Longrightarrow>
      go_map_ok m \<and> (\<forall>row\<in>set m. IncrementInTib (snd row) \<noteq> 0 \<and> MaximumInTib (snd row) \<noteq> 0)"

lemma CreateAmlFilesystem_stays:
  assumes "CreateAmlFilesystem d p h = (r, h')"
  shows "stays_on {None, Some (ResourceGroupName p, AmlFilesystemName p)} h h'"
proof -
  let ?T = "{None, Some (ResourceGroupName p, AmlFilesystemName p)}"
  have request: "stays_on ?T h0 h'"
    if "request_cluster d cl p h0 = (r, h')" "amlFilesystemsClient d = Some cl" for cl h0
    using request_cluster_trace [OF that]
    by (auto simp: stays_on_def failure_traces_def delete_traces_def)
  from assms show ?thesis
  proof (cases rule: CreateAmlFilesystem_cases)
    case (create cl cs h2)
    have "stays_on ?T h h2" using create(5,6) by (auto simp: stays_on_def)
    then show ?thesis using request [OF create(7,1)] by (rule stays_on_trans)
  next
    case (update cl st)
    have "stays_on ?T h (h @ [AmlGet (ResourceGroupName p) (AmlFilesystemName p)])" by (auto simp: stays_on_def)
    then show ?thesis using request [OF update(5,1)] by (rule stays_on_trans)
  qed (auto simp: stays_on_def)
qed

interpretation dp: lustre_provisioner "dp_interface d" for d
proof unfold_locales
  fix rg n h e h'
  assume "if_DeleteAmlFilesystem (dp_interface d) rg n h = (Some e, h')"
  then show "grpc_safe e" by (simp add: dp_interface_def DeleteAmlFilesystem_safe)
next
  fix p h e h'
  assume "if_CreateAmlFilesystem (dp_interface d) p h = (Inl e, h')"
  then show "grpc_safe e" by (simp add: dp_interface_def CreateAmlFilesystem_safe)
next
  fix location h e h'
  assume "if_GetSkuValuesForLocation (dp_interface d) location h = (Inl e, h')"
  then show "grpc_safe e" by (simp add: dp_interface_def GetSkuValuesForLocation_safe)
next
  fix rg n h r h'
  assume "if_DeleteAmlFilesystem (dp_interface d) rg n h = (r, h')"
  then show "stays_on {Some (rg, n)} h h'"
    using DeleteAmlFilesystem_trace [of d rg n h r h']
    by (auto simp: dp_interface_def stays_on_def delete_traces_def)
next
  fix p h r h'
  assume "if_CreateAmlFilesystem (dp_interface d) p h = (r, h')"
  then show "stays_on {None, Some (ResourceGroupName p, AmlFilesystemName p)} h h'"
    by (simp add: dp_interface_def CreateAmlFilesystem_stays)
next
  fix location h r h'
  assume "if_GetSkuValuesForLocation (dp_interface d) location h = (r, h')"
  then show "stays_on {None} h h'"
    using GetSkuValuesForLocation_trace [of d location h r h'] by (auto simp: dp_interface_def stays_on_def)
next
  fix location h m h'
  assume "if_GetSkuValuesForLocation (dp_interface d) location h = (Inr m, h')"
  then show "go_map_ok m \<and> (\<forall>row\<in>set m. IncrementInTib (snd row) \<noteq> 0 \<and> MaximumInTib (snd row) \<noteq> 0)"
    using GetSkuValuesForLocation_Inr [of d location h m h'] by (auto simp: dp_interface_def sku_row_ok_def)
qed

end
