(* ===== verification/Csi_Common.thy ===== *)
theory Csi_Common
  imports Grpc_Errors
begin

text \<open>
  \<open>pkg/csi-common\<close>: the CSI driver object with the capabilities it advertises
  (\<open>driver.go\<close>), the endpoint parser and the logging interceptor (\<open>utils.go\<close>), and the
  default servers whose methods a driver inherits when it does not implement them. The enumerations
  of the CSI protocol are datatypes; a number outside an enumeration, which the wire format admits,
  is the constructor \<open>OTHER\<close>.
\<close>

subsection \<open>Enumerations and messages of the protocol\<close>

datatype access_mode = AM_UNKNOWN | SINGLE_NODE_WRITER | SINGLE_NODE_READER_ONLY | MULTI_NODE_READER_ONLY
  | MULTI_NODE_SINGLE_WRITER | MULTI_NODE_MULTI_WRITER | SINGLE_NODE_SINGLE_WRITER
  | SINGLE_NODE_MULTI_WRITER | AM_OTHER int

fun access_mode_string :: "access_mode \<Rightarrow> string" where
  "access_mode_string AM_UNKNOWN = ''UNKNOWN''"
| "access_mode_string SINGLE_NODE_WRITER = ''SINGLE_NODE_WRITER''"
| "access_mode_string SINGLE_NODE_READER_ONLY = ''SINGLE_NODE_READER_ONLY''"
| "access_mode_string MULTI_NODE_READER_ONLY = ''MULTI_NODE_READER_ONLY''"
| "access_mode_string MULTI_NODE_SINGLE_WRITER = ''MULTI_NODE_SINGLE_WRITER''"
| "access_mode_string MULTI_NODE_MULTI_WRITER = ''MULTI_NODE_MULTI_WRITER''"
| "access_mode_string SINGLE_NODE_SINGLE_WRITER = ''SINGLE_NODE_SINGLE_WRITER''"
| "access_mode_string SINGLE_NODE_MULTI_WRITER = ''SINGLE_NODE_MULTI_WRITER''"
| "access_mode_string (AM_OTHER n) = show_int n"

datatype controller_rpc = CSC_UNKNOWN | CSC_CREATE_DELETE_VOLUME | CSC_PUBLISH_UNPUBLISH_VOLUME
  | CSC_LIST_VOLUMES | CSC_GET_CAPACITY | CSC_CREATE_DELETE_SNAPSHOT | CSC_LIST_SNAPSHOTS
  | CSC_CLONE_VOLUME | CSC_PUBLISH_READONLY | CSC_EXPAND_VOLUME | CSC_LIST_VOLUMES_PUBLISHED_NODES
  | CSC_VOLUME_CONDITION | CSC_GET_VOLUME | CSC_SINGLE_NODE_MULTI_WRITER | CSC_MODIFY_VOLUME
  | CSC_OTHER int

fun controller_rpc_string :: "controller_rpc \<Rightarrow> string" where
  "controller_rpc_string CSC_UNKNOWN = ''UNKNOWN''"
| "controller_rpc_string CSC_CREATE_DELETE_VOLUME = ''CREATE_DELETE_VOLUME''"
| "controller_rpc_string CSC_PUBLISH_UNPUBLISH_VOLUME = ''PUBLISH_UNPUBLISH_VOLUME''"
| "controller_rpc_string CSC_LIST_VOLUMES = ''LIST_VOLUMES''"
| "controller_rpc_string CSC_GET_CAPACITY = ''GET_CAPACITY''"
| "controller_rpc_string CSC_CREATE_DELETE_SNAPSHOT = ''CREATE_DELETE_SNAPSHOT''"
| "controller_rpc_string CSC_LIST_SNAPSHOTS = ''LIST_SNAPSHOTS''"
| "controller_rpc_string CSC_CLONE_VOLUME = ''CLONE_VOLUME''"
| "controller_rpc_string CSC_PUBLISH_READONLY = ''PUBLISH_READONLY''"
| "controller_rpc_string CSC_EXPAND_VOLUME = ''EXPAND_VOLUME''"
| "controller_rpc_string CSC_LIST_VOLUMES_PUBLISHED_NODES = ''LIST_VOLUMES_PUBLISHED_NODES''"
| "controller_rpc_string CSC_VOLUME_CONDITION = ''VOLUME_CONDITION''"
| "controller_rpc_string CSC_GET_VOLUME = ''GET_VOLUME''"
| "controller_rpc_string CSC_SINGLE_NODE_MULTI_WRITER = ''SINGLE_NODE_MULTI_WRITER''"
| "controller_rpc_string CSC_MODIFY_VOLUME = ''MODIFY_VOLUME''"
| "controller_rpc_string (CSC_OTHER n) = show_int n"

datatype node_rpc = NSC_UNKNOWN | NSC_STAGE_UNSTAGE_VOLUME | NSC_GET_VOLUME_STATS | NSC_EXPAND_VOLUME
  | NSC_VOLUME_CONDITION | NSC_SINGLE_NODE_MULTI_WRITER | NSC_VOLUME_MOUNT_GROUP | NSC_OTHER int

record mount_volume =
  FsType :: string
  MountFlags :: "string list"

datatype access_type = AccessMount mount_volume | AccessBlock

text \<open>
  A message that a pointer refers to is an option, \<open>None\<close> for the nil pointer, and the getters of the
  protocol library are total: of a nil message they return the zero value of the field. Of a
  \<open>csi.VolumeCapability\<close> both the access type and the access mode may be missing.
\<close>

record VolumeCapability_AccessMode =
  am_Mode :: access_mode

record VolumeCapability =
  vc_AccessType :: "access_type option"
  vc_AccessMode :: "VolumeCapability_AccessMode option"

definition GetMount :: "VolumeCapability \<Rightarrow> mount_volume option" where
  "GetMount c = (case vc_AccessType c of Some (AccessMount m) \<Rightarrow> Some m | _ \<Rightarrow> None)"

definition AccessMode_GetMode :: "VolumeCapability_AccessMode option \<Rightarrow> access_mode" where
  "AccessMode_GetMode m = (case m of Some a \<Rightarrow> am_Mode a | None \<Rightarrow> AM_UNKNOWN)"

definition GetMode :: "VolumeCapability \<Rightarrow> access_mode" where
  "GetMode c = AccessMode_GetMode (vc_AccessMode c)"

text \<open>
  The capability messages. The type of a service capability is a \<open>oneof\<close> with the one alternative \<open>Rpc\<close>,
  which is nil when it is not set.
\<close>

record ControllerServiceCapability_RPC =
  crpc_Type :: controller_rpc

record ControllerServiceCapability =
  csc_Rpc :: "ControllerServiceCapability_RPC option"

record NodeServiceCapability_RPC =
  nrpc_Type :: node_rpc

record NodeServiceCapability =
  nsc_Rpc :: "NodeServiceCapability_RPC option"

definition controller_GetType :: "ControllerServiceCapability \<Rightarrow> controller_rpc" where
  "controller_GetType c = (case csc_Rpc c of Some r \<Rightarrow> crpc_Type r | None \<Rightarrow> CSC_UNKNOWN)"

definition node_GetType :: "NodeServiceCapability \<Rightarrow> node_rpc" where
  "node_GetType c = (case nsc_Rpc c of Some r \<Rightarrow> nrpc_Type r | None \<Rightarrow> NSC_UNKNOWN)"

text \<open>The constructors of the messages, from \<open>utils.go\<close>.\<close>

definition NewVolumeCapabilityAccessMode :: "access_mode \<Rightarrow> VolumeCapability_AccessMode" where
  "NewVolumeCapabilityAccessMode m = \<lparr>am_Mode = m\<rparr>"

definition NewControllerServiceCapability :: "controller_rpc \<Rightarrow> ControllerServiceCapability" where
  "NewControllerServiceCapability c = \<lparr>csc_Rpc = Some \<lparr>crpc_Type = c\<rparr>\<rparr>"

definition NewNodeServiceCapability :: "node_rpc \<Rightarrow> NodeServiceCapability" where
  "NewNodeServiceCapability c = \<lparr>nsc_Rpc = Some \<lparr>nrpc_Type = c\<rparr>\<rparr>"

lemma New_getters [simp]:
  "controller_GetType (NewControllerServiceCapability c) = c"
  "node_GetType (NewNodeServiceCapability n) = n"
  "am_Mode (NewVolumeCapabilityAccessMode m) = m"
  by (simp_all add: controller_GetType_def NewControllerServiceCapability_def node_GetType_def
      NewNodeServiceCapability_def NewVolumeCapabilityAccessMode_def)

subsection \<open>driver.go\<close>

text \<open>\<open>VC\<close> is nil before it is set, which the default server tells from an empty list.\<close>

record CSIDriver =
  csi_Name :: string
  csi_NodeID :: string
  csi_Version :: string
  csi_Cap :: "ControllerServiceCapability list"
  csi_VC :: "VolumeCapability_AccessMode list option"
  csi_NSCap :: "NodeServiceCapability list"

definition NewCSIDriver :: "string \<Rightarrow> string \<Rightarrow> string \<Rightarrow> CSIDriver option" where
  "NewCSIDriver name v nodeID =
     (if name = '''' then None
      else if nodeID = '''' then None
      else Some \<lparr>csi_Name = name, csi_NodeID = nodeID, csi_Version = v,
        csi_Cap = [], csi_VC = None, csi_NSCap = []\<rparr>)"

definition ValidateControllerServiceRequest :: "'a CSIDriver_scheme \<Rightarrow> controller_rpc \<Rightarrow> go_error option" where
  "ValidateControllerServiceRequest d c =
     (if c = CSC_UNKNOWN then None
      else if list_ex (\<lambda>cap. c = controller_GetType cap) (csi_Cap d) then None
      else Some (StatusError InvalidArgument (controller_rpc_string c)))"

definition AddControllerServiceCapabilities :: "controller_rpc list \<Rightarrow> 'a CSIDriver_scheme \<Rightarrow> 'a CSIDriver_scheme" where
  "AddControllerServiceCapabilities cl d = d\<lparr>csi_Cap := fold (\<lambda>c csc. csc @ [NewControllerServiceCapability c]) cl []\<rparr>"

definition AddNodeServiceCapabilities :: "node_rpc list \<Rightarrow> 'a CSIDriver_scheme \<Rightarrow> 'a CSIDriver_scheme" where
  "AddNodeServiceCapabilities nl d = d\<lparr>csi_NSCap := fold (\<lambda>n nsc. nsc @ [NewNodeServiceCapability n]) nl []\<rparr>"

definition AddVolumeCapabilityAccessModes :: "access_mode list \<Rightarrow> 'a CSIDriver_scheme \<Rightarrow> 'a CSIDriver_scheme" where
  "AddVolumeCapabilityAccessModes vc d = d\<lparr>csi_VC := Some (fold (\<lambda>c vca. vca @ [NewVolumeCapabilityAccessMode c]) vc [])\<rparr>"

definition GetVolumeCapabilityAccessModes :: "'a CSIDriver_scheme \<Rightarrow> VolumeCapability_AccessMode list option" where
  "GetVolumeCapabilityAccessModes d = csi_VC d"

subsection \<open>utils.go\<close>

definition ParseEndpoint :: "string \<Rightarrow> (string \<times> string) result" where
  "ParseEndpoint ep =
     (let bad = Inl (PlainError (''invalid endpoint: '' @ ep)) in
      if has_prefix (to_lower ep) ''unix://'' \<or> has_prefix (to_lower ep) ''tcp://'' then
        (case cut ''://'' ep of
           Some (a, b) \<Rightarrow> if b \<noteq> '''' then Inr (a, b) else bad
         | None \<Rightarrow> Inl (Panic ''index out of range''))
      else bad)"

definition getLogLevel :: "string \<Rightarrow> nat" where
  "getLogLevel rpc =
     (if rpc = ''/csi.v1.Identity/Probe'' \<or> rpc = ''/csi.v1.Node/NodeGetCapabilities'' \<or>
         rpc = ''/csi.v1.Node/NodeGetVolumeStats''
      then 6 else 2)"

text \<open>
  The interceptor: the lines it logs at which level (0 for an error), around the handler. The
  printers of requests and responses, which strip secrets, are parameters.
\<close>

definition logGRPC ::
    "('req \<Rightarrow> string) \<Rightarrow> ('resp \<Rightarrow> string) \<Rightarrow> string \<Rightarrow> ('req \<Rightarrow> 's \<Rightarrow> 'resp result \<times> 's)
      \<Rightarrow> 'req \<Rightarrow> 's \<Rightarrow> ('resp result \<times> (nat \<times> string) list) \<times> 's" where
  "logGRPC stripReq stripResp fullMethod handler req s =
     (let level = getLogLevel fullMethod;
          before = [(level, ''GRPC call: '' @ fullMethod), (level, ''GRPC request: '' @ stripReq req)]
      in case handler req s of (resp, s') \<Rightarrow>
           ((resp, before @ (case resp of
               Inl err \<Rightarrow> [(0, ''GRPC error: '' @ error_text err)]
             | Inr r \<Rightarrow> [(level, ''GRPC response: '' @ stripResp r)])), s'))"

subsection \<open>The default servers\<close>

text \<open>Each default server is an object with a pointer to the driver that it answers for.\<close>

record DefaultControllerServer =
  dcs_Driver :: CSIDriver

record DefaultNodeServer =
  dns_Driver :: CSIDriver

record DefaultIdentityServer =
  dids_Driver :: CSIDriver

definition NewDefaultNodeServer :: "CSIDriver \<Rightarrow> DefaultNodeServer" where
  "NewDefaultNodeServer d = \<lparr>dns_Driver = d\<rparr>"

definition NewDefaultIdentityServer :: "CSIDriver \<Rightarrow> DefaultIdentityServer" where
  "NewDefaultIdentityServer d = \<lparr>dids_Driver = d\<rparr>"

definition NewDefaultControllerServer :: "CSIDriver \<Rightarrow> DefaultControllerServer" where
  "NewDefaultControllerServer d = \<lparr>dcs_Driver = d\<rparr>"

definition unimplemented :: "'a result" where
  "unimplemented = Inl (StatusError Unimplemented '''')"

text \<open>\<open>DefaultControllerServer.ValidateVolumeCapabilities\<close>; the response's message is the result.\<close>

fun default_validate_loop :: "VolumeCapability_AccessMode list \<Rightarrow> VolumeCapability list \<Rightarrow> string result" where
  "default_validate_loop modes [] = Inr ''''"
| "default_validate_loop modes (c # cs) =
     (if list_ex (\<lambda>c1. am_Mode c1 = GetMode c) modes then default_validate_loop modes cs
      else Inl (StatusError InvalidArgument (''Driver does not support mode:'' @ access_mode_string (GetMode c))))"

definition default_ValidateVolumeCapabilities :: "DefaultControllerServer \<Rightarrow> VolumeCapability list \<Rightarrow> string result" where
  "default_ValidateVolumeCapabilities cs caps =
     (case csi_VC (dcs_Driver cs) of
        None \<Rightarrow> Inl (StatusError InvalidArgument ''Driver volume capabilities are not set'')
      | Some modes \<Rightarrow> default_validate_loop modes caps)"

definition default_ControllerGetCapabilities :: "DefaultControllerServer \<Rightarrow> ControllerServiceCapability list result" where
  "default_ControllerGetCapabilities cs = Inr (csi_Cap (dcs_Driver cs))"

definition default_GetPluginInfo :: "DefaultIdentityServer \<Rightarrow> (string \<times> string) result" where
  "default_GetPluginInfo ids =
     (if csi_Name (dids_Driver ids) = '''' then Inl (StatusError Unavailable ''Driver name not configured'')
      else if csi_Version (dids_Driver ids) = '''' then Inl (StatusError Unavailable ''Driver is missing version'')
      else Inr (csi_Name (dids_Driver ids), csi_Version (dids_Driver ids)))"

definition default_NodeGetInfo :: "DefaultNodeServer \<Rightarrow> string result" where
  "default_NodeGetInfo ns = Inr (csi_NodeID (dns_Driver ns))"

definition default_NodeGetCapabilities :: "DefaultNodeServer \<Rightarrow> NodeServiceCapability list result" where
  "default_NodeGetCapabilities ns = Inr (csi_NSCap (dns_Driver ns))"

subsection \<open>Properties\<close>

lemma append_loop: "fold (\<lambda>c acc. acc @ [f c]) xs acc = acc @ map f xs"
  by (induction xs arbitrary: acc) auto

lemma Add_simps [simp]:
  "csi_Cap (AddControllerServiceCapabilities cl d) = map NewControllerServiceCapability cl"
  "csi_NSCap (AddNodeServiceCapabilities nl d) = map NewNodeServiceCapability nl"
  "csi_VC (AddVolumeCapabilityAccessModes vc d) = Some (map NewVolumeCapabilityAccessMode vc)"
  by (simp_all add: AddControllerServiceCapabilities_def AddNodeServiceCapabilities_def
      AddVolumeCapabilityAccessModes_def append_loop)

text \<open>A driver that was given capabilities accepts exactly the requests of these (and the unknown one).\<close>

lemma ValidateControllerServiceRequest_added:
  "ValidateControllerServiceRequest (AddControllerServiceCapabilities cl d) c = None \<longleftrightarrow> c = CSC_UNKNOWN \<or> c \<in> set cl"
  by (auto simp: ValidateControllerServiceRequest_def list_ex_iff)

lemma default_validate_loop_Inr:
  "default_validate_loop modes caps = Inr m \<longleftrightarrow> m = '''' \<and> (\<forall>c\<in>set caps. GetMode c \<in> am_Mode ` set modes)"
  by (induction modes caps rule: default_validate_loop.induct) (auto simp: list_ex_iff image_iff eq_commute [of "am_Mode _"])

text \<open>Lower-casing works rune by rune, so a prefix of its result comes from a prefix of the string.\<close>

lemma to_lower_K: "to_lower (rune_K @ s) = CHR ''k'' # to_lower s"
  by (subst to_lower.simps) (simp add: rune_K_def has_prefix_def)

lemma to_lower_dotted_I: "to_lower (rune_dotted_I @ s) = CHR ''i'' # to_lower s"
  by (subst to_lower.simps) (simp add: rune_dotted_I_def rune_K_def has_prefix_def)

lemma to_lower_Cons:
  "\<not> has_prefix (c # s) rune_K \<Longrightarrow> \<not> has_prefix (c # s) rune_dotted_I \<Longrightarrow>
     to_lower (c # s) = ascii_lower c # to_lower s"
  by (subst to_lower.simps) simp

lemma to_lower_Nil [simp]: "to_lower [] = []"
  by (subst to_lower.simps) simp

lemma to_lower_cases:
  obtains "s = []"
  | t where "s = rune_K @ t" | t where "s = rune_dotted_I @ t"
  | c t where "s = c # t" "\<not> has_prefix s rune_K" "\<not> has_prefix s rune_dotted_I"
  by (metis has_prefix_iff list.exhaust)

lemma to_lower_rune_induct [case_names Nil K dotted_I Cons]:
  assumes "P []" "\<And>t. P t \<Longrightarrow> P (rune_K @ t)" "\<And>t. P t \<Longrightarrow> P (rune_dotted_I @ t)"
    and "\<And>c t. \<not> has_prefix (c # t) rune_K \<Longrightarrow> \<not> has_prefix (c # t) rune_dotted_I \<Longrightarrow> P t \<Longrightarrow> P (c # t)"
  shows "P s"
proof (induction s rule: length_induct)
  case (1 s)
  show ?case
    by (cases s rule: to_lower_cases) (use 1 assms in \<open>auto simp: rune_K_def rune_dotted_I_def\<close>)
qed

lemma to_lower_eq_append:
  "to_lower s = p @ q \<Longrightarrow> \<exists>a b. s = a @ b \<and> to_lower a = p \<and> to_lower b = q"
proof (induction p arbitrary: s)
  case Nil
  then show ?case by (intro exI [of _ "[]"] exI [of _ s]) simp
next
  case (Cons x p)
  show ?case
  proof (cases s rule: to_lower_cases)
    case 1
    then show ?thesis using Cons.prems by simp
  next
    case (2 t)
    then have "to_lower t = p @ q" "x = CHR ''k''" using Cons.prems by (simp_all add: to_lower_K)
    then show ?thesis using Cons.IH 2 by (metis append.assoc to_lower_K)
  next
    case (3 t)
    then have "to_lower t = p @ q" "x = CHR ''i''" using Cons.prems by (simp_all add: to_lower_dotted_I)
    then show ?thesis using Cons.IH 3 by (metis append.assoc to_lower_dotted_I)
  next
    case (4 c t)
    then have t: "to_lower t = p @ q" "x = ascii_lower c" using Cons.prems by (simp_all add: to_lower_Cons)
    from Cons.IH [OF t(1)] obtain a b where ab: "t = a @ b" "to_lower a = p" "to_lower b = q" by blast
    have "\<not> has_prefix (c # a) rune_K" "\<not> has_prefix (c # a) rune_dotted_I"
      using 4 ab(1) unfolding has_prefix_iff by (metis append_Cons append.assoc)+
    then show ?thesis using 4 ab t(2) by (intro exI [of _ "c # a"] exI [of _ b]) (simp add: to_lower_Cons)
  qed
qed

lemma ascii_lower_keeps:
  assumes "c \<in> {CHR '':'', CHR ''/''}"
  shows "ascii_lower x = c \<longleftrightarrow> x = c"
proof (cases "0x41 \<le> (of_char x :: nat) \<and> (of_char x :: nat) \<le> 0x5A")
  case True
  then have "(of_char (ascii_lower x) :: nat) = of_char x + 0x20" by (simp add: ascii_lower_def)
  then have "0x61 \<le> (of_char (ascii_lower x) :: nat)" using True by simp
  then have "ascii_lower x \<noteq> c" "x \<noteq> c" using assms True by auto
  then show ?thesis by simp
next
  case False
  then show ?thesis by (auto simp: ascii_lower_def Let_def)
qed

lemma to_lower_eq_mark: "to_lower s = c # t \<Longrightarrow> c \<in> {CHR '':'', CHR ''/''} \<Longrightarrow> \<exists>u. s = c # u \<and> to_lower u = t"
  by (cases s rule: to_lower_cases) (auto simp: to_lower_K to_lower_dotted_I to_lower_Cons ascii_lower_keeps)

lemma colon_to_lower: "CHR '':'' \<in> set s \<Longrightarrow> CHR '':'' \<in> set (to_lower s)"
proof (induction s rule: to_lower_rune_induct)
  case (K t)
  then show ?case unfolding to_lower_K by (auto simp: rune_K_def)
next
  case (dotted_I t)
  then show ?case unfolding to_lower_dotted_I by (auto simp: rune_dotted_I_def)
next
  case (Cons c t)
  then show ?case by (auto simp: to_lower_Cons ascii_lower_def)
qed simp

lemma cut_first: "CHR '':'' \<notin> set a \<Longrightarrow> cut ''://'' (a @ ''://'' @ b) = Some (a, b)"
  by (induction a) (auto simp: has_prefix_def)

lemma to_lower_scheme:
  assumes "has_prefix (to_lower ep) (p @ ''://'')" "CHR '':'' \<notin> set p"
  shows "\<exists>s a. ep = s @ ''://'' @ a \<and> to_lower s = p \<and> cut ''://'' ep = Some (s, a)"
proof -
  obtain q where "to_lower ep = p @ (''://'' @ q)" using assms(1) by (auto simp: has_prefix_iff)
  from to_lower_eq_append [OF this] obtain s b where s: "ep = s @ b" "to_lower s = p" "to_lower b = ''://'' @ q"
    by blast
  obtain b1 where b1: "b = CHR '':'' # b1" "to_lower b1 = ''//'' @ q" using to_lower_eq_mark [OF s(3) [unfolded append_Cons]] by auto
  obtain b2 where b2: "b1 = CHR ''/'' # b2" "to_lower b2 = ''/'' @ q" using to_lower_eq_mark [OF b1(2) [unfolded append_Cons]] by auto
  obtain a where "b2 = CHR ''/'' # a" using to_lower_eq_mark [OF b2(2) [unfolded append_Cons]] by auto
  then have "b = ''://'' @ a" using b1 b2 by simp
  moreover have "CHR '':'' \<notin> set s" using colon_to_lower [of s] s(2) assms(2) by blast
  ultimately show ?thesis using s cut_first [of s a] by auto
qed

lemma to_lower_append_colon: "to_lower (s @ CHR '':'' # t) = to_lower s @ to_lower (CHR '':'' # t)"
proof (induction s rule: to_lower_rune_induct)
  case (Cons c u)
  have "\<not> has_prefix (c # (u @ CHR '':'' # t)) rune_K" "\<not> has_prefix (c # (u @ CHR '':'' # t)) rune_dotted_I"
    using Cons(1,2) by (cases u; cases "tl u"; auto simp: has_prefix_def rune_K_def rune_dotted_I_def)+
  then show ?case using Cons by (simp add: to_lower_Cons)
qed (simp_all add: to_lower_K to_lower_dotted_I)

text \<open>
  C29. \<open>ParseEndpoint\<close> accepts exactly the endpoints that are one of the two schemes, in any
  spelling, then \<open>://\<close> and a non-empty address; it returns the scheme and the address as they are
  written. Every other endpoint gets the error of the code, never a panic.
\<close>

theorem parse_endpoint_correct:
  "(ParseEndpoint ep = Inr (s, a) \<longleftrightarrow> ep = s @ ''://'' @ a \<and> a \<noteq> '''' \<and> to_lower s \<in> {''unix'', ''tcp''})
   \<and> ParseEndpoint ep \<in> insert (Inl (PlainError (''invalid endpoint: '' @ ep))) (range Inr)"
proof (cases "has_prefix (to_lower ep) ''unix://'' \<or> has_prefix (to_lower ep) ''tcp://''")
  case True
  then obtain p where p: "has_prefix (to_lower ep) (p @ ''://'')" "p \<in> {''unix'', ''tcp''}" by force
  then have "CHR '':'' \<notin> set p" by auto
  from to_lower_scheme [OF p(1) this] obtain s' a' where
    sa: "ep = s' @ ''://'' @ a'" "to_lower s' = p" "cut ''://'' ep = Some (s', a')" by blast
  have run: "ParseEndpoint ep = (if a' \<noteq> '''' then Inr (s', a') else Inl (PlainError (''invalid endpoint: '' @ ep)))"
    using True sa(3) by (simp add: ParseEndpoint_def Let_def)
  have "s = s' \<and> a = a'" if "ep = s @ ''://'' @ a" "to_lower s \<in> {''unix'', ''tcp''}"
  proof -
    have "CHR '':'' \<notin> set s" using colon_to_lower [of s] that(2) by auto
    then show ?thesis using cut_first [of s a] sa(3) that(1) by simp
  qed
  then show ?thesis using run sa p(2) by auto
next
  case False
  have "has_prefix (to_lower ep) (to_lower s @ ''://'')" if "ep = s @ ''://'' @ a"
    using that to_lower_append_colon [of s "''//'' @ a"]
    by (simp add: to_lower_Cons has_prefix_def rune_K_def rune_dotted_I_def ascii_lower_def)
  then show ?thesis using False by (auto simp: ParseEndpoint_def Let_def)
qed

end
