(* ===== verification/Azurelustre.thy ===== *)
theory Azurelustre
  imports Csi_Common Volume_Locks Dynamic_Provisioning
begin

text \<open>
  \<open>pkg/azurelustre/azurelustre.go\<close> and \<open>version.go\<close>: the driver object, its construction
  (\<open>NewDriver\<close>), the capabilities it advertises when it runs, the subnet of a new cluster and
  the removal of the start-up taint. The embedded \<open>CSIDriver\<close> is the base of the record.
  What lies outside the repository is a parameter: the environment, the cloud configuration loader,
  the Azure SDK and the Kubernetes API server, which answers from the history of the calls made.
\<close>

abbreviation AgentNotReadyNodeTaintKeySuffix :: string where "AgentNotReadyNodeTaintKeySuffix \<equiv> ''/agent-not-ready''"
abbreviation DefaultDriverName :: string where "DefaultDriverName \<equiv> ''azurelustre.csi.azure.com''"
abbreviation DefaultAzureConfigFileEnv :: string where "DefaultAzureConfigFileEnv \<equiv> ''AZURE_CONFIG_FILE''"
abbreviation DefaultConfigFilePathLinux :: string where "DefaultConfigFilePathLinux \<equiv> ''/etc/kubernetes/azure.json''"

subsection \<open>Kubernetes API\<close>

record Taint =
  taint_Key :: string
  taint_Value :: string
  taint_Effect :: string

text \<open>A patch operation; its value is null when the slice is nil.\<close>

record JSONPatch =
  patch_OP :: string
  patch_Path :: string
  patch_Value :: "Taint list option"

datatype k8s_event = NodeGet string | NodePatch string "JSONPatch list" | Sleep int
  | Crash string  \<comment> \<open>a panic of the goroutine, which ends the process\<close>

type_synonym k8s_history = "k8s_event list"

record KubeClient =
  kc_Get :: "k8s_history \<Rightarrow> string \<Rightarrow> Taint list option result"
  kc_Patch :: "k8s_history \<Rightarrow> string \<Rightarrow> JSONPatch list \<Rightarrow> go_error option"

text \<open>
  A non-nil value of \<open>kubernetes.Interface\<close> holds a pointer to a client, and the pointer may be nil. The nil
  interface itself is \<open>None\<close> where an option of this type is used. \<open>rest.Config\<close> is passed on unread.
\<close>

datatype Clientset = NilClientset | Clientset KubeClient

record rest_Config =
  rest_Host :: string

text \<open>\<open>wait.Backoff\<close> with neither jitter nor a cap; durations are nanoseconds.\<close>

record Backoff =
  bo_Duration :: int
  bo_Factor :: rat
  bo_Steps :: nat

subsection \<open>The driver object\<close>

text \<open>The fields of the cloud configuration that the driver reads.\<close>

record Cloud =
  SubscriptionID :: string
  NetworkResourceSubscriptionID :: string
  cloud_ResourceGroup :: string
  cloud_VnetResourceGroup :: string
  cloud_VnetName :: string
  cloud_SubnetName :: string

record Driver = CSIDriver +
  enableAzureLustreMockMount :: bool
  enableAzureLustreMockDynProv :: bool
  workingMountDir :: string
  volLocks :: volumeLocks
  cloud :: Cloud
  drv_resourceGroup :: string
  drv_location :: string
  dynamicProvisioner :: DynamicProvisionerInterface
  drv_removeNotReadyTaint :: bool
  kubeClient :: "Clientset option"
  taintRemovalInitialDelay :: int
  taintRemovalBackoff :: Backoff

record DriverOptions =
  opt_NodeID :: string
  opt_DriverName :: string
  opt_EnableAzureLustreMockMount :: bool
  opt_EnableAzureLustreMockDynProv :: bool
  opt_WorkingMountDir :: string
  opt_RemoveNotReadyTaint :: bool

definition controllerServiceCapabilities :: "controller_rpc list" where
  "controllerServiceCapabilities = [CSC_CREATE_DELETE_VOLUME, CSC_SINGLE_NODE_MULTI_WRITER]"

definition volumeCapabilities :: "access_mode list" where
  "volumeCapabilities = [SINGLE_NODE_WRITER, SINGLE_NODE_READER_ONLY, SINGLE_NODE_SINGLE_WRITER,
     SINGLE_NODE_MULTI_WRITER, MULTI_NODE_READER_ONLY, MULTI_NODE_SINGLE_WRITER, MULTI_NODE_MULTI_WRITER]"

definition nodeServiceCapabilities :: "node_rpc list" where
  "nodeServiceCapabilities = [NSC_GET_VOLUME_STATS, NSC_SINGLE_NODE_MULTI_WRITER]"

subsection \<open>Version and user agent\<close>

record build_info =
  driverVersion :: string
  gitCommit :: string
  buildDate :: string
  rt_Version :: string
  rt_Compiler :: string
  rt_GOOS :: string
  rt_GOARCH :: string

record VersionInfo =
  vi_DriverName :: string
  vi_DriverVersion :: string
  vi_GitCommit :: string
  vi_BuildDate :: string
  vi_GoVersion :: string
  vi_Compiler :: string
  vi_Platform :: string

definition GetVersion :: "build_info \<Rightarrow> string \<Rightarrow> VersionInfo" where
  "GetVersion b driverName = \<lparr>vi_DriverName = driverName, vi_DriverVersion = driverVersion b,
     vi_GitCommit = gitCommit b, vi_BuildDate = buildDate b, vi_GoVersion = rt_Version b,
     vi_Compiler = rt_Compiler b, vi_Platform = rt_GOOS b @ ''/'' @ rt_GOARCH b\<rparr>"

text \<open>The YAML printer is a parameter.\<close>

definition GetVersionYAML :: "(VersionInfo \<Rightarrow> string result) \<Rightarrow> build_info \<Rightarrow> string \<Rightarrow> string result" where
  "GetVersionYAML marshal b driverName =
     (case marshal (GetVersion b driverName) of
        Inl err \<Rightarrow> Inl err
      | Inr marshalled \<Rightarrow> Inr (trim_space marshalled))"

definition GetUserAgent :: "build_info \<Rightarrow> string \<Rightarrow> string \<Rightarrow> string \<Rightarrow> string" where
  "GetUserAgent b driverName customUserAgent0 userAgentSuffix0 =
     (let customUserAgent = trim_space customUserAgent0;
          userAgent = (if customUserAgent = '''' then
              driverName @ ''/'' @ driverVersion b @ '' '' @ rt_Compiler b @ ''/'' @ rt_Version b @
              '' ('' @ rt_GOARCH b @ ''-'' @ rt_GOOS b @ '')'' else customUserAgent);
          userAgentSuffix = trim_space userAgentSuffix0
      in if userAgentSuffix \<noteq> '''' then userAgent @ '' '' @ userAgentSuffix else userAgent)"

subsection \<open>Construction\<close>

record Config =
  cfg_UserAgent :: string
  cfg_AADClientID :: string
  cfg_UseManagedIdentityExtension :: bool
  cfg_UserAssignedIdentityID :: string
  cfg_ResourceGroup :: string
  cfg_Location :: string
  cfg_SubscriptionID :: string

type_synonym env = "string \<rightharpoonup> string"

text \<open>
  What \<open>NewDriver\<close> takes from outside: the configuration in a file, the cloud object built from
  a configuration, the in-cluster configuration and the Kubernetes client for it, and the two factories of
  Azure clients, each with the credential that the SDK takes from the environment; \<open>None\<close> is the
  nil factory that comes with an error.
\<close>

record StorageClientFactory =
  NewSKUsClient :: SKUsClient
  NewManagementClient :: ManagementClient
  NewAmlFilesystemsClient :: AmlFilesystemsClient

record NetworkClientFactory =
  NewVirtualNetworksClient :: VirtualNetworksClient

record outside =
  out_build :: build_info
  out_Load :: "string \<Rightarrow> Config option"
  out_InitializeCloud :: "Config \<Rightarrow> Cloud"
  out_InClusterConfig :: "rest_Config result"
  out_NewForConfig :: "rest_Config \<Rightarrow> KubeClient result"
  out_StorageFactory :: "env \<Rightarrow> string \<Rightarrow> StorageClientFactory option"
  out_NetworkFactory :: "env \<Rightarrow> string \<Rightarrow> NetworkClientFactory option"

definition emptyCloud :: Cloud where
  "emptyCloud = \<lparr>SubscriptionID = '''', NetworkResourceSubscriptionID = '''', cloud_ResourceGroup = '''',
     cloud_VnetResourceGroup = '''', cloud_VnetName = '''', cloud_SubnetName = ''''\<rparr>"

definition emptyProvisioner :: DynamicProvisioner where
  "emptyProvisioner = \<lparr>amlFilesystemsClient = None, mgmtClient = None, skusClient = None, vnetClient = None\<rparr>"

definition baseDriver :: "outside \<Rightarrow> DriverOptions \<Rightarrow> Driver" where
  "baseDriver out options = \<lparr>csi_Name = opt_DriverName options, csi_NodeID = opt_NodeID options,
     csi_Version = driverVersion (out_build out), csi_Cap = [], csi_VC = None, csi_NSCap = [],
     enableAzureLustreMockMount = opt_EnableAzureLustreMockMount options,
     enableAzureLustreMockDynProv = opt_EnableAzureLustreMockDynProv options,
     workingMountDir = opt_WorkingMountDir options, volLocks = newVolumeLocks, cloud = emptyCloud,
     drv_resourceGroup = '''', drv_location = '''', dynamicProvisioner = dp_interface emptyProvisioner,
     drv_removeNotReadyTaint = opt_RemoveNotReadyTaint options, kubeClient = None,
     taintRemovalInitialDelay = 0, taintRemovalBackoff = \<lparr>bo_Duration = 0, bo_Factor = 0, bo_Steps = 0\<rparr>\<rparr>"

definition credential_file :: "env \<Rightarrow> string" where
  "credential_file e =
     (case e DefaultAzureConfigFileEnv of
        Some f \<Rightarrow> if trim_space f \<noteq> '''' then f else DefaultConfigFilePathLinux
      | None \<Rightarrow> DefaultConfigFilePathLinux)"

text \<open>The client identity: the environment's, or else the configured managed identity, which is exported.\<close>

definition client_identity :: "Config \<Rightarrow> env \<Rightarrow> Config \<times> env" where
  "client_identity config e =
     (let clientID = (case e ''AZURE_CLIENT_ID'' of None \<Rightarrow> '''' | Some v \<Rightarrow> v) in
      if clientID \<noteq> '''' then (config\<lparr>cfg_AADClientID := clientID\<rparr>, e)
      else if cfg_UseManagedIdentityExtension config \<and> cfg_UserAssignedIdentityID config \<noteq> '''' then
        (config\<lparr>cfg_AADClientID := cfg_UserAssignedIdentityID config\<rparr>,
         e(''AZURE_CLIENT_ID'' \<mapsto> cfg_UserAssignedIdentityID config))
      else (config, e))"

text \<open>
  When the client cannot be built, the nil pointer that \<open>NewForConfig\<close> returns is converted to the
  interface, which is then not nil.
\<close>

definition getKubeClient :: "outside \<Rightarrow> Clientset option \<times> go_error option" where
  "getKubeClient out =
     (case out_InClusterConfig out of
        Inl err \<Rightarrow> (None, Some (PlainError (''failed to get in-cluster config: '' @ error_text err)))
      | Inr config \<Rightarrow>
          (case out_NewForConfig out config of
             Inl err \<Rightarrow> (Some NilClientset, Some err)
           | Inr c \<Rightarrow> (Some (Clientset c), None)))"

text \<open>
  How the construction ends: by \<open>klog.Fatalf\<close>, which ends the process, by a panic, or with the driver
  and the environment. The errors of the factories are only logged; calling a nil factory panics.
\<close>

datatype startup = Fatalf string | Panics string | Started Driver env

definition NewDriver :: "outside \<Rightarrow> DriverOptions \<Rightarrow> env \<Rightarrow> startup" where
  "NewDriver out options e =
     (let d = baseDriver out options in
      case out_Load out (credential_file e) of
        None \<Rightarrow>
          (if enableAzureLustreMockDynProv d then
             Started (d\<lparr>dynamicProvisioner := dp_interface emptyProvisioner, cloud := emptyCloud\<rparr>) e
           else Fatalf ''no cloud config provided, error'')
      | Some config0 \<Rightarrow>
          (let config1 = config0\<lparr>cfg_UserAgent := GetUserAgent (out_build out) (csi_Name d) '''' ''''\<rparr>;
               (config, e') = client_identity config1 e;
               az = out_InitializeCloud out config;
               d1 = d\<lparr>cloud := az, drv_resourceGroup := cfg_ResourceGroup config,
                 drv_location := cfg_Location config, kubeClient := fst (getKubeClient out),
                 taintRemovalInitialDelay := 1000000000,
                 taintRemovalBackoff := \<lparr>bo_Duration = 500000000, bo_Factor = 2, bo_Steps = 10\<rparr>\<rparr>;
               storageClientFactory = out_StorageFactory out e' (cfg_SubscriptionID config);
               subsID = (if NetworkResourceSubscriptionID az \<noteq> '''' then NetworkResourceSubscriptionID az
                         else SubscriptionID az);
               networkClientFactory = out_NetworkFactory out e' subsID
           in case (networkClientFactory, storageClientFactory) of
                (Some nf, Some sf) \<Rightarrow>
                  Started (d1\<lparr>dynamicProvisioner := dp_interface
                    \<lparr>amlFilesystemsClient = Some (NewAmlFilesystemsClient sf), mgmtClient = Some (NewManagementClient sf),
                     skusClient = Some (NewSKUsClient sf), vnetClient = Some (NewVirtualNetworksClient nf)\<rparr>\<rparr>) e'
              | _ \<Rightarrow> Panics ''nil pointer dereference''))"

subsection \<open>Subnets\<close>

definition subnetTemplate :: "string \<Rightarrow> string \<Rightarrow> string \<Rightarrow> string \<Rightarrow> string" where
  "subnetTemplate sub rg vnet subnet = ''/subscriptions/'' @ sub @ ''/resourceGroups/'' @ rg @
     ''/providers/Microsoft.Network/virtualNetworks/'' @ vnet @ ''/subnets/'' @ subnet"

definition populateSubnetPropertiesFromCloudConfig :: "Driver \<Rightarrow> SubnetProperties \<Rightarrow> SubnetProperties" where
  "populateSubnetPropertiesFromCloudConfig d subnetInfo =
     (let c = cloud d;
          subsID = (if NetworkResourceSubscriptionID c \<noteq> '''' then NetworkResourceSubscriptionID c
                    else SubscriptionID c);
          rg = (if VnetResourceGroup subnetInfo = '''' then
                  (if cloud_VnetResourceGroup c \<noteq> '''' then cloud_VnetResourceGroup c else cloud_ResourceGroup c)
                else VnetResourceGroup subnetInfo);
          vnet = (if VnetName subnetInfo = '''' then cloud_VnetName c else VnetName subnetInfo);
          subnet = (if SubnetName subnetInfo = '''' then cloud_SubnetName c else SubnetName subnetInfo)
      in \<lparr>SubnetID = subnetTemplate subsID rg vnet subnet, VnetName = vnet, VnetResourceGroup = rg, SubnetName = subnet\<rparr>)"


subsection \<open>Running and identity\<close>

text \<open>The part of \<open>Run\<close> that changes the driver: the capabilities it advertises.\<close>

definition Run_capabilities :: "Driver \<Rightarrow> Driver" where
  "Run_capabilities d =
     AddNodeServiceCapabilities nodeServiceCapabilities
       (AddVolumeCapabilityAccessModes volumeCapabilities
         (AddControllerServiceCapabilities controllerServiceCapabilities d))"

definition GetPluginInfo :: "Driver \<Rightarrow> (string \<times> string) result" where
  "GetPluginInfo d =
     (if csi_Name d = '''' then Inl (StatusError Unavailable ''Driver name not configured'')
      else if csi_Version d = '''' then Inl (StatusError Unavailable ''Driver is missing version'')
      else Inr (csi_Name d, csi_Version d))"

text \<open>The response's \<open>Ready\<close> flag.\<close>

definition Probe :: "Driver \<Rightarrow> bool result" where
  "Probe d = Inr True"

datatype plugin_service = SERVICE_UNKNOWN | CONTROLLER_SERVICE | VOLUME_ACCESSIBILITY_CONSTRAINTS

definition GetPluginCapabilities :: "Driver \<Rightarrow> plugin_service list result" where
  "GetPluginCapabilities d = Inr [CONTROLLER_SERVICE]"

subsection \<open>The start-up taint\<close>

fun keep_taints :: "string \<Rightarrow> Taint list \<Rightarrow> Taint list option \<Rightarrow> Taint list option" where
  "keep_taints key [] acc = acc"
| "keep_taints key (t # ts) acc =
     keep_taints key ts (if taint_Key t \<noteq> key then Some (case acc of None \<Rightarrow> [t] | Some kept \<Rightarrow> kept @ [t]) else acc)"

text \<open>A nil slice is \<open>None\<close>; its length is zero.\<close>

definition slice_len :: "'a list option \<Rightarrow> nat" where
  "slice_len s = (case s of None \<Rightarrow> 0 | Some xs \<Rightarrow> length xs)"

fun removeNotReadyTaint ::
    "Clientset \<Rightarrow> string \<Rightarrow> string \<Rightarrow> k8s_history \<Rightarrow> go_error option \<times> k8s_history" where
  "removeNotReadyTaint NilClientset nodeName driverName h = (Some (Panic ''nil pointer dereference''), h)"
| "removeNotReadyTaint (Clientset clientset) nodeName driverName h =
     (let h1 = h @ [NodeGet nodeName] in
      case kc_Get clientset h nodeName of
        Inl err \<Rightarrow> (Some err, h1)
      | Inr taints \<Rightarrow>
          (let taintKeyToRemove = driverName @ AgentNotReadyNodeTaintKeySuffix;
               taintsToKeep = keep_taints taintKeyToRemove (case taints of None \<Rightarrow> [] | Some ts \<Rightarrow> ts) None
           in if slice_len taintsToKeep = slice_len taints then (None, h1)
              else
                (let patch = [\<lparr>patch_OP = ''test'', patch_Path = ''/spec/taints'', patch_Value = taints\<rparr>,
                              \<lparr>patch_OP = ''replace'', patch_Path = ''/spec/taints'', patch_Value = taintsToKeep\<rparr>]
                 in (kc_Patch clientset h1 nodeName patch, h1 @ [NodePatch nodeName patch]))))"

text \<open>
  \<open>wait.ExponentialBackoff\<close>; the sleeps are recorded in the history. It passes a panic of its condition on.
\<close>

fun ExponentialBackoff ::
    "nat \<Rightarrow> int \<Rightarrow> rat \<Rightarrow> (k8s_history \<Rightarrow> bool result \<times> k8s_history) \<Rightarrow> k8s_history \<Rightarrow> go_error option \<times> k8s_history" where
  "ExponentialBackoff 0 duration factor condition h = (Some (PlainError ''timed out waiting for the condition''), h)"
| "ExponentialBackoff (Suc steps) duration factor condition h =
     (case condition h of
        (Inl err, h1) \<Rightarrow> (Some err, h1)
      | (Inr True, h1) \<Rightarrow> (None, h1)
      | (Inr False, h1) \<Rightarrow>
          if steps = 0 then (Some (PlainError ''timed out waiting for the condition''), h1)
          else ExponentialBackoff steps
                 (if factor \<noteq> 0 then \<lfloor>of_int duration * factor\<rfloor> else duration) factor condition (h1 @ [Sleep duration]))"

text \<open>The condition of the back-off: errors are logged and retried, a panic is not recovered from.\<close>

definition removal_attempt ::
    "Clientset \<Rightarrow> string \<Rightarrow> string
      \<Rightarrow> (Clientset \<Rightarrow> string \<Rightarrow> string \<Rightarrow> k8s_history \<Rightarrow> go_error option \<times> k8s_history)
      \<Rightarrow> k8s_history \<Rightarrow> bool result \<times> k8s_history" where
  "removal_attempt k8sClient nodeName driverName removalFunc h =
     (case removalFunc k8sClient nodeName driverName h of
        (Some (Panic m), h1) \<Rightarrow> (Inl (Panic m), h1)
      | (Some err, h1) \<Rightarrow> (Inr False, h1)
      | (None, h1) \<Rightarrow> (Inr True, h1))"

definition removeTaintInBackground ::
    "Clientset \<Rightarrow> string \<Rightarrow> string \<Rightarrow> Backoff
      \<Rightarrow> (Clientset \<Rightarrow> string \<Rightarrow> string \<Rightarrow> k8s_history \<Rightarrow> go_error option \<times> k8s_history)
      \<Rightarrow> k8s_history \<Rightarrow> go_error option \<times> k8s_history" where
  "removeTaintInBackground k8sClient nodeName driverName backoff removalFunc h =
     ExponentialBackoff (bo_Steps backoff) (bo_Duration backoff) (bo_Factor backoff)
       (removal_attempt k8sClient nodeName driverName removalFunc) h"

text \<open>The events of the background task, empty when the taint is not to be removed.\<close>

definition removeNotReadyTaintIfNeeded :: "Driver \<Rightarrow> k8s_history" where
  "removeNotReadyTaintIfNeeded d =
     (case kubeClient d of
        None \<Rightarrow> []
      | Some k8sClient \<Rightarrow>
          if drv_removeNotReadyTaint d \<and> csi_NodeID d \<noteq> '''' then
            (case removeTaintInBackground k8sClient (csi_NodeID d) (csi_Name d) (taintRemovalBackoff d)
                    removeNotReadyTaint [Sleep (taintRemovalInitialDelay d)] of
               (Some (Panic m), h) \<Rightarrow> h @ [Crash m]
             | (_, h) \<Rightarrow> h)
          else [])"

text \<open>What an API server does with such a patch: all operations, or none.\<close>

fun apply_patch :: "JSONPatch list \<Rightarrow> Taint list option \<Rightarrow> Taint list option option" where
  "apply_patch [] cur = Some cur"
| "apply_patch (p # ps) cur =
     (if patch_OP p = ''test'' then (if patch_Value p = cur then apply_patch ps cur else None)
      else if patch_OP p = ''replace'' then apply_patch ps (patch_Value p)
      else None)"

lemma keep_taints_filter:
  "keep_taints key ts acc =
     (if acc = None \<and> filter (\<lambda>t. taint_Key t \<noteq> key) ts = [] then None
      else Some ((case acc of None \<Rightarrow> [] | Some kept \<Rightarrow> kept) @ filter (\<lambda>t. taint_Key t \<noteq> key) ts))"
  by (induction key ts acc rule: keep_taints.induct) (auto split: option.splits)

lemma keep_taints_len: "slice_len (keep_taints key ts None) = length (filter (\<lambda>t. taint_Key t \<noteq> key) ts)"
  by (simp add: keep_taints_filter slice_len_def)

lemma slice_len_Some [simp]: "slice_len (Some xs) = length xs"
  by (simp add: slice_len_def)

lemma filter_all: "length (filter P xs) = length xs \<longleftrightarrow> (\<forall>x\<in>set xs. P x)"
  by (metis filter_True filter_id_conv length_filter_less less_irrefl)




text \<open>The attempts of the background task and the time it sleeps.\<close>

definition gets :: "k8s_history \<Rightarrow> nat" where
  "gets h = length (filter (\<lambda>e. \<exists>n. e = NodeGet n) h)"

fun slept :: "k8s_history \<Rightarrow> int" where
  "slept [] = 0"
| "slept (Sleep n # h) = n + slept h"
| "slept (_ # h) = slept h"

lemma slept_append [simp]: "slept (h @ h') = slept h + slept h'"
  by (induction h rule: slept.induct) auto

lemma gets_append [simp]: "gets (h @ h') = gets h + gets h'"
  by (simp add: gets_def)

lemma removeNotReadyTaint_cost:
  "gets (snd (removeNotReadyTaint c n d h)) \<le> gets h + 1 \<and> slept (snd (removeNotReadyTaint c n d h)) = slept h"
  by (cases c) (auto simp: gets_def Let_def split: sum.splits)

lemma ExponentialBackoff_cost:
  assumes cost: "\<And>h. gets (snd (cond h)) \<le> gets h + 1 \<and> slept (snd (cond h)) = slept h"
    and "0 \<le> duration"
  shows "gets (snd (ExponentialBackoff steps duration 2 cond h)) \<le> gets h + steps
    \<and> slept (snd (ExponentialBackoff steps duration 2 cond h)) \<le> slept h + duration * (2 ^ (steps - 1) - 1)"
  using assms(2)
proof (induction steps arbitrary: duration h)
  case (Suc steps)
  obtain r h1 where r: "cond h = (r, h1)" by fastforce
  then have h1: "gets h1 \<le> gets h + 1" "slept h1 = slept h" using cost [of h] by simp_all
  show ?case
  proof (cases "r = Inr False \<and> steps \<noteq> 0")
    case True
    have two: "\<lfloor>of_int duration * (2 :: rat)\<rfloor> = 2 * duration"
      by (metis floor_of_int mult.commute of_int_mult of_int_numeral)
    have "(2 :: int) ^ steps = 2 * 2 ^ (steps - 1)" using True by (cases steps) auto
    then have "duration + 2 * duration * (2 ^ (steps - 1) - 1) = duration * (2 ^ steps - 1)"
      by (simp add: algebra_simps)
    then show ?thesis using Suc.IH [of "2 * duration" "h1 @ [Sleep duration]"] Suc.prems True r h1 two
      by (simp add: gets_def)
  next
    case False
    then have "snd (ExponentialBackoff (Suc steps) duration 2 cond h) = h1"
      using r by (auto split: sum.splits bool.splits)
    then show ?thesis using h1 Suc.prems by simp
  qed
qed simp

text \<open>A driver that was started with a configuration.\<close>

lemma NewDriver_configured:
  assumes "NewDriver out options e = Started d e'" "out_Load out (credential_file e) = Some config"
  shows "kubeClient d = fst (getKubeClient out)" "taintRemovalInitialDelay d = 1000000000"
    "taintRemovalBackoff d = \<lparr>bo_Duration = 500000000, bo_Factor = 2, bo_Steps = 10\<rparr>"
    "drv_removeNotReadyTaint d = opt_RemoveNotReadyTaint options" "csi_NodeID d = opt_NodeID options"
  using assms by (auto simp: NewDriver_def baseDriver_def Let_def split: prod.splits option.splits)

text \<open>
  C26. With the back-off that \<open>NewDriver\<close> configures, the background task reads the node at most
  ten times and sleeps, the initial delay included, less than 257 seconds, whatever the API server
  answers; it does nothing when the option is off, the node name is empty or there is no client. When the
  in-cluster configuration is found but no client can be built from it, the driver starts all the
  same, and the first attempt ends the process: the client is a nil pointer in a non-nil interface.
\<close>

theorem taint_removal_bounded:
  assumes "NewDriver out options e = Started d e'"
  shows "gets (removeNotReadyTaintIfNeeded d) \<le> 10
    \<and> slept (removeNotReadyTaintIfNeeded d) < 257 * 1000000000
    \<and> (opt_RemoveNotReadyTaint options = False \<or> opt_NodeID options = '''' \<or> kubeClient d = None
        \<longrightarrow> removeNotReadyTaintIfNeeded d = [])
    \<and> (\<forall>config err. out_Load out (credential_file e) \<noteq> None \<and> out_InClusterConfig out = Inr config
        \<and> out_NewForConfig out config = Inl err \<and> opt_RemoveNotReadyTaint options \<and> opt_NodeID options \<noteq> ''''
        \<longrightarrow> removeNotReadyTaintIfNeeded d = [Sleep 1000000000, Crash ''nil pointer dereference''])"
proof (cases "kubeClient d")
  case None
  have "out_Load out (credential_file e) = None" if "out_InClusterConfig out = Inr config" for config
    using that None NewDriver_configured(1) [OF assms] by (cases "out_Load out (credential_file e)")
      (auto simp: getKubeClient_def split: sum.splits)
  then show ?thesis using None by (auto simp: removeNotReadyTaintIfNeeded_def gets_def)
next
  case (Some c)
  then obtain config where "out_Load out (credential_file e) = Some config"
    using assms by (auto simp: NewDriver_def baseDriver_def Let_def split: option.splits if_splits)
  note d = NewDriver_configured [OF assms this]
  have cost: "gets (snd (removal_attempt c (csi_NodeID d) (csi_Name d) removeNotReadyTaint h)) \<le> gets h + 1
      \<and> slept (snd (removal_attempt c (csi_NodeID d) (csi_Name d) removeNotReadyTaint h)) = slept h" for h
    using removeNotReadyTaint_cost [of c "csi_NodeID d" "csi_Name d" h]
    by (auto simp: removal_attempt_def split: prod.splits option.splits go_error.splits)
  let ?R = "removeTaintInBackground c (csi_NodeID d) (csi_Name d) (taintRemovalBackoff d) removeNotReadyTaint [Sleep 1000000000]"
  have run: "removeNotReadyTaintIfNeeded d \<in> {[], snd ?R} \<union> range (\<lambda>m. snd ?R @ [Crash m])"
    using Some d by (auto simp: removeNotReadyTaintIfNeeded_def split: prod.splits option.splits go_error.splits)
  have bound: "gets (snd ?R) \<le> 10 \<and> slept (snd ?R) < 257 * 1000000000"
    using ExponentialBackoff_cost [of _ 500000000 10 "[Sleep 1000000000]", OF cost] d
    by (simp add: removeTaintInBackground_def gets_def)
  have "removeNotReadyTaintIfNeeded d = [Sleep 1000000000, Crash ''nil pointer dereference'']"
    if "c = NilClientset" "opt_RemoveNotReadyTaint options" "opt_NodeID options \<noteq> ''''"
    using that Some d
    by (simp add: removeNotReadyTaintIfNeeded_def removeTaintInBackground_def removal_attempt_def eval_nat_numeral)
  moreover have "c = NilClientset" if "out_InClusterConfig out = Inr config" "out_NewForConfig out config = Inl err" for config err
    using that Some d(1) by (simp add: getKubeClient_def)
  moreover have "gets (removeNotReadyTaintIfNeeded d) \<le> 10 \<and> slept (removeNotReadyTaintIfNeeded d) < 257 * 1000000000"
    using run bound by (auto simp: gets_def)
  moreover have "removeNotReadyTaintIfNeeded d = []" if "opt_RemoveNotReadyTaint options = False \<or> opt_NodeID options = ''''"
    using that Some d by (auto simp: removeNotReadyTaintIfNeeded_def)
  ultimately show ?thesis using Some by simp
qed


text \<open>A concrete environment for the examples: no configuration file and mock provisioning, or a loaded one.\<close>

definition sample_outside :: "Config option \<Rightarrow> outside" where
  "sample_outside config = \<lparr>out_build = \<lparr>driverVersion = ''v1'', gitCommit = ''g'', buildDate = ''b'', rt_Version = ''go1'',
       rt_Compiler = ''gc'', rt_GOOS = ''linux'', rt_GOARCH = ''amd64''\<rparr>,
     out_Load = \<lambda>f. config, out_InitializeCloud = \<lambda>c. emptyCloud\<lparr>SubscriptionID := cfg_SubscriptionID c\<rparr>,
     out_InClusterConfig = Inr \<lparr>rest_Host = ''10.0.0.1''\<rparr>, out_NewForConfig = \<lambda>c. Inl (PlainError ''bad certificate''),
     out_StorageFactory = \<lambda>e s. Some \<lparr>NewSKUsClient = \<lparr>cl_SkuPages = \<lambda>h. []\<rparr>,
       NewManagementClient = \<lparr>cl_SubnetsSize = \<lambda>h sku tib. Inr (Some 10)\<rparr>,
       NewAmlFilesystemsClient = sample_client (Inl (PlainError ''ResourceNotFound'')) None\<rparr>,
     out_NetworkFactory = \<lambda>e s. Some \<lparr>NewVirtualNetworksClient = \<lparr>cl_UsagePages = \<lambda>h rg n. []\<rparr>\<rparr>\<rparr>"

definition sample_options :: DriverOptions where
  "sample_options = \<lparr>opt_NodeID = ''node'', opt_DriverName = DefaultDriverName, opt_EnableAzureLustreMockMount = False,
     opt_EnableAzureLustreMockDynProv = True, opt_WorkingMountDir = ''/tmp'', opt_RemoveNotReadyTaint = True\<rparr>"

definition sample_config :: Config where
  "sample_config = \<lparr>cfg_UserAgent = '''', cfg_AADClientID = '''', cfg_UseManagedIdentityExtension = False,
     cfg_UserAssignedIdentityID = '''', cfg_ResourceGroup = ''cluster-rg'', cfg_Location = ''eastus'', cfg_SubscriptionID = ''sub''\<rparr>"

theorem taint_removal_bounded_witness:
  "\<exists>d e'. NewDriver (sample_outside (Some sample_config)) sample_options Map.empty = Started d e'
     \<and> removeNotReadyTaintIfNeeded d = [Sleep 1000000000, Crash ''nil pointer dereference'']"
proof -
  let ?out = "sample_outside (Some sample_config)"
  have "\<exists>d e'. NewDriver ?out sample_options Map.empty = Started d e'"
    by (simp add: NewDriver_def sample_outside_def Let_def split: prod.splits)
  moreover have "out_Load ?out (credential_file Map.empty) = Some sample_config" "out_InClusterConfig ?out = Inr \<lparr>rest_Host = ''10.0.0.1''\<rparr>"
    "out_NewForConfig ?out \<lparr>rest_Host = ''10.0.0.1''\<rparr> = Inl (PlainError ''bad certificate'')"
    "opt_RemoveNotReadyTaint sample_options" "opt_NodeID sample_options = ''node''"
    by (simp_all add: sample_outside_def sample_options_def)
  ultimately show ?thesis using taint_removal_bounded [of ?out sample_options Map.empty] by fastforce
qed

lemma client_identity_keeps:
  "client_identity config e = (config', e') \<Longrightarrow> cfg_SubscriptionID config' = cfg_SubscriptionID config
     \<and> cfg_ResourceGroup config' = cfg_ResourceGroup config \<and> cfg_Location config' = cfg_Location config"
  by (auto simp: client_identity_def Let_def split: if_splits)

text \<open>
  C27. The driver ends the process at its start in two cases: no cloud configuration is found and mock
  provisioning is off, or a configuration is found but a factory of Azure clients cannot be made, which
  is only logged before it is used. A driver started without a configuration never reaches Azure: each
  provisioner operation fails with \<open>Internal\<close> and makes no call. A driver starts with no locks held and no
  capabilities, and with a configuration it works in the configured resource group and location.
\<close>

theorem new_driver_correct:
  "((\<exists>m. NewDriver out options e = Fatalf m) \<longleftrightarrow>
      out_Load out (credential_file e) = None \<and> \<not> opt_EnableAzureLustreMockDynProv options)
   \<and> (\<forall>m. NewDriver out options e = Panics m \<longrightarrow> (\<exists>config e'. out_Load out (credential_file e) = Some config
        \<and> (out_StorageFactory out e' (cfg_SubscriptionID config) = None \<or> (\<exists>s. out_NetworkFactory out e' s = None))))
   \<and> (\<forall>config. out_Load out (credential_file e) = Some config \<and> (\<forall>e'. out_StorageFactory out e' (cfg_SubscriptionID config) = None)
        \<longrightarrow> (\<exists>m. NewDriver out options e = Panics m))
   \<and> (\<forall>d e'. NewDriver out options e = Started d e' \<longrightarrow>
        locks (volLocks d) = {} \<and> csi_Cap d = [] \<and> csi_NodeID d = opt_NodeID options
      \<and> (case out_Load out (credential_file e) of
           Some config \<Rightarrow> drv_resourceGroup d = cfg_ResourceGroup config \<and> drv_location d = cfg_Location config
         | None \<Rightarrow> (\<forall>rg n p l h. (\<exists>m. if_DeleteAmlFilesystem (dynamicProvisioner d) rg n h = (Some (StatusError Internal m), h))
             \<and> (\<exists>m. if_CreateAmlFilesystem (dynamicProvisioner d) p h = (Inl (StatusError Internal m), h))
             \<and> (\<exists>m. if_GetSkuValuesForLocation (dynamicProvisioner d) l h = (Inl (StatusError Internal m), h)))))"
proof (cases "out_Load out (credential_file e)")
  case None
  then show ?thesis
    by (auto simp: NewDriver_def baseDriver_def newVolumeLocks_def Let_def dp_interface_def
        emptyProvisioner_def DeleteAmlFilesystem_def CreateAmlFilesystem_def GetSkuValuesForLocation_def)
next
  case (Some config)
  let ?c = "config\<lparr>cfg_UserAgent := GetUserAgent (out_build out) (csi_Name (baseDriver out options)) '''' ''''\<rparr>"
  obtain config' e' where "client_identity ?c e = (config', e')" by fastforce
  moreover from client_identity_keeps [OF this] have "cfg_SubscriptionID config' = cfg_SubscriptionID config"
    "cfg_ResourceGroup config' = cfg_ResourceGroup config" "cfg_Location config' = cfg_Location config" by simp_all
  ultimately show ?thesis using Some
    by (auto simp: NewDriver_def baseDriver_def newVolumeLocks_def Let_def split: option.splits)
qed

theorem new_driver_correct_witness:
  "\<exists>d e'. NewDriver (sample_outside None) sample_options Map.empty = Started d e'
     \<and> (\<exists>m. if_DeleteAmlFilesystem (dynamicProvisioner d) ''rg'' ''fs'' [] = (Some (StatusError Internal m), []))"
proof -
  obtain d e' where d: "NewDriver (sample_outside None) sample_options Map.empty = Started d e'"
    by (auto simp: NewDriver_def sample_outside_def sample_options_def baseDriver_def Let_def)
  have none: "out_Load (sample_outside None) (credential_file Map.empty) = None" by (simp add: sample_outside_def)
  have "\<exists>m. if_DeleteAmlFilesystem (dynamicProvisioner d) ''rg'' ''fs'' [] = (Some (StatusError Internal m), [])"
    using new_driver_correct [of "sample_outside None" sample_options Map.empty] d none by (auto simp: none)
  with d show ?thesis by blast
qed

end
