(* ===== verification/Controller_Server.thy ===== *)
theory Controller_Server
  imports Azurelustre Lustre_Volume "HOL-Library.Log_Nat"
begin

text \<open>
  \<open>pkg/azurelustre/controllerserver.go\<close>: the controller service. \<open>CreateVolume\<close> and
  \<open>DeleteVolume\<close> are whole handlers: they take the request, the driver (whose lock table they
  change) and the history of Azure calls, and return the response or the error, what the metrics
  observed, the driver and the extended history. A \<open>range\<close> statement over a Go map visits it in
  an unspecified order; the parameter \<open>ord\<close> gives that order for each \<open>range\<close> statement by
  its number, and theorems hold for all orders of the same map.
\<close>

abbreviation VolumeContextLocation :: string where "VolumeContextLocation \<equiv> ''location''"
abbreviation VolumeContextVnetResourceGroup :: string where "VolumeContextVnetResourceGroup \<equiv> ''vnet-resource-group''"
abbreviation VolumeContextVnetName :: string where "VolumeContextVnetName \<equiv> ''vnet-name''"
abbreviation VolumeContextSubnetName :: string where "VolumeContextSubnetName \<equiv> ''subnet-name''"
abbreviation VolumeContextMaintenanceDayOfWeek :: string where "VolumeContextMaintenanceDayOfWeek \<equiv> ''maintenance-day-of-week''"
abbreviation VolumeContextMaintenanceTimeOfDayUtc :: string where "VolumeContextMaintenanceTimeOfDayUtc \<equiv> ''maintenance-time-of-day-utc''"
abbreviation VolumeContextSkuName :: string where "VolumeContextSkuName \<equiv> ''sku-name''"
abbreviation VolumeContextZone :: string where "VolumeContextZone \<equiv> ''zone''"
abbreviation VolumeContextZonesSynonym :: string where "VolumeContextZonesSynonym \<equiv> ''zones''"
abbreviation VolumeContextTags :: string where "VolumeContextTags \<equiv> ''tags''"
abbreviation VolumeContextIdentities :: string where "VolumeContextIdentities \<equiv> ''identities''"
abbreviation pvcNameKey :: string where "pvcNameKey \<equiv> ''csi.storage.k8s.io/pvc/name''"
abbreviation pvcNamespaceKey :: string where "pvcNamespaceKey \<equiv> ''csi.storage.k8s.io/pvc/namespace''"
abbreviation pvNameKey :: string where "pvNameKey \<equiv> ''csi.storage.k8s.io/pv/name''"
abbreviation pvcNamespaceTag :: string where "pvcNamespaceTag \<equiv> ''kubernetes.io-created-for-pvc-namespace''"
abbreviation pvcNameTag :: string where "pvcNameTag \<equiv> ''kubernetes.io-created-for-pvc-name''"
abbreviation pvNameTag :: string where "pvNameTag \<equiv> ''kubernetes.io-created-for-pv-name''"
abbreviation createdByTag :: string where "createdByTag \<equiv> ''k8s-azure-created-by''"
abbreviation azureLustreDriverTag :: string where "azureLustreDriverTag \<equiv> ''kubernetes-azurelustre-csi-driver''"

abbreviation amlFilesystemNameMaxLength :: nat where "amlFilesystemNameMaxLength \<equiv> 80"

definition defaultSizeInBytes :: int64 where "defaultSizeInBytes = 4 * TiB"
definition defaultLaaSOBlockSizeInTib :: int64 where "defaultLaaSOBlockSizeInTib = 4"

type_synonym range_order = "nat \<Rightarrow> gomap \<Rightarrow> gomap"

definition valid_order :: "range_order \<Rightarrow> bool" where
  "valid_order ord \<longleftrightarrow> (\<forall>i m. same_map (ord i m) m)"

subsection \<open>Formats\<close>

text \<open>\<open>^([01]?[0-9]|2[0-3]):[0-5][0-9]$\<close>\<close>

fun timeRegexp :: "string \<Rightarrow> bool" where
  "timeRegexp [h, c, m1, m2] \<longleftrightarrow> is_digit h \<and> c = CHR '':'' \<and> m1 \<in> set ''012345'' \<and> is_digit m2"
| "timeRegexp [h1, h2, c, m1, m2] \<longleftrightarrow>
     (h1 \<in> set ''01'' \<and> is_digit h2 \<or> h1 = CHR ''2'' \<and> h2 \<in> set ''0123'') \<and> c = CHR '':'' \<and>
     m1 \<in> set ''012345'' \<and> is_digit m2"
| "timeRegexp _ \<longleftrightarrow> False"

definition is_alnum :: "char \<Rightarrow> bool" where
  "is_alnum c \<longleftrightarrow> (let n = (of_char c :: nat) in
     0x61 \<le> n \<and> n \<le> 0x7A \<or> 0x41 \<le> n \<and> n \<le> 0x5A \<or> 0x30 \<le> n \<and> n \<le> 0x39)"

text \<open>\<open>^[a-zA-Z0-9][a-zA-Z0-9_-]{0,78}[a-zA-Z0-9]$\<close>\<close>

definition amlFilesystemNameRegex :: "string \<Rightarrow> bool" where
  "amlFilesystemNameRegex s \<longleftrightarrow> 2 \<le> length s \<and> length s \<le> amlFilesystemNameMaxLength \<and> is_alnum (hd s) \<and> is_alnum (last s) \<and>
     list_all (\<lambda>c. is_alnum c \<or> c = CHR ''_'' \<or> c = CHR ''-'') (butlast (tl s))"

definition isValidVolumeName :: "string \<Rightarrow> bool" where
  "isValidVolumeName volName \<longleftrightarrow> amlFilesystemNameRegex volName"

definition possibleDayValues :: "string list" where
  "possibleDayValues = [''Friday'', ''Monday'', ''Saturday'', ''Sunday'', ''Thursday'', ''Tuesday'', ''Wednesday'']"

subsection \<open>Parameters\<close>

abbreviation invalid :: "string \<Rightarrow> 'a result" where
  "invalid m \<equiv> Inl (StatusError InvalidArgument m)"

text \<open>The variables of \<open>parseAmlFilesystemProperties\<close>.\<close>

record parse_vars =
  pv_props :: AmlFilesystemProperties
  pv_shouldCreate :: bool
  pv_errors :: "string list"

definition reserved_tag :: "string \<Rightarrow> bool" where
  "reserved_tag tag \<longleftrightarrow> tag = pvcNameTag \<or> tag = pvcNamespaceTag \<or> tag = pvNameTag \<or> tag = createdByTag"

definition add_tag :: "string \<times> string \<Rightarrow> gomap \<Rightarrow> gomap result" where
  "add_tag kv tags =
     (if reserved_tag (fst kv) then
        invalid (''CreateVolume Parameter '' @ VolumeContextTags @ '' must not contain '' @ fst kv @ '' as a tag'')
      else Inr (AList.update (fst kv) (snd kv) tags))"

abbreviation upd_props :: "(AmlFilesystemProperties \<Rightarrow> AmlFilesystemProperties) \<Rightarrow> parse_vars \<Rightarrow> parse_vars" where
  "upd_props f st \<equiv> st\<lparr>pv_props := f (pv_props st)\<rparr>"

abbreviation upd_subnet :: "(SubnetProperties \<Rightarrow> SubnetProperties) \<Rightarrow> parse_vars \<Rightarrow> parse_vars" where
  "upd_subnet f \<equiv> upd_props (\<lambda>p. p\<lparr>SubnetInfo := f (SubnetInfo p)\<rparr>)"

definition parse_day :: "string \<Rightarrow> parse_vars \<Rightarrow> parse_vars result" where
  "parse_day v st =
     (let day = (if v \<in> set possibleDayValues then v else MaintenanceDayOfWeek (pv_props st)) in
      if day = '''' then
        invalid (''CreateVolume Parameter '' @ VolumeContextMaintenanceDayOfWeek @ '' must be one of: '' @ show_slice possibleDayValues)
      else Inr (upd_props (\<lambda>p. p\<lparr>MaintenanceDayOfWeek := day\<rparr>) st))"

definition parse_time :: "string \<Rightarrow> parse_vars \<Rightarrow> parse_vars result" where
  "parse_time v st =
     (if \<not> timeRegexp v then
        invalid (''CreateVolume Parameter '' @ VolumeContextMaintenanceTimeOfDayUtc @ '' must be in the form HH:MM, was: '' @
          [CHR 0x27] @ v @ [CHR 0x27])
      else Inr (upd_props (\<lambda>p. p\<lparr>TimeOfDayUTC := v\<rparr>) st))"

definition parse_tags :: "(gomap \<Rightarrow> gomap) \<Rightarrow> string \<Rightarrow> parse_vars \<Rightarrow> parse_vars result" where
  "parse_tags tag_ord v st =
     (case ConvertTagsToMap v of
        Inl err \<Rightarrow> invalid (''CreateVolume '' @ error_text err)
      | Inr tags \<Rightarrow>
          (case range_loop add_tag (tag_ord tags) (Tags (pv_props st)) of
             Inl e \<Rightarrow> Inl e
           | Inr tags' \<Rightarrow> Inr (upd_props (\<lambda>p. p\<lparr>Tags := tags'\<rparr>) st)))"

definition set_tag :: "string \<Rightarrow> string \<Rightarrow> parse_vars \<Rightarrow> parse_vars" where
  "set_tag tag v = upd_props (\<lambda>p. p\<lparr>Tags := AList.update tag v (Tags p)\<rparr>)"

definition parse_case :: "(gomap \<Rightarrow> gomap) \<Rightarrow> string \<times> string \<Rightarrow> parse_vars \<Rightarrow> parse_vars result" where
  "parse_case tag_ord kv st =
     (let k = to_lower (fst kv); v = snd kv in
      if k = VolumeContextResourceGroupName then Inr (upd_props (\<lambda>p. p\<lparr>ResourceGroupName := v\<rparr>) st)
      else if k = VolumeContextMGSIPAddress then Inr (st\<lparr>pv_shouldCreate := False\<rparr>)
      else if k = VolumeContextLocation then Inr (upd_props (\<lambda>p. p\<lparr>Location := v\<rparr>) st)
      else if k = VolumeContextVnetName then Inr (upd_subnet (\<lambda>s. s\<lparr>VnetName := v\<rparr>) st)
      else if k = VolumeContextVnetResourceGroup then Inr (upd_subnet (\<lambda>s. s\<lparr>VnetResourceGroup := v\<rparr>) st)
      else if k = VolumeContextSubnetName then Inr (upd_subnet (\<lambda>s. s\<lparr>SubnetName := v\<rparr>) st)
      else if k = VolumeContextMaintenanceDayOfWeek then parse_day v st
      else if k = VolumeContextMaintenanceTimeOfDayUtc then parse_time v st
      else if k = VolumeContextSkuName then Inr (upd_props (\<lambda>p. p\<lparr>SKUName := v\<rparr>) st)
      else if k = VolumeContextZone \<or> k = VolumeContextZonesSynonym then Inr (upd_props (\<lambda>p. p\<lparr>Zone := v\<rparr>) st)
      else if k = VolumeContextTags then parse_tags tag_ord v st
      else if k = pvcNameKey then Inr (set_tag pvcNameTag v st)
      else if k = pvcNamespaceKey then Inr (set_tag pvcNamespaceTag v st)
      else if k = pvNameKey then Inr (set_tag pvNameTag v st)
      else if k = VolumeContextIdentities then
        Inr (upd_props (\<lambda>p. p\<lparr>Identities := Some (split (CHR '','') v)\<rparr>) st)
      else if k = VolumeContextFSName \<or> k = VolumeContextSubDir then Inr st
      else Inr (st\<lparr>pv_errors := pv_errors st @ [fst kv @ '' = '' @ v]\<rparr>))"

definition emptyProperties :: AmlFilesystemProperties where
  "emptyProperties = \<lparr>ResourceGroupName = '''', AmlFilesystemName = '''', Location = '''', Tags = [], Identities = None,
     SubnetInfo = \<lparr>SubnetID = '''', VnetName = '''', VnetResourceGroup = '''', SubnetName = ''''\<rparr>,
     MaintenanceDayOfWeek = '''', TimeOfDayUTC = '''', StorageCapacityTiB = 0, SKUName = '''', Zone = ''''\<rparr>"

definition must_be_provided :: "string \<Rightarrow> 'a result" where
  "must_be_provided name = invalid (''CreateVolume '' @ name @ '' must be provided for dynamically provisioned AMLFS'')"

definition parse_init :: parse_vars where
  "parse_init = \<lparr>pv_props = emptyProperties\<lparr>Tags := [(createdByTag, azureLustreDriverTag)]\<rparr>,
     pv_shouldCreate = True, pv_errors = []\<rparr>"

definition parseAmlFilesystemProperties ::
    "(gomap \<Rightarrow> gomap) \<Rightarrow> gomap \<Rightarrow> AmlFilesystemProperties result" where
  "parseAmlFilesystemProperties tag_ord properties =
     (case range_loop (parse_case tag_ord) properties parse_init of
        Inl e \<Rightarrow> Inl e
      | Inr st \<Rightarrow>
          if pv_errors st \<noteq> [] then
            invalid (''Invalid parameter(s) {'' @ join '', '' (pv_errors st) @ ''} in storage class'')
          else if pv_shouldCreate st \<and> MaintenanceDayOfWeek (pv_props st) = '''' then
            must_be_provided VolumeContextMaintenanceDayOfWeek
          else if pv_shouldCreate st \<and> SKUName (pv_props st) = '''' then must_be_provided VolumeContextSkuName
          else if pv_shouldCreate st \<and> TimeOfDayUTC (pv_props st) = '''' then
            must_be_provided VolumeContextMaintenanceTimeOfDayUtc
          else Inr (pv_props st))"


subsection \<open>Requests\<close>

fun validateVolumeCapabilities :: "VolumeCapability list \<Rightarrow> go_error option" where
  "validateVolumeCapabilities [] = None"
| "validateVolumeCapabilities (c # cs) =
     (if GetMount c = None then Some (StatusError InvalidArgument ''Doesn't support block volume.'')
      else if GetMode c \<notin> set volumeCapabilities then
        Some (StatusError InvalidArgument (''Volume doesn't support '' @ access_mode_string (GetMode c)))
      else validateVolumeCapabilities cs)"

text \<open>A capacity range is the required and the limit bytes; a message that is not set is \<open>None\<close>.\<close>

record CreateVolumeRequest =
  req_Name :: string
  req_CapacityRange :: "(int64 \<times> int64) option"
  req_VolumeCapabilities :: "VolumeCapability list"
  req_Parameters :: "gomap option"
  req_Secrets :: "gomap option"
  req_VolumeContentSource :: "unit option"
  req_AccessibilityRequirements :: "unit option"

definition GetRequiredBytes :: "(int64 \<times> int64) option \<Rightarrow> int64" where
  "GetRequiredBytes r = (case r of None \<Rightarrow> 0 | Some (required, limit) \<Rightarrow> required)"

definition GetLimitBytes :: "(int64 \<times> int64) option \<Rightarrow> int64" where
  "GetLimitBytes r = (case r of None \<Rightarrow> 0 | Some (required, limit) \<Rightarrow> limit)"

definition checkVolumeRequest :: "CreateVolumeRequest \<Rightarrow> go_error option" where
  "checkVolumeRequest req =
     (if req_VolumeCapabilities req = [] then
        Some (StatusError InvalidArgument ''CreateVolume Volume capabilities must be provided'')
      else if req_VolumeContentSource req \<noteq> None then
        Some (StatusError InvalidArgument ''CreateVolume doesn't support being created from an existing volume'')
      else if req_Secrets req \<noteq> None then
        Some (StatusError InvalidArgument ''CreateVolume doesn't support secrets'')
      else if req_AccessibilityRequirements req \<noteq> None then
        Some (StatusError InvalidArgument ''CreateVolume doesn't support accessibility_requirements'')
      else validateVolumeCapabilities (req_VolumeCapabilities req))"

subsection \<open>Capacity\<close>

definition roundToAmlfsBlockSize :: "int64 \<Rightarrow> int64 \<Rightarrow> int64 \<Rightarrow> int64 result" where
  "roundToAmlfsBlockSize capacity0 blockSize0 maxCapacityInBytes =
     (let capacityInBytes = (if capacity0 = 0 then defaultSizeInBytes else capacity0);
          blockSizeInBytes = (if blockSize0 = 0 then defaultLaaSOBlockSizeInTib * TiB else blockSize0);
          rounded = go_div (capacityInBytes + blockSizeInBytes - 1) blockSizeInBytes * blockSizeInBytes
      in if rounded <s capacityInBytes then
           invalid (''Requested capacity '' @ show_int (sint capacityInBytes) @ '' cannot be rounded up to next block of size '' @
             show_int (sint blockSizeInBytes) @ '', value overflow'')
         else if 0 <s maxCapacityInBytes \<and> maxCapacityInBytes <s rounded then
           invalid (''Requested capacity '' @ show_int (sint capacityInBytes) @ '' exceeds maximum capacity '' @
             show_int (sint maxCapacityInBytes) @ '' for SKU in this location'')
         else Inr rounded)"

text \<open>The nearest \<open>float32\<close> of an integer (24 significant bits, ties to even).\<close>

definition float32_round :: "int \<Rightarrow> int" where
  "float32_round i =
     (let a = \<bar>i\<bar>; q = 2 ^ nat (bitlen a - 24); d = a div q; r = a mod q;
          d' = (if q < 2 * r \<or> q = 2 * r \<and> odd d then d + 1 else d)
      in sgn i * (d' * q))"

text \<open>\<open>float32(capacityInBytes) / util.TiB\<close>; the division by a power of two is exact.\<close>

definition storageCapacityTib :: "int64 \<Rightarrow> rat" where
  "storageCapacityTib capacityInBytes = of_int (float32_round (sint capacityInBytes)) / 2 ^ 40"

definition getSkuValuesForLocation ::
    "Driver \<Rightarrow> string \<Rightarrow> string \<Rightarrow> az_history \<Rightarrow> LustreSkuValue result \<times> az_history" where
  "getSkuValuesForLocation d skuName location h =
     (case if_GetSkuValuesForLocation (dynamicProvisioner d) location h of
        (Inl err, h') \<Rightarrow> (Inl err, h')
      | (Inr skus, h') \<Rightarrow>
          (case map_of skus skuName of
             None \<Rightarrow> (invalid (''CreateVolume Parameter '' @ VolumeContextSkuName @ '' must be one of: '' @
                        show_slice (sort (map fst skus))), h')
           | Some v \<Rightarrow> (Inr v, h')))"

subsection \<open>CreateVolume\<close>

record CreateVolumeResponse =
  resp_VolumeId :: string
  resp_CapacityBytes :: int64
  resp_VolumeContext :: gomap

text \<open>The cluster to create, with the defaults of the driver filled in.\<close>

definition fill_defaults :: "Driver \<Rightarrow> AmlFilesystemProperties \<Rightarrow> AmlFilesystemProperties" where
  "fill_defaults d p =
     (let p1 = (if Location p = '''' then p\<lparr>Location := drv_location d\<rparr> else p);
          p2 = (if ResourceGroupName p1 = '''' then p1\<lparr>ResourceGroupName := drv_resourceGroup d\<rparr> else p1)
      in p2\<lparr>SubnetInfo := populateSubnetPropertiesFromCloudConfig d (SubnetInfo p2)\<rparr>)"

definition check_zone :: "string list \<Rightarrow> AmlFilesystemProperties \<Rightarrow> go_error option" where
  "check_zone availableZones p =
     (if availableZones \<noteq> [] then
        (if Zone p = '''' then
           Some (StatusError InvalidArgument (''CreateVolume Parameter '' @ VolumeContextZone @
             '' must be provided for dynamically provisioned AMLFS in location '' @ Location p @ '', available zones: '' @
             show_slice availableZones))
         else if Zone p \<notin> set availableZones then
           Some (StatusError InvalidArgument (''CreateVolume Parameter '' @ VolumeContextZone @ '' '' @ Zone p @
             '' must be one of: '' @ show_slice availableZones))
         else None)
      else if Zone p \<noteq> '''' then
        Some (StatusError InvalidArgument (''CreateVolume Parameter '' @ VolumeContextZone @ '' cannot be used in location '' @
          Location p @ '', no zones available for SKU '' @ SKUName p))
      else None)"

text \<open>The error of a failed provisioner call, as both handlers report it; a panic stays a panic.\<close>

fun provisioner_error :: "string \<Rightarrow> go_error \<Rightarrow> go_error" where
  "provisioner_error context (Panic t) = Panic t"
| "provisioner_error context err =
     (if status_code err = Unknown then StatusError Unknown (error_text err)
      else StatusError (status_code err) (context @ '': '' @ error_text err))"

text \<open>The creation of the cluster, once its capacity is known; the result is its MGS address.\<close>

definition create_cluster ::
    "Driver \<Rightarrow> string \<Rightarrow> AmlFilesystemProperties \<Rightarrow> string list \<Rightarrow> int64 \<Rightarrow> az_history \<Rightarrow> string result \<times> az_history" where
  "create_cluster d volName p availableZones capacityInBytes h =
     (let p1 = p\<lparr>StorageCapacityTiB := storageCapacityTib capacityInBytes\<rparr> in
      case check_zone availableZones p1 of
        Some e \<Rightarrow> (Inl e, h)
      | None \<Rightarrow>
          if \<not> isValidVolumeName volName then
            (invalid (''CreateVolume invalid volume name '' @ volName @
               '', cannot create valid AMLFS name. Check length and characters''), h)
          else
            (case if_CreateAmlFilesystem (dynamicProvisioner d) (p1\<lparr>AmlFilesystemName := volName\<rparr>) h of
               (Inl err, h') \<Rightarrow> (Inl (provisioner_error (''CreateVolume error when creating AMLFS '' @ volName) err), h')
             | (Inr mgs, h') \<Rightarrow> (Inr mgs, h')))"

text \<open>The SKU of a cluster to create: block size, maximum and zones; without a cluster the defaults.\<close>

definition create_sizes ::
    "Driver \<Rightarrow> bool \<Rightarrow> AmlFilesystemProperties \<Rightarrow> az_history \<Rightarrow> (int64 \<times> int64 \<times> string list) result \<times> az_history" where
  "create_sizes d shouldCreate p h =
     (if shouldCreate then
        (case getSkuValuesForLocation d (SKUName p) (Location p) h of
           (Inl err, h') \<Rightarrow> (Inl err, h')
         | (Inr sku, h') \<Rightarrow> (Inr (IncrementInTib sku * TiB, MaximumInTib sku * TiB, AvailableZones sku), h'))
      else (Inr (defaultLaaSOBlockSizeInTib * TiB, 0, []), h))"

text \<open>The volume context of the response: the parameters with the cluster's data written into them.\<close>

definition create_context ::
    "range_order \<Rightarrow> (string \<times> string) option \<Rightarrow> gomap \<Rightarrow> gomap" where
  "create_context ord cluster params =
     (let put = (\<lambda>i key v m. the (SetKeyValueInMap (Some (ord i m)) key v)) in
      case cluster of
        None \<Rightarrow> put 5 VolumeContextInternalDynamicallyCreated ''f'' params
      | Some (rg, mgs) \<Rightarrow>
          put 5 VolumeContextInternalDynamicallyCreated ''t''
            (put 4 VolumeContextFSName DefaultLustreFsName
              (put 3 VolumeContextMGSIPAddress mgs
                (put 2 VolumeContextResourceGroupName rg params))))"

text \<open>The second half of the handler, from the capacity on.\<close>

definition CreateVolume_finish ::
    "range_order \<Rightarrow> Driver \<Rightarrow> CreateVolumeRequest \<Rightarrow> gomap \<Rightarrow> bool \<Rightarrow> AmlFilesystemProperties
      \<Rightarrow> int64 \<times> int64 \<times> string list \<Rightarrow> az_history \<Rightarrow> CreateVolumeResponse result \<times> az_history" where
  "CreateVolume_finish ord d req parameters shouldCreate p sizes h =
     (let required = GetRequiredBytes (req_CapacityRange req);
          requested = (if required = 0 then defaultSizeInBytes else required);
          limit = GetLimitBytes (req_CapacityRange req) in
      case roundToAmlfsBlockSize requested (fst sizes) (fst (snd sizes)) of
        Inl e \<Rightarrow> (Inl e, h)
      | Inr capacityInBytes \<Rightarrow>
          if limit \<noteq> 0 \<and> limit <s capacityInBytes then
            (invalid (''CreateVolume required capacity '' @ show_int (sint capacityInBytes) @
               '' is greater than capacity limit '' @ show_int (sint limit)), h)
          else
            (case (if shouldCreate then create_cluster d (req_Name req) p (snd (snd sizes)) capacityInBytes h
                   else (Inr '''', h)) of
               (Inl e, h') \<Rightarrow> (Inl e, h')
             | (Inr mgs, h') \<Rightarrow>
                 (let ctx = create_context ord (if shouldCreate then Some (ResourceGroupName p, mgs) else None) parameters in
                  case createVolumeIDFromParams (req_Name req) (ord 6 ctx) of
                    Inl e \<Rightarrow> (Inl e, h')
                  | Inr volumeID \<Rightarrow>
                      (Inr \<lparr>resp_VolumeId = volumeID, resp_CapacityBytes = capacityInBytes,
                         resp_VolumeContext = ctx\<rparr>, h'))))"

text \<open>The body of the handler between taking and releasing the lock.\<close>

definition CreateVolume_body ::
    "range_order \<Rightarrow> Driver \<Rightarrow> CreateVolumeRequest \<Rightarrow> az_history \<Rightarrow> CreateVolumeResponse result \<times> az_history" where
  "CreateVolume_body ord d req h =
     (case req_Parameters req of
        None \<Rightarrow> (invalid ''CreateVolume Parameters must be provided'', h)
      | Some parameters \<Rightarrow>
          (let shouldCreate = (GetValueInMap (Some (ord 0 parameters)) VolumeContextMGSIPAddress = '''') in
           case parseAmlFilesystemProperties (ord 7) (ord 1 parameters) of
             Inl e \<Rightarrow> (Inl e, h)
           | Inr p0 \<Rightarrow>
               (let p = (if shouldCreate then fill_defaults d p0 else p0) in
                case create_sizes d shouldCreate p h of
                  (Inl e, h1) \<Rightarrow> (Inl e, h1)
                | (Inr sizes, h1) \<Rightarrow> CreateVolume_finish ord d req parameters shouldCreate p sizes h1)))"

definition busy_error :: "string \<Rightarrow> go_error" where
  "busy_error key = StatusError Aborted (''An operation with the given Volume ID '' @ key @ '' already exists'')"

text \<open>
  A handler's outcome: the response, and what the metrics observed (nothing before the lock is
  taken, then whether the operation succeeded).
\<close>

type_synonym 'r outcome = "'r result \<times> bool option"

definition observed :: "'r result \<times> az_history \<Rightarrow> 'r outcome \<times> az_history" where
  "observed r = (case r of (x, h) \<Rightarrow> ((x, Some (case x of Inl _ \<Rightarrow> False | Inr _ \<Rightarrow> True)), h))"

text \<open>A locked section of a controller handler, on the driver's lock table.\<close>

definition locked_handler ::
    "string \<Rightarrow> (Driver \<Rightarrow> az_history \<Rightarrow> 'r result \<times> az_history) \<Rightarrow> Driver \<Rightarrow> az_history
      \<Rightarrow> ('r outcome \<times> az_history) \<times> Driver" where
  "locked_handler key body d h =
     (case with_lock key (\<lambda>vl. (observed (body (d\<lparr>volLocks := vl\<rparr>) h), vl)) ((Inl (busy_error key), None), h) (volLocks d) of
        (r, vl) \<Rightarrow> (r, d\<lparr>volLocks := vl\<rparr>))"

definition CreateVolume ::
    "range_order \<Rightarrow> Driver \<Rightarrow> CreateVolumeRequest \<Rightarrow> az_history \<Rightarrow> (CreateVolumeResponse outcome \<times> az_history) \<times> Driver" where
  "CreateVolume ord d req h =
     (if req_Name req = '''' then (((invalid ''CreateVolume Name must be provided'', None), h), d)
      else case checkVolumeRequest req of
        Some e \<Rightarrow> (((Inl e, None), h), d)
      | None \<Rightarrow> locked_handler (req_Name req) (\<lambda>d. CreateVolume_body ord d req) d h)"

subsection \<open>DeleteVolume\<close>

record DeleteVolumeRequest =
  del_VolumeId :: string
  del_Secrets :: "gomap option"

definition DeleteVolume_body ::
    "Driver \<Rightarrow> DeleteVolumeRequest \<Rightarrow> az_history \<Rightarrow> unit result \<times> az_history" where
  "DeleteVolume_body d req h =
     (case getLustreVolFromID (del_VolumeId req) of
        Inl _ \<Rightarrow> (Inr (), h)
      | Inr vol \<Rightarrow>
          if createdByDynamicProvisioning vol then
            (if resourceGroupName vol = '''' then
               (invalid (''volume was dynamically created but associated resource group is not specified. '' @
                  ''AMLFS cluster may need to be deleted manually''), h)
             else
               (case if_DeleteAmlFilesystem (dynamicProvisioner d) (resourceGroupName vol) (vol_name vol) h of
                  (Some err, h') \<Rightarrow>
                    (Inl (provisioner_error (''DeleteVolume error when deleting AMLFS '' @ vol_name vol @
                       '' in resource group '' @ resourceGroupName vol) err), h')
                | (None, h') \<Rightarrow> (Inr (), h')))
          else (Inr (), h))"

definition DeleteVolume ::
    "Driver \<Rightarrow> DeleteVolumeRequest \<Rightarrow> az_history \<Rightarrow> (unit outcome \<times> az_history) \<times> Driver" where
  "DeleteVolume d req h =
     (if del_VolumeId req = '''' then (((invalid ''Volume ID missing in request'', None), h), d)
      else if del_Secrets req \<noteq> None then (((invalid ''CreateVolume doesn't support secrets'', None), h), d)
      else locked_handler (del_VolumeId req) (\<lambda>d. DeleteVolume_body d req) d h)"

subsection \<open>Capabilities\<close>

record ValidateVolumeCapabilitiesRequest =
  val_VolumeId :: string
  val_VolumeCapabilities :: "VolumeCapability list"
  val_Secrets :: "gomap option"

text \<open>The response's confirmed capabilities, if any.\<close>

definition ValidateVolumeCapabilities ::
    "ValidateVolumeCapabilitiesRequest \<Rightarrow> VolumeCapability list option result" where
  "ValidateVolumeCapabilities req =
     (if val_Secrets req \<noteq> None then invalid ''Doesn't support secrets''
      else if val_VolumeId req = '''' then invalid ''Volume ID missing in request''
      else if val_VolumeCapabilities req = [] then invalid ''Volume capabilities missing in request''
      else Inr (if validateVolumeCapabilities (val_VolumeCapabilities req) \<noteq> None then None
                else Some (val_VolumeCapabilities req)))"

definition ControllerGetCapabilities :: "Driver \<Rightarrow> ControllerServiceCapability list result" where
  "ControllerGetCapabilities d = Inr (csi_Cap d)"


subsection \<open>Rounding to the block size\<close>

lemma sint_TiB_mult: "- (2 ^ 23) \<le> i \<Longrightarrow> i < 2 ^ 23 \<Longrightarrow> sint (word_of_int i * TiB) = i * 2 ^ 40"
  by (subst sint64_mult) (simp_all add: sint_of_int64)

lemma sint_default [simp]: "sint defaultSizeInBytes = 2 ^ 42" "sint (defaultLaaSOBlockSizeInTib * TiB) = 2 ^ 42"
  by (simp_all add: defaultSizeInBytes_def defaultLaaSOBlockSizeInTib_def TiB_def GiB_def)

lemma word_sless_sint: "a <s b \<longleftrightarrow> sint a < sint (b :: int64)"
  by (simp add: word_sless_alt)

text \<open>The smallest multiple of \<open>b\<close> that is at least \<open>c\<close>.\<close>

definition next_block :: "int \<Rightarrow> int \<Rightarrow> int" where
  "next_block c b = (c + b - 1) div b * b"

lemma next_block_bounds:
  assumes "0 < b"
  shows "c \<le> next_block c b" "next_block c b < c + b" "b dvd next_block c b"
proof -
  have "(c + b - 1) div b * b \<le> c + b - 1" "c + b - 1 < (c + b - 1) div b * b + b"
    using pos_mod_sign [OF assms, of "c + b - 1"] pos_mod_bound [OF assms, of "c + b - 1"]
    unfolding minus_mod_eq_div_mult [symmetric] by linarith+
  then show "c \<le> next_block c b" "next_block c b < c + b" by (auto simp: next_block_def)
qed (simp add: next_block_def)

lemma next_block_least:
  assumes "0 < b" "b dvd m" "c \<le> m"
  shows "next_block c b \<le> m"
proof -
  obtain k where k: "m = b * k" using assms(2) by blast
  have "next_block c b < (k + 1) * b" using next_block_bounds(2) [OF assms(1), of c] assms(3) k
    by (simp add: algebra_simps)
  then have "(c + b - 1) div b < k + 1" using assms(1) unfolding next_block_def by (simp only: mult_less_cancel_right_pos)
  then have "(c + b - 1) div b * b \<le> k * b" using assms(1) by (intro mult_right_mono) auto
  then show ?thesis by (simp add: next_block_def k mult.commute)
qed

lemma sint_wrap_add:
  assumes "2 ^ 63 \<le> sint a + sint b - 1"
  shows "sint (a + b - 1 :: int64) = sint a + sint b - 1 - 2 ^ 64"
proof -
  have eq: "(word_of_int (sint a + sint b - 1 - 2 ^ 64) :: int64) = a + b - 1"
    by simp
  show ?thesis unfolding eq [symmetric]
    by (rule sint_of_int64) (use assms sint64_lt [of a] sint64_lt [of b] in auto)
qed

lemma rounded_sint:
  assumes "0 < sint c" "0 < sint b"
  shows "if sint c + sint b - 1 < 2 ^ 63
    then sint (go_div (c + b - 1) b * b) = next_block (sint c) (sint b)
    else sint (go_div (c + b - 1) b * b) < sint c"
proof (cases "sint c + sint b - 1 < 2 ^ 63")
  case True
  have eq: "(word_of_int (sint c + sint b - 1) :: int64) = c + b - 1" by simp
  have s: "sint (c + b - 1) = sint c + sint b - 1"
    unfolding eq [symmetric] by (rule sint_of_int64) (use assms True in linarith)+
  then have q: "sint (go_div (c + b - 1) b) = (sint c + sint b - 1) div sint b"
    using assms by (subst sint_go_div) simp_all
  have "next_block (sint c) (sint b) < 2 ^ 63" "0 \<le> next_block (sint c) (sint b)"
    using next_block_bounds(1,2) [of "sint b" "sint c"] assms True by linarith+
  then show ?thesis using True q by (subst sint64_mult) (simp_all add: next_block_def)
next
  case False
  then have neg: "sint (c + b - 1) < 0" "- (2 ^ 63) \<le> sint (c + b - 1)"
    using sint_wrap_add [of c b] sint64_lt [of c] sint64_lt [of b] sint64_ge [of "c + b - 1"] by auto
  then have q: "sint (go_div (c + b - 1) b) = - (- sint (c + b - 1) div sint b)"
    using assms by (simp add: sint_go_div_pos sdiv_neg)
  have "- sint (c + b - 1) div sint b * sint b \<le> - sint (c + b - 1)"
    using pos_mod_sign [OF assms(2), of "- sint (c + b - 1)"] unfolding minus_mod_eq_div_mult [symmetric] by linarith
  moreover have "0 \<le> - sint (c + b - 1) div sint b * sint b"
    using assms neg(1) by (intro mult_nonneg_nonneg) (simp_all add: pos_imp_zdiv_nonneg_iff)
  ultimately have "sint (go_div (c + b - 1) b * b) = - (- sint (c + b - 1) div sint b) * sint b"
    using q neg(2) by (subst sint64_mult) auto
  then show ?thesis using False assms(1) \<open>0 \<le> - sint (c + b - 1) div sint b * sint b\<close> by simp
qed


lemma round_capacity_cases:
  assumes "0 < sint capacity" "0 < sint block"
  shows "case roundToAmlfsBlockSize capacity block maximum of
      Inr r \<Rightarrow> sint r = next_block (sint capacity) (sint block) \<and> (0 < sint maximum \<longrightarrow> sint r \<le> sint maximum)
    | Inl e \<Rightarrow> (\<exists>t. e = StatusError InvalidArgument t)
        \<and> (2 ^ 63 \<le> sint capacity + sint block - 1
           \<or> 0 < sint maximum \<and> sint maximum < next_block (sint capacity) (sint block))"
proof -
  have nz: "capacity \<noteq> 0" "block \<noteq> 0" using assms by auto
  let ?r = "go_div (capacity + block - 1) block * block"
  show ?thesis
  proof (cases "sint capacity + sint block - 1 < 2 ^ 63")
    case True
    then have r: "sint ?r = next_block (sint capacity) (sint block)" using rounded_sint [OF assms] by simp
    then have "\<not> ?r <s capacity" using next_block_bounds(1) [OF assms(2), of "sint capacity"]
      by (simp add: word_sless_sint)
    then show ?thesis using nz r
      by (auto simp: roundToAmlfsBlockSize_def Let_def word_sless_sint)
  next
    case False
    then have "?r <s capacity" using rounded_sint [OF assms] by (simp add: word_sless_sint)
    then show ?thesis using nz False by (simp add: roundToAmlfsBlockSize_def Let_def)
  qed
qed

lemma round_capacity_bounds:
  assumes "0 < sint capacity" "0 < sint block" "roundToAmlfsBlockSize capacity block maximum = Inr r"
  shows "sint capacity \<le> sint r" "sint r < sint capacity + sint block" "sint block dvd sint r"
    "0 < sint maximum \<longrightarrow> sint r \<le> sint maximum"
  using round_capacity_cases [OF assms(1,2), of maximum] assms(3) next_block_bounds [OF assms(2), of "sint capacity"]
  by auto

text \<open>
  C8. \<open>roundToAmlfsBlockSize\<close> is exact at 64 bits: for a positive capacity and block size it
  returns the smallest multiple of the block size that holds the capacity, unless the sum of the
  two overflows or the result exceeds a positive maximum; both are refused as invalid arguments, and
  no wrapped value is ever returned.
\<close>

theorem round_capacity_exact:
  assumes "0 < sint capacity" "0 < sint block"
  shows "case roundToAmlfsBlockSize capacity block maximum of
      Inr r \<Rightarrow> sint capacity \<le> sint r \<and> sint r < sint capacity + sint block \<and> sint block dvd sint r
        \<and> (\<forall>m. sint block dvd m \<and> sint capacity \<le> m \<longrightarrow> sint r \<le> m)
        \<and> (0 < sint maximum \<longrightarrow> sint r \<le> sint maximum)
    | Inl e \<Rightarrow> (\<exists>t. e = StatusError InvalidArgument t)
        \<and> (2 ^ 63 \<le> sint capacity + sint block - 1
           \<or> 0 < sint maximum \<and> sint maximum < next_block (sint capacity) (sint block))"
  using round_capacity_cases [OF assms, of maximum] next_block_bounds [OF assms(2), of "sint capacity"]
    next_block_least [OF assms(2)]
  by (auto split: sum.splits)

theorem round_capacity_exact_witness:
  "roundToAmlfsBlockSize 1 (8 * TiB) (128 * TiB) = Inr (8 * TiB) \<and> sint (1 :: int64) \<le> sint (8 * TiB)"
proof -
  have run: "roundToAmlfsBlockSize 1 (8 * TiB) (128 * TiB) = Inr (8 * TiB)"
    by (simp add: roundToAmlfsBlockSize_def Let_def TiB_def GiB_def go_div_def word_sless_alt sdiv_nonneg)
  moreover have "0 < sint (1 :: int64)" "0 < sint (8 * TiB)" by (simp_all add: TiB_def GiB_def)
  ultimately show ?thesis using round_capacity_exact [of 1 "8 * TiB" "128 * TiB"] by simp
qed


text \<open>A whole number of TiB survives the conversion to a \<open>float32\<close>.\<close>

lemma float32_round_TiB:
  assumes "2 ^ 40 dvd i" "\<bar>i\<bar> < 2 ^ 64"
  shows "float32_round i = i"
proof (cases "i = 0")
  case False
  let ?a = "\<bar>i\<bar>"
  define n where "n = nat (bitlen ?a - 24)"
  have "bitlen ?a \<le> 64"
  proof (rule ccontr)
    assume "\<not> bitlen ?a \<le> 64"
    then have "(2 :: int) ^ 64 \<le> 2 ^ nat (bitlen ?a - 1)" by (intro power_increasing) auto
    then show False using bitlen_bounds [of ?a] False assms(2) by simp
  qed
  then have "n \<le> 40" by (simp add: n_def)
  then have "(2 :: int) ^ n dvd ?a" using assms(1) by (metis dvd_abs_iff dvd_trans le_imp_power_dvd)
  then have "?a mod 2 ^ n = 0" "?a div 2 ^ n * 2 ^ n = ?a" by simp_all
  then show ?thesis by (simp add: float32_round_def Let_def n_def [symmetric] mult_sgn_abs)
qed (simp add: float32_round_def)

lemma storageCapacityTib_exact:
  assumes "2 ^ 40 dvd sint c"
  shows "storageCapacityTib c * 2 ^ 40 = of_int (sint c)"
proof -
  have "\<bar>sint c\<bar> < 2 ^ 64" using sint64_ge [of c] sint64_lt [of c] by auto
  then show ?thesis using assms by (simp add: storageCapacityTib_def float32_round_TiB)
qed

subsection \<open>Locking\<close>

lemma locked_handler_driver: "snd (locked_handler key body d h) = d"
  using with_lock_restores [of "\<lambda>vl. (observed (body (d\<lparr>volLocks := vl\<rparr>) h), vl)" key _ "volLocks d"]
  by (simp add: locked_handler_def split_beta)

lemma locked_handler_busy:
  "key \<in> locks (volLocks d) \<Longrightarrow> locked_handler key body d h = (((Inl (busy_error key), None), h), d)"
  by (simp add: locked_handler_def with_lock_busy)

lemma locked_handler_free:
  "key \<notin> locks (volLocks d) \<Longrightarrow> fst (locked_handler key body d h) =
     observed (body (d\<lparr>volLocks := (volLocks d)\<lparr>locks := insert key (locks (volLocks d))\<rparr>\<rparr>) h)"
  using with_lock_free [of key "volLocks d" "\<lambda>vl. (observed (body (d\<lparr>volLocks := vl\<rparr>) h), vl)"]
  by (simp add: locked_handler_def split_beta)

text \<open>The bodies do not look at the lock table.\<close>

lemma dynamicProvisioner_locks: "dynamicProvisioner (d\<lparr>volLocks := vl\<rparr>) = dynamicProvisioner d"
  by simp

lemma DeleteVolume_body_locks [simp]: "DeleteVolume_body (d\<lparr>volLocks := vl\<rparr>) = DeleteVolume_body d"
  unfolding DeleteVolume_body_def dynamicProvisioner_locks by (intro ext refl)

lemma volLocks_irrelevant [simp]:
  "fill_defaults (d\<lparr>volLocks := vl\<rparr>) = fill_defaults d"
  "create_sizes (d\<lparr>volLocks := vl\<rparr>) = create_sizes d"
  "create_cluster (d\<lparr>volLocks := vl\<rparr>) = create_cluster d"
  unfolding fill_defaults_def populateSubnetPropertiesFromCloudConfig_def create_sizes_def
      getSkuValuesForLocation_def create_cluster_def dynamicProvisioner_locks by (simp_all add: fun_eq_iff)

lemma CreateVolume_body_locks [simp]: "CreateVolume_body ord (d\<lparr>volLocks := vl\<rparr>) = CreateVolume_body ord d"
  unfolding CreateVolume_body_def CreateVolume_finish_def volLocks_irrelevant by (intro ext refl)

text \<open>What a request that passes the first checks and finds its lock free returns.\<close>

lemma CreateVolume_run:
  assumes "req_Name req \<noteq> ''''" "checkVolumeRequest req = None" "req_Name req \<notin> locks (volLocks d)"
  shows "CreateVolume ord d req h = (observed (CreateVolume_body ord d req h), d)"
  using assms locked_handler_free [of "req_Name req" d "\<lambda>d. CreateVolume_body ord d req" h]
    locked_handler_driver [of "req_Name req" "\<lambda>d. CreateVolume_body ord d req" d h]
  by (simp add: CreateVolume_def prod_eq_iff)

lemma CreateVolume_cases:
  obtains (refused) e where "CreateVolume ord d req h = (((Inl e, None), h), d)" "is_status e"
  | (run) "req_Name req \<noteq> ''''" "checkVolumeRequest req = None" "req_Name req \<notin> locks (volLocks d)"
      "CreateVolume ord d req h = (observed (CreateVolume_body ord d req h), d)"
proof -
  have caps: "is_status e" if "validateVolumeCapabilities cs = Some e" for cs e
    using that by (induction cs rule: validateVolumeCapabilities.induct) (auto split: if_splits)
  have check: "is_status e" if "checkVolumeRequest req = Some e" for e
    using that caps by (auto simp: checkVolumeRequest_def split: if_splits)
  consider "req_Name req = ''''" | e where "req_Name req \<noteq> ''''" "checkVolumeRequest req = Some e"
    | "req_Name req \<noteq> ''''" "checkVolumeRequest req = None" "req_Name req \<in> locks (volLocks d)"
    | "req_Name req \<noteq> ''''" "checkVolumeRequest req = None" "req_Name req \<notin> locks (volLocks d)" by blast
  then show thesis
  proof cases
    case 1
    then show thesis by (intro refused [of "StatusError InvalidArgument ''CreateVolume Name must be provided''"])
        (simp_all add: CreateVolume_def)
  next
    case 2
    then show thesis by (intro refused [of e]) (simp_all add: CreateVolume_def check)
  next
    case 3
    then show thesis by (intro refused [of "busy_error (req_Name req)"])
        (simp_all add: CreateVolume_def locked_handler_busy busy_error_def)
  next
    case 4
    then show thesis using CreateVolume_run by (intro run) auto
  qed
qed

lemma DeleteVolume_run:
  assumes "del_VolumeId req \<noteq> ''''" "del_Secrets req = None" "del_VolumeId req \<notin> locks (volLocks d)"
  shows "DeleteVolume d req h = (observed (DeleteVolume_body d req h), d)"
  using assms locked_handler_free [of "del_VolumeId req" d "\<lambda>d. DeleteVolume_body d req" h]
    locked_handler_driver [of "del_VolumeId req" "\<lambda>d. DeleteVolume_body d req" d h]
  by (simp add: DeleteVolume_def prod_eq_iff)

lemma DeleteVolume_cases:
  obtains (refused) e where "DeleteVolume d req h = (((Inl e, None), h), d)" "is_status e"
  | (run) "del_VolumeId req \<noteq> ''''" "del_Secrets req = None" "del_VolumeId req \<notin> locks (volLocks d)"
      "DeleteVolume d req h = (observed (DeleteVolume_body d req h), d)"
proof (cases "del_VolumeId req = '''' \<or> del_Secrets req \<noteq> None \<or> del_VolumeId req \<in> locks (volLocks d)")
  case True
  then have "\<exists>e. DeleteVolume d req h = (((Inl e, None), h), d) \<and> is_status e"
    by (cases "del_VolumeId req = ''''"; cases "del_Secrets req")
      (auto simp: DeleteVolume_def locked_handler_busy busy_error_def)
  then show thesis using refused by blast
next
  case False
  then show thesis using run DeleteVolume_run by auto
qed

text \<open>
  The contract that the handlers with a volume lock share: a handler that the checks before the lock stop
  has no key, makes no call and is not counted in the metrics; with a key it is turned away when the lock is
  taken, and runs otherwise; in all cases it hands the driver back as it got it.
\<close>

locale csi_handler =
  fixes handle :: "Driver \<Rightarrow> 'h \<Rightarrow> ('r outcome \<times> 'h) \<times> Driver"
    and key :: "string option"
    and busy :: go_error
  assumes busy_status: "is_status busy"
    and before_lock: "key = None \<Longrightarrow> \<exists>e. handle d h = (((Inl e, None), h), d) \<and> is_status e"
    and lock_taken: "key = Some k \<Longrightarrow> k \<in> locks (volLocks d) \<Longrightarrow> handle d h = (((Inl busy, None), h), d)"
    and lock_free: "key = Some k \<Longrightarrow> k \<notin> locks (volLocks d) \<Longrightarrow> \<exists>r ok h'. handle d h = (((r, Some ok), h'), d)"
begin

lemma handler_cases:
  obtains (stopped) e where "handle d h = (((Inl e, None), h), d)" "is_status e"
    "\<And>k. key = Some k \<Longrightarrow> k \<in> locks (volLocks d)"
  | (ran) k r ok h' where "key = Some k" "k \<notin> locks (volLocks d)" "handle d h = (((r, Some ok), h'), d)"
  using before_lock [of d h] lock_taken [of _ d h] lock_free [of _ d h] busy_status
  by (cases key; cases "the key \<in> locks (volLocks d)") (fastforce+)

lemma keeps_driver: "snd (handle d h) = d"
  by (cases rule: handler_cases [of d h]) auto

lemma counted: "snd (fst (fst (handle d h))) \<noteq> None \<longleftrightarrow> (\<exists>k. key = Some k \<and> k \<notin> locks (volLocks d))"
  by (cases rule: handler_cases [of d h]) auto

lemma not_counted: "snd (fst (fst (handle d h))) = None \<Longrightarrow> snd (fst (handle d h)) = h"
  by (cases rule: handler_cases [of d h]) auto

end

definition create_key :: "CreateVolumeRequest \<Rightarrow> string option" where
  "create_key req = (if req_Name req = '''' \<or> checkVolumeRequest req \<noteq> None then None else Some (req_Name req))"

definition delete_key :: "DeleteVolumeRequest \<Rightarrow> string option" where
  "delete_key req = (if del_VolumeId req = '''' \<or> del_Secrets req \<noteq> None then None else Some (del_VolumeId req))"

lemma observed_ran: "\<exists>r ok h'. observed x = ((r, Some ok), h')"
  by (cases x) (auto simp: observed_def)

interpretation cv: csi_handler "\<lambda>d h. CreateVolume ord d req h" "create_key req" "busy_error (req_Name req)" for ord req
proof unfold_locales
  fix d h
  show "\<exists>e. CreateVolume ord d req h = (((Inl e, None), h), d) \<and> is_status e" if "create_key req = None"
    using that by (cases rule: CreateVolume_cases [of ord d req h]) (auto simp: create_key_def)
  show "CreateVolume ord d req h = (((Inl (busy_error (req_Name req)), None), h), d)"
    if "create_key req = Some k" "k \<in> locks (volLocks d)" for k
    using that by (auto simp: create_key_def CreateVolume_def locked_handler_busy split: if_splits)
  show "\<exists>r ok h'. CreateVolume ord d req h = (((r, Some ok), h'), d)"
    if "create_key req = Some k" "k \<notin> locks (volLocks d)" for k
    using that CreateVolume_run [of req d ord h] observed_ran [of "CreateVolume_body ord d req h"]
    by (auto simp: create_key_def split: if_splits)
qed (simp add: busy_error_def)

interpretation dv: csi_handler "\<lambda>d h. DeleteVolume d req h" "delete_key req" "busy_error (del_VolumeId req)" for req
proof unfold_locales
  fix d h
  show "\<exists>e. DeleteVolume d req h = (((Inl e, None), h), d) \<and> is_status e" if "delete_key req = None"
    using that by (cases rule: DeleteVolume_cases [of d req h]) (auto simp: delete_key_def)
  show "DeleteVolume d req h = (((Inl (busy_error (del_VolumeId req)), None), h), d)"
    if "delete_key req = Some k" "k \<in> locks (volLocks d)" for k
    using that by (auto simp: delete_key_def DeleteVolume_def locked_handler_busy split: if_splits)
  show "\<exists>r ok h'. DeleteVolume d req h = (((r, Some ok), h'), d)"
    if "delete_key req = Some k" "k \<notin> locks (volLocks d)" for k
    using that DeleteVolume_run [of req d h] observed_ran [of "DeleteVolume_body d req h"]
    by (auto simp: delete_key_def split: if_splits)
qed (simp add: busy_error_def)

subsection \<open>Errors and calls of CreateVolume\<close>

lemma add_tag_status: "add_tag kv tags = Inl e \<Longrightarrow> is_status e"
  by (auto simp: add_tag_def split: if_splits)

lemma parse_day_status: "parse_day v st = Inl e \<Longrightarrow> is_status e"
  by (auto simp: parse_day_def Let_def split: if_splits)

lemma parse_time_status: "parse_time v st = Inl e \<Longrightarrow> is_status e"
  by (auto simp: parse_time_def split: if_splits)

lemma parse_tags_status: "parse_tags o' v st = Inl e \<Longrightarrow> is_status e"
  by (auto simp: parse_tags_def split: sum.splits dest!: range_loop_error add_tag_status)

text \<open>Only three parameters have a value that can be refused.\<close>

lemma parse_case_Inl:
  "parse_case o' kv st = Inl e \<Longrightarrow>
     parse_day (snd kv) st = Inl e \<or> parse_time (snd kv) st = Inl e \<or> parse_tags o' (snd kv) st = Inl e"
  unfolding parse_case_def Let_def by (auto simp only: sum.distinct split: if_split_asm)

lemma parse_case_status: "parse_case o' kv st = Inl e \<Longrightarrow> is_status e"
  using parse_case_Inl parse_day_status parse_time_status parse_tags_status by blast

lemma parse_status: "parseAmlFilesystemProperties o' m = Inl e \<Longrightarrow> is_status e"
  by (auto simp: parseAmlFilesystemProperties_def must_be_provided_def split: sum.splits if_splits
      dest!: range_loop_error parse_case_status)

lemma round_status: "roundToAmlfsBlockSize c b m = Inl e \<Longrightarrow> is_status e"
  by (auto simp: roundToAmlfsBlockSize_def Let_def split: if_splits)

lemma check_zone_status: "check_zone zs p = Some e \<Longrightarrow> is_status e"
  by (auto simp: check_zone_def split: if_splits)

lemma createVolumeID_status: "createVolumeIDFromParams n m = Inl e \<Longrightarrow> is_status e"
  by (auto simp: createVolumeIDFromParams_eq split: if_splits)

lemma is_status_safe [intro]: "is_status e \<Longrightarrow> grpc_safe e"
  by (simp add: grpc_safe_def)

lemma provisioner_error_safe [simp]: "grpc_safe (provisioner_error ctx err)"
  by (cases err) simp_all


lemma create_cluster_rejected:
  "\<not> isValidVolumeName n \<or> check_zone zs (p\<lparr>StorageCapacityTiB := storageCapacityTib c\<rparr>) \<noteq> None \<Longrightarrow>
     \<exists>e. create_cluster d n p zs c h = (Inl e, h) \<and> is_status e"
  by (cases "check_zone zs (p\<lparr>StorageCapacityTiB := storageCapacityTib c\<rparr>)")
    (auto simp: create_cluster_def Let_def dest: check_zone_status)

lemma create_cluster_sent:
  "isValidVolumeName n \<Longrightarrow> check_zone zs (p\<lparr>StorageCapacityTiB := storageCapacityTib c\<rparr>) = None \<Longrightarrow>
     create_cluster d n p zs c h =
       (case if_CreateAmlFilesystem (dynamicProvisioner d)
            (p\<lparr>StorageCapacityTiB := storageCapacityTib c, AmlFilesystemName := n\<rparr>) h of
          (Inl err, h') \<Rightarrow> (Inl (provisioner_error (''CreateVolume error when creating AMLFS '' @ n) err), h')
        | (Inr mgs, h') \<Rightarrow> (Inr mgs, h'))"
  by (simp add: create_cluster_def Let_def)

text \<open>The calls on a cluster that a request leads to, if any: of the name of the volume, which is then valid.\<close>

definition only_own_cluster :: "string \<Rightarrow> az_history \<Rightarrow> az_history \<Rightarrow> bool" where
  "only_own_cluster n h h' \<longleftrightarrow> (\<exists>rg. stays_on {None, Some (rg, n)} h h')
     \<and> (isValidVolumeName n \<or> stays_on {None} h h')"

lemma only_own_cluster_reads: "stays_on {None} h h' \<Longrightarrow> only_own_cluster n h h'"
  by (auto simp: only_own_cluster_def intro: stays_on_mono)

lemma only_own_cluster_trans:
  assumes "stays_on {None} h h1" "only_own_cluster n h1 h2"
  shows "only_own_cluster n h h2"
proof -
  have "stays_on {None, Some (rg, n)} h h1" for rg using assms(1) by (rule stays_on_mono) auto
  then show ?thesis using assms stays_on_trans unfolding only_own_cluster_def by blast
qed

context lustre_provisioner
begin

lemma create_sizes_calls:
  assumes "dynamicProvisioner d = I" "create_sizes d sc p h = (r, h')"
  shows "stays_on {None} h h'" "\<not> sc \<Longrightarrow> h' = h" "r = Inl e \<Longrightarrow> grpc_safe e"
proof -
  obtain q h1 where q: "if_GetSkuValuesForLocation I (Location p) h = (q, h1)" by fastforce
  note facts = skus_calls [OF q] skus_safe [of "Location p" h _ h1]
  show "stays_on {None} h h'" using assms q facts
    by (auto simp: create_sizes_def getSkuValuesForLocation_def split: if_splits sum.splits option.splits prod.splits)
  show "\<not> sc \<Longrightarrow> h' = h" using assms by (simp add: create_sizes_def)
  show "r = Inl e \<Longrightarrow> grpc_safe e" using assms q facts
    by (auto simp: create_sizes_def getSkuValuesForLocation_def split: if_splits sum.splits option.splits prod.splits)
qed

lemma create_cluster_calls:
  assumes "dynamicProvisioner d = I" "create_cluster d n p zs c h = (r, h')"
  shows "only_own_cluster n h h'" "r = Inl e \<Longrightarrow> grpc_safe e"
proof -
  let ?p = "p\<lparr>StorageCapacityTiB := storageCapacityTib c\<rparr>"
  have "only_own_cluster n h h' \<and> (r = Inl e \<longrightarrow> grpc_safe e)"
  proof (cases "isValidVolumeName n \<and> check_zone zs ?p = None")
    case True
    obtain q h1 where q: "if_CreateAmlFilesystem I (?p\<lparr>AmlFilesystemName := n\<rparr>) h = (q, h1)" by fastforce
    then have "stays_on {None, Some (ResourceGroupName p, n)} h h1" using create_calls [OF q] by simp
    then have "only_own_cluster n h h1" using True unfolding only_own_cluster_def by blast
    then show ?thesis using True assms q by (auto simp: create_cluster_sent split: sum.splits)
  next
    case False
    then show ?thesis using create_cluster_rejected [of n zs c p d h] assms(2)
      by (auto intro: only_own_cluster_reads)
  qed
  then show "only_own_cluster n h h'" "r = Inl e \<Longrightarrow> grpc_safe e" by auto
qed

lemma finish_calls:
  assumes "dynamicProvisioner d = I" "CreateVolume_finish ord d req params sc p sizes h = (r, h')"
  shows "only_own_cluster (req_Name req) h h'" "\<not> sc \<Longrightarrow> h' = h" "r = Inl e \<Longrightarrow> grpc_safe e"
proof -
  define q where "q = (\<lambda>c. fst (if sc then create_cluster d (req_Name req) p (snd (snd sizes)) c h else (Inr '''', h)))"
  define h1 where "h1 = (\<lambda>c. snd (if sc then create_cluster d (req_Name req) p (snd (snd sizes)) c h else (Inr '''', h)))"
  have q: "(if sc then create_cluster d (req_Name req) p (snd (snd sizes)) c h else (Inr '''', h)) = (q c, h1 c)" for c
    by (simp add: q_def h1_def)
  have own: "only_own_cluster (req_Name req) h (h1 c) \<and> (\<forall>e. q c = Inl e \<longrightarrow> grpc_safe e) \<and> (\<not> sc \<longrightarrow> h1 c = h)" for c
    using q [of c] create_cluster_calls [OF assms(1), of "req_Name req" p "snd (snd sizes)" c h "q c" "h1 c"]
    by (auto intro: only_own_cluster_reads split: if_splits)
  have "only_own_cluster (req_Name req) h h' \<and> (\<not> sc \<longrightarrow> h' = h) \<and> (r = Inl e \<longrightarrow> grpc_safe e)"
    using assms(2) own unfolding CreateVolume_finish_def Let_def q
    by (auto split: sum.splits if_splits dest: round_status createVolumeID_status intro: only_own_cluster_reads)
  then show "only_own_cluster (req_Name req) h h'" "\<not> sc \<Longrightarrow> h' = h" "r = Inl e \<Longrightarrow> grpc_safe e" by auto
qed

lemma body_calls:
  assumes "dynamicProvisioner d = I" "CreateVolume_body ord d req h = (r, h')"
  shows "only_own_cluster (req_Name req) h h' \<and> (\<forall>e. r = Inl e \<longrightarrow> grpc_safe e)
    \<and> ((\<exists>m. req_Parameters req = Some m \<and> GetValueInMap (Some (ord 0 m)) VolumeContextMGSIPAddress \<noteq> '''') \<longrightarrow> h' = h)
    \<and> ((\<exists>m e. req_Parameters req = Some m \<and> parseAmlFilesystemProperties (ord 7) (ord 1 m) = Inl e) \<longrightarrow> h' = h)"
proof (cases "req_Parameters req")
  case None
  then show ?thesis using assms by (auto simp: CreateVolume_body_def intro: only_own_cluster_reads)
next
  case (Some m)
  define sc where "sc = (GetValueInMap (Some (ord 0 m)) VolumeContextMGSIPAddress = '''')"
  show ?thesis
  proof (cases "parseAmlFilesystemProperties (ord 7) (ord 1 m)")
    case (Inl e)
    then show ?thesis using assms Some by (auto simp: CreateVolume_body_def Let_def intro: only_own_cluster_reads dest: parse_status)
  next
    case (Inr p0)
    define p where "p = (if sc then fill_defaults d p0 else p0)"
    obtain s h1 where s: "create_sizes d sc p h = (s, h1)" by fastforce
    note sizes = create_sizes_calls [OF assms(1) s]
    have run: "(r, h') = (case s of Inl e \<Rightarrow> (Inl e, h1) | Inr sizes \<Rightarrow> CreateVolume_finish ord d req m sc p sizes h1)"
      using assms(2) Some Inr s by (simp add: CreateVolume_body_def Let_def sc_def [symmetric] p_def [symmetric])
    have "only_own_cluster (req_Name req) h h' \<and> (\<forall>e. r = Inl e \<longrightarrow> grpc_safe e) \<and> (\<not> sc \<longrightarrow> h' = h)"
    proof (cases s)
      case (Inl e)
      then show ?thesis using run sizes by (auto intro: only_own_cluster_reads)
    next
      case (Inr v)
      then have "CreateVolume_finish ord d req m sc p v h1 = (r, h')" using run by simp
      note f = finish_calls [OF assms(1) this]
      show ?thesis using f sizes(2) only_own_cluster_trans [OF sizes(1) f(1)] by auto
    qed
    then show ?thesis using Some Inr sc_def by auto
  qed
qed

end


lemma CreateVolume_finish_Inr:
  assumes "CreateVolume_finish ord d req m sc p sizes h = (Inr resp, h')"
  obtains mgs where
    "roundToAmlfsBlockSize (if GetRequiredBytes (req_CapacityRange req) = 0 then defaultSizeInBytes
        else GetRequiredBytes (req_CapacityRange req)) (fst sizes) (fst (snd sizes)) = Inr (resp_CapacityBytes resp)"
    "GetLimitBytes (req_CapacityRange req) = 0 \<or> sint (resp_CapacityBytes resp) \<le> sint (GetLimitBytes (req_CapacityRange req))"
    "sc \<Longrightarrow> create_cluster d (req_Name req) p (snd (snd sizes)) (resp_CapacityBytes resp) h = (Inr mgs, h')"
    "\<not> sc \<Longrightarrow> h' = h"
    "resp_VolumeContext resp = create_context ord (if sc then Some (ResourceGroupName p, mgs) else None) m"
    "createVolumeIDFromParams (req_Name req) (ord 6 (resp_VolumeContext resp)) = Inr (resp_VolumeId resp)"
  using assms
  by (auto simp: CreateVolume_finish_def Let_def word_sless_sint not_less split: sum.splits if_split_asm prod.splits)

lemma CreateVolume_Inr:
  assumes "CreateVolume ord d req h = (((Inr resp, obs), h'), d')"
  obtains m p0 sizes h1 mgs where "req_Parameters req = Some m"
    "parseAmlFilesystemProperties (ord 7) (ord 1 m) = Inr p0"
    "create_sizes d (GetValueInMap (Some (ord 0 m)) VolumeContextMGSIPAddress = '''')
       (if GetValueInMap (Some (ord 0 m)) VolumeContextMGSIPAddress = '''' then fill_defaults d p0 else p0) h = (Inr sizes, h1)"
    "CreateVolume_finish ord d req m (GetValueInMap (Some (ord 0 m)) VolumeContextMGSIPAddress = '''')
       (if GetValueInMap (Some (ord 0 m)) VolumeContextMGSIPAddress = '''' then fill_defaults d p0 else p0) sizes h1 = (Inr resp, h')"
    "req_Name req \<noteq> ''''" "obs = Some True"
proof (cases rule: CreateVolume_cases [of ord d req h])
  case (refused e)
  then show ?thesis using assms by simp
next
  case run
  then have body: "CreateVolume_body ord d req h = (Inr resp, h')" "obs = Some True"
    using assms by (auto simp: observed_def split: prod.splits)
  then show ?thesis using that run(1)
    by (auto simp: CreateVolume_body_def Let_def split: option.splits sum.splits prod.splits)
qed

lemma CreateVolume_context:
  assumes "CreateVolume ord d req h = (((Inr resp, obs), h'), d')" "req_Parameters req = Some m"
  obtains cluster where "resp_VolumeContext resp = create_context ord cluster m"
    "createVolumeIDFromParams (req_Name req) (ord 6 (resp_VolumeContext resp)) = Inr (resp_VolumeId resp)"
proof -
  obtain sc p sizes h1 where "CreateVolume_finish ord d req m sc p sizes h1 = (Inr resp, h')"
    using assms by (elim CreateVolume_Inr) auto
  then show thesis using that by (rule CreateVolume_finish_Inr) blast
qed

text \<open>
  C2. What \<open>CreateVolume\<close> does to Azure, for every behaviour of the services and every order of
  its loops: the only cluster it may change is the one named like the volume, and only if that name
  is a valid cluster name. It changes nothing and calls nothing when the parameters are refused or
  when they name an existing server. Every error is a gRPC status (or the panic of a response
  without the fields the driver reads), and the metrics count exactly the requests that took the lock.
\<close>

theorem create_volume_calls:
  assumes "dynamicProvisioner d = dp_interface dp"
    and "CreateVolume ord d req h = (((r, obs), h'), d')"
  shows "only_own_cluster (req_Name req) h h'
    \<and> (case r of Inl e \<Rightarrow> grpc_safe e \<and> obs \<noteq> Some True | Inr _ \<Rightarrow> obs = Some True)
    \<and> (obs = None \<longrightarrow> h' = h)
    \<and> (\<forall>m. req_Parameters req = Some m \<longrightarrow>
         GetValueInMap (Some (ord 0 m)) VolumeContextMGSIPAddress \<noteq> ''''
         \<or> (\<exists>e. parseAmlFilesystemProperties (ord 7) (ord 1 m) = Inl e) \<longrightarrow> h' = h)"
proof (cases rule: CreateVolume_cases [of ord d req h])
  case (refused e)
  then show ?thesis using assms(2) by (auto intro: only_own_cluster_reads)
next
  case run
  then obtain "CreateVolume_body ord d req h = (r, h')" and o: "obs = Some (case r of Inl _ \<Rightarrow> False | Inr _ \<Rightarrow> True)"
    using assms(2) by (auto simp: observed_def split: prod.splits)
  from dp.body_calls [OF assms(1) this(1)] o show ?thesis by (auto split: sum.splits)
qed

definition sample_driver :: Driver where
  "sample_driver = (baseDriver (sample_outside None) sample_options)\<lparr>
     dynamicProvisioner := dp_interface (sample_provisioner (sample_client (Inl (PlainError ''ResourceNotFound'')) None)),
     cloud := \<lparr>SubscriptionID = ''sub'', NetworkResourceSubscriptionID = '''', cloud_ResourceGroup = ''mc'',
       cloud_VnetResourceGroup = '''', cloud_VnetName = ''vnet'', cloud_SubnetName = ''subnet''\<rparr>,
     drv_resourceGroup := ''mc-rg'', drv_location := ''eastus''\<rparr>"

definition sample_request :: "gomap \<Rightarrow> CreateVolumeRequest" where
  "sample_request m = \<lparr>req_Name = ''pvc-1'', req_CapacityRange = Some (1, 0),
     req_VolumeCapabilities = [\<lparr>vc_AccessType = Some (AccessMount \<lparr>FsType = '''', MountFlags = []\<rparr>),
       vc_AccessMode = Some \<lparr>am_Mode = MULTI_NODE_MULTI_WRITER\<rparr>\<rparr>],
     req_Parameters = Some m, req_Secrets = None, req_VolumeContentSource = None, req_AccessibilityRequirements = None\<rparr>"

text \<open>The visit of a map in the order of its list.\<close>

definition list_order :: range_order where
  "list_order i m = m"

lemma valid_list_order: "valid_order list_order"
  by (simp add: valid_order_def list_order_def)

lemma sample_driver_provisioner:
  "dynamicProvisioner sample_driver = dp_interface (sample_provisioner (sample_client (Inl (PlainError ''ResourceNotFound'')) None))"
  by (simp add: sample_driver_def)

theorem create_volume_calls_witness:
  "snd (fst (CreateVolume list_order sample_driver (sample_request [(''MGS-IP-Address'', ''10.0.0.9'')]) [])) = []"
proof -
  let ?req = "sample_request [(''MGS-IP-Address'', ''10.0.0.9'')]"
  obtain r obs h' d' where run: "CreateVolume list_order sample_driver ?req [] = (((r, obs), h'), d')"
    by (metis prod.collapse)
  have "GetValueInMap (Some [(''MGS-IP-Address'', ''10.0.0.9'')]) VolumeContextMGSIPAddress \<noteq> ''''" by code_simp
  then have "h' = []" using create_volume_calls [OF sample_driver_provisioner run]
    by (simp add: sample_request_def list_order_def)
  then show ?thesis using run by simp
qed

end
