(* ===== verification/Controller_Theorems.thy ===== *)
theory Controller_Theorems
  imports Controller_Server
begin

text \<open>
  Properties of the controller's handlers that need a longer argument: the capacity of a created
  volume, the life cycle of a volume (what \<open>DeleteVolume\<close> does with an identifier that
  \<open>CreateVolume\<close> returned), the parameters that are accepted and the tags of a cluster.
\<close>

subsection \<open>Capacity\<close>

lemma sint_zero_iff: "sint (x :: int64) = 0 \<longleftrightarrow> x = 0"
  by (rule signed_eq_0_iff)

lemma create_sizes_Inr:
  assumes "create_sizes d sc p h = (Inr (block, mx, zones), h1)"
  shows "if sc then \<exists>m v. if_GetSkuValuesForLocation (dynamicProvisioner d) (Location p) h = (Inr m, h1)
      \<and> map_of m (SKUName p) = Some v \<and> block = IncrementInTib v * TiB \<and> mx = MaximumInTib v * TiB \<and> zones = AvailableZones v
    else block = defaultLaaSOBlockSizeInTib * TiB \<and> mx = 0 \<and> zones = [] \<and> h1 = h"
  using assms
  by (auto simp: create_sizes_def getSkuValuesForLocation_def split: if_splits prod.splits sum.splits option.splits)

text \<open>An increment or a maximum given in TiB as the services give them.\<close>

definition tib_ok :: "int64 \<Rightarrow> bool" where
  "tib_ok n \<longleftrightarrow> 0 < sint n \<and> sint n < 2 ^ 23"

definition tib_skus :: "DynamicProvisionerInterface \<Rightarrow> bool" where
  "tib_skus I \<longleftrightarrow> (\<forall>location h rows h1 name v. if_GetSkuValuesForLocation I location h = (Inr rows, h1)
     \<longrightarrow> map_of rows name = Some v \<longrightarrow> tib_ok (IncrementInTib v) \<and> tib_ok (MaximumInTib v))"

lemma tib_skusD:
  "tib_skus I \<Longrightarrow> if_GetSkuValuesForLocation I location h = (Inr rows, h1) \<Longrightarrow> map_of rows name = Some v \<Longrightarrow>
     tib_ok (IncrementInTib v) \<and> tib_ok (MaximumInTib v)"
  unfolding tib_skus_def by blast

lemma tib_ok_sint: "tib_ok n \<Longrightarrow> sint (n * TiB) = sint n * 2 ^ 40"
  by (subst sint64_mult) (auto simp: tib_ok_def)

lemma sizes_in_tib:
  assumes units: "tib_skus (dynamicProvisioner d)" and sizes: "create_sizes d sc p h = (Inr (block, mx, zones), h1)"
  shows "0 < sint block" "2 ^ 40 dvd sint block" "\<not> sc \<longrightarrow> sint block = 2 ^ 42 \<and> sint mx = 0"
    "sc \<longrightarrow> (\<exists>location h0 rows h1 name v. if_GetSkuValuesForLocation (dynamicProvisioner d) location h0 = (Inr rows, h1)
       \<and> map_of rows name = Some v \<and> sint block = sint (IncrementInTib v) * 2 ^ 40 \<and> sint mx = sint (MaximumInTib v) * 2 ^ 40)"
proof -
  note row = create_sizes_Inr [OF sizes]
  have "0 < sint block \<and> 2 ^ 40 dvd sint block \<and> (\<not> sc \<longrightarrow> sint block = 2 ^ 42 \<and> sint mx = 0) \<and> (sc \<longrightarrow>
      (\<exists>location h0 rows h1 name v. if_GetSkuValuesForLocation (dynamicProvisioner d) location h0 = (Inr rows, h1)
       \<and> map_of rows name = Some v \<and> sint block = sint (IncrementInTib v) * 2 ^ 40 \<and> sint mx = sint (MaximumInTib v) * 2 ^ 40))"
  proof (cases sc)
    case True
    then obtain rows v where v: "if_GetSkuValuesForLocation (dynamicProvisioner d) (Location p) h = (Inr rows, h1)"
      "map_of rows (SKUName p) = Some v" "block = IncrementInTib v * TiB" "mx = MaximumInTib v * TiB"
      using row by auto
    note ok = tib_skusD [OF units v(1,2)]
    have "0 < sint block \<and> 2 ^ 40 dvd sint block" using ok v(3) by (simp add: tib_ok_sint, simp add: tib_ok_def)
    then show ?thesis using v ok True tib_ok_sint by blast
  next
    case False
    then have "block = defaultLaaSOBlockSizeInTib * TiB" using row by simp
    then show ?thesis using False row sint_default(2) by (simp add: dvd_def)
  qed
  then show "0 < sint block" "2 ^ 40 dvd sint block" "\<not> sc \<longrightarrow> sint block = 2 ^ 42 \<and> sint mx = 0"
    "sc \<longrightarrow> (\<exists>location h0 rows h1 name v. if_GetSkuValuesForLocation (dynamicProvisioner d) location h0 = (Inr rows, h1)
       \<and> map_of rows name = Some v \<and> sint block = sint (IncrementInTib v) * 2 ^ 40 \<and> sint mx = sint (MaximumInTib v) * 2 ^ 40)"
    by blast+
qed



lemma sample_units:
  assumes "if_GetSkuValuesForLocation (dynamicProvisioner sample_driver) location h = (Inr rows, h1)"
    and "map_of rows name = Some v"
  shows "tib_ok (IncrementInTib v) \<and> tib_ok (MaximumInTib v)"
proof -
  have "GetSkuValuesForLocation (sample_provisioner (sample_client (Inl (PlainError ''ResourceNotFound'')) None)) location h = (Inr rows, h1)"
    using assms(1) by (simp add: sample_driver_provisioner dp_interface_def)
  from GetSkuValuesForLocation_Inr [OF this] map_of_SomeD [OF assms(2)]
  have "sku_capacity (sku_Capabilities sample_sku) = Inr (IncrementInTib v, MaximumInTib v)"
    by (auto simp: sku_row_ok_def service_skus_def sample_provisioner_def)
  moreover have "parse_int64 ''8'' = Some 8" "parse_int64 ''128'' = Some 128" by code_simp+
  ultimately have "IncrementInTib v = 8" "MaximumInTib v = 128"
    by (simp_all add: sample_sku_def sku_capacity_def read_capability_def)
  then show ?thesis by (simp add: tib_ok_def)
qed

lemma sample_tib_skus: "tib_skus (dynamicProvisioner sample_driver)"
  unfolding tib_skus_def using sample_units by blast

text \<open>A request for a volume in a sub-directory of an existing server, and what it returns.\<close>

definition static_with :: "string \<Rightarrow> gomap" where
  "static_with sub = [(''mgs-ip-address'', ''10.0.0.9''), (''sub-dir'', sub)]"

abbreviation static_params :: gomap where
  "static_params \<equiv> static_with ''/a/''"

lemma static_with_run:
  assumes "trim_byte (CHR ''/'') sub \<noteq> ''''"
  shows "CreateVolume list_order sample_driver (sample_request (static_with sub)) [] =
     (((Inr \<lparr>resp_VolumeId = volumeID_format ''pvc-1'' DefaultLustreFsName ''10.0.0.9'' (trim_byte (CHR ''/'') sub) ''f'' '''',
          resp_CapacityBytes = 4 * TiB,
          resp_VolumeContext = static_with sub @ [(''created-by-dynamic-provisioning'', ''f'')]\<rparr>, Some True), []), sample_driver)"
proof -
  let ?m = "static_with sub" and ?ctx = "static_with sub @ [(''created-by-dynamic-provisioning'', ''f'')]"
  have keys: "to_lower ''mgs-ip-address'' = ''mgs-ip-address''" "to_lower ''sub-dir'' = ''sub-dir''"
    "to_lower ''created-by-dynamic-provisioning'' = ''created-by-dynamic-provisioning''"
    "\<not> equal_fold ''mgs-ip-address'' ''created-by-dynamic-provisioning''"
    "\<not> equal_fold ''sub-dir'' ''created-by-dynamic-provisioning''" by code_simp+
  have get: "GetValueInMap (Some ?m) VolumeContextMGSIPAddress = ''10.0.0.9''"
    by (simp add: static_with_def GetValueInMap_def)
  have parse: "\<exists>p. parseAmlFilesystemProperties (list_order 7) ?m = Inr p"
    by (simp add: parseAmlFilesystemProperties_def static_with_def parse_case_def parse_init_def keys)
  have ctx: "create_context list_order None ?m = ?ctx"
    by (simp add: create_context_def static_with_def SetKeyValueInMap_def list_order_def keys)
  have vid: "createVolumeIDFromParams ''pvc-1'' ?ctx =
      Inr (volumeID_format ''pvc-1'' DefaultLustreFsName ''10.0.0.9'' (trim_byte (CHR ''/'') sub) ''f'' '''')"
    using assms by (simp add: createVolumeIDFromParams_eq static_with_def bad_subDir_def ci_value_def keys)
  have round: "roundToAmlfsBlockSize 1 (defaultLaaSOBlockSizeInTib * TiB) 0 = Inr (4 * TiB)"
    by (simp add: roundToAmlfsBlockSize_def Let_def TiB_def GiB_def defaultLaaSOBlockSizeInTib_def go_div_def
        word_sless_alt sdiv_nonneg)
  have "CreateVolume_body list_order sample_driver (sample_request ?m) [] =
    (Inr \<lparr>resp_VolumeId = volumeID_format ''pvc-1'' DefaultLustreFsName ''10.0.0.9'' (trim_byte (CHR ''/'') sub) ''f'' '''',
       resp_CapacityBytes = 4 * TiB, resp_VolumeContext = ?ctx\<rparr>, [])"
    using parse get ctx vid round
    by (auto simp: CreateVolume_body_def CreateVolume_finish_def sample_request_def list_order_def create_sizes_def
        GetRequiredBytes_def GetLimitBytes_def)
  moreover have "req_Name (sample_request ?m) \<noteq> ''''" "checkVolumeRequest (sample_request ?m) = None"
    "req_Name (sample_request ?m) \<notin> locks (volLocks sample_driver)"
    by (simp_all add: sample_request_def checkVolumeRequest_def GetMount_def GetMode_def AccessMode_GetMode_def volumeCapabilities_def
        sample_driver_def baseDriver_def newVolumeLocks_def)
  ultimately show ?thesis by (simp add: CreateVolume_run observed_def)
qed

lemma sample_static_run:
  "CreateVolume list_order sample_driver (sample_request static_params) [] =
     (((Inr \<lparr>resp_VolumeId = ''pvc-1#lustrefs#10.0.0.9#a#f#'', resp_CapacityBytes = 4 * TiB,
          resp_VolumeContext = static_params @ [(''created-by-dynamic-provisioning'', ''f'')]\<rparr>, Some True), []), sample_driver)"
proof -
  have "trim_byte (CHR ''/'') ''/a/'' = ''a''" by code_simp
  then show ?thesis using static_with_run [of "''/a/''"] by (simp add: volumeID_format_def)
qed


subsection \<open>The life cycle of a volume\<close>

text \<open>Parameters as Kubernetes delivers them: ASCII keys, no two of which differ in case only.\<close>

definition good_params :: "gomap \<Rightarrow> bool" where
  "good_params m \<longleftrightarrow> ci_ok (Some m) \<and> list_all (\<lambda>kv. ascii (fst kv)) m"

lemma good_params_same: "good_params m \<Longrightarrow> same_map m' m \<Longrightarrow> good_params m'"
  using same_map_set [of m' m] same_map_distinct [of m' m "fold_key \<circ> fst"]
  by (auto simp: good_params_def ci_ok_def list_all_iff)

lemma good_params_lc_ok: "good_params m \<Longrightarrow> lc_ok m"
proof -
  assume "good_params m"
  then have "map (to_lower \<circ> fst) m = map (fold_key \<circ> fst) m" "distinct (map (fold_key \<circ> fst) m)"
    by (auto simp: good_params_def ci_ok_def list_all_iff to_lower_ascii fold_key_ascii)
  then show ?thesis unfolding lc_ok_def by metis
qed

lemma good_params_value:
  assumes "good_params m" "ascii key" "to_lower key = key"
  shows "ci_value key m = GetValueInMap (Some m) key"
proof -
  have same: "equal_fold k key \<longleftrightarrow> to_lower k = key" if "(k, v) \<in> set m" for k v
    using that assms equal_fold_lower [of k key] by (auto simp: good_params_def list_all_iff)
  show ?thesis
  proof (cases "\<exists>k v. (k, v) \<in> set m \<and> equal_fold k key")
    case True
    then obtain k v where kv: "(k, v) \<in> set m" "equal_fold k key" by blast
    then have "ci_last key m = Some v" using ci_last_unique [OF good_params_lc_ok [OF assms(1)]] same by blast
    moreover have "GetValueInMap (Some m) key = v"
      using kv assms(1) by (intro GetValueInMap_eq) (auto simp: good_params_def ci_ok_def)
    ultimately show ?thesis by (simp add: ci_value_def)
  next
    case False
    then have "ci_last key m = None" using same by (fastforce simp: ci_last_None)
    moreover have "GetValueInMap (Some m) key = ''''" using False by (intro GetValueInMap_absent) auto
    ultimately show ?thesis by (simp add: ci_value_def)
  qed
qed

lemma good_params_put:
  assumes "good_params m" "ascii key"
  shows "good_params (the (SetKeyValueInMap (Some m) key v))"
    and "GetValueInMap (Some (the (SetKeyValueInMap (Some m) key v))) key' =
      (if equal_fold key key' then v else GetValueInMap (Some m) key')"
proof -
  have ok: "ci_ok (Some m)" using assms(1) by (simp add: good_params_def)
  obtain m' where m': "SetKeyValueInMap (Some m) key v = Some m'"
    by (cases "find_fold m key") (auto simp: SetKeyValueInMap_def)
  have "\<exists>k. m' = AList.update k v m \<and> ascii k"
    using m' assms find_fold_Some by (fastforce simp: SetKeyValueInMap_def good_params_def list_all_iff split: option.splits)
  then have "list_all (\<lambda>kv. ascii (fst kv)) m'"
    using assms(1) set_update_subset [of _ v m] by (fastforce simp: good_params_def list_all_iff)
  then show "good_params (the (SetKeyValueInMap (Some m) key v))"
    using params.ok_put [OF ok, of key v] m' by (simp add: good_params_def)
  show "GetValueInMap (Some (the (SetKeyValueInMap (Some m) key v))) key' =
      (if equal_fold key key' then v else GetValueInMap (Some m) key')"
    using params.get_put [OF ok, of key v key'] m' by simp
qed

text \<open>One step of the controller: visit the map in some order and write a value.\<close>

lemma ordered_put:
  assumes "good_params m" "ascii key" "valid_order ord"
  shows "good_params (the (SetKeyValueInMap (Some (ord i m)) key v))"
    and "GetValueInMap (Some (the (SetKeyValueInMap (Some (ord i m)) key v))) key' =
      (if equal_fold key key' then v else GetValueInMap (Some m) key')"
proof -
  have s: "same_map (ord i m) m" "same_map m (ord i m)" using assms(3) by (auto simp: valid_order_def same_map_def)
  have g: "good_params (ord i m)" using good_params_same [OF assms(1) s(1)] .
  have eq: "GetValueInMap (Some (ord i m)) key' = GetValueInMap (Some m) key'"
    using GetValueInMap_same_map [OF s(2)] assms(1) by (simp add: good_params_def)
  show "good_params (the (SetKeyValueInMap (Some (ord i m)) key v))"
    by (rule good_params_put(1) [OF g assms(2)])
  show "GetValueInMap (Some (the (SetKeyValueInMap (Some (ord i m)) key v))) key' =
      (if equal_fold key key' then v else GetValueInMap (Some m) key')"
    unfolding good_params_put(2) [OF g assms(2)] eq ..
qed

lemma context_keys:
  "ascii VolumeContextMGSIPAddress" "ascii VolumeContextFSName" "ascii VolumeContextResourceGroupName"
  "ascii VolumeContextInternalDynamicallyCreated" "ascii VolumeContextSubDir"
  "to_lower VolumeContextMGSIPAddress = VolumeContextMGSIPAddress"
  "to_lower VolumeContextResourceGroupName = VolumeContextResourceGroupName"
  "to_lower VolumeContextInternalDynamicallyCreated = VolumeContextInternalDynamicallyCreated"
  "to_lower VolumeContextSubDir = VolumeContextSubDir" "to_lower VolumeContextFSName = VolumeContextFSName"
  by code_simp+

lemma context_keys_distinct:
  "a \<in> {VolumeContextMGSIPAddress, VolumeContextFSName, VolumeContextResourceGroupName,
      VolumeContextInternalDynamicallyCreated, VolumeContextSubDir} \<Longrightarrow>
   b \<in> {VolumeContextMGSIPAddress, VolumeContextFSName, VolumeContextResourceGroupName,
      VolumeContextInternalDynamicallyCreated, VolumeContextSubDir} \<Longrightarrow> equal_fold a b \<longleftrightarrow> a = b"
  using context_keys by (elim insertE emptyE) (simp_all add: equal_fold_lower)


lemma create_context_value:
  assumes "valid_order ord" "good_params m"
  shows "good_params (create_context ord cl m)"
    and "GetValueInMap (Some (create_context ord cl m)) VolumeContextMGSIPAddress =
      (case cl of None \<Rightarrow> GetValueInMap (Some m) VolumeContextMGSIPAddress | Some (rg, mgs) \<Rightarrow> mgs)"
    and "GetValueInMap (Some (create_context ord cl m)) VolumeContextResourceGroupName =
      (case cl of None \<Rightarrow> GetValueInMap (Some m) VolumeContextResourceGroupName | Some (rg, mgs) \<Rightarrow> rg)"
    and "GetValueInMap (Some (create_context ord cl m)) VolumeContextInternalDynamicallyCreated =
      (case cl of None \<Rightarrow> ''f'' | Some _ \<Rightarrow> ''t'')"
    and "GetValueInMap (Some (create_context ord cl m)) VolumeContextSubDir = GetValueInMap (Some m) VolumeContextSubDir"
  using assms
  by (auto simp: create_context_def Let_def ordered_put context_keys context_keys_distinct split: option.splits)

text \<open>What one parameter does to the fields of the cluster.\<close>

lemma parse_case_fields:
  assumes "parse_case o' (k, v) st = Inr st'"
  shows "ResourceGroupName (pv_props st') = (if to_lower k = VolumeContextResourceGroupName then v else ResourceGroupName (pv_props st))"
    and "Location (pv_props st') = (if to_lower k = VolumeContextLocation then v else Location (pv_props st))"
    and "SKUName (pv_props st') = (if to_lower k = VolumeContextSkuName then v else SKUName (pv_props st))"
    and "VnetName (SubnetInfo (pv_props st')) = (if to_lower k = VolumeContextVnetName then v else VnetName (SubnetInfo (pv_props st)))"
    and "VnetResourceGroup (SubnetInfo (pv_props st')) =
      (if to_lower k = VolumeContextVnetResourceGroup then v else VnetResourceGroup (SubnetInfo (pv_props st)))"
    and "SubnetName (SubnetInfo (pv_props st')) = (if to_lower k = VolumeContextSubnetName then v else SubnetName (SubnetInfo (pv_props st)))"
    and "TimeOfDayUTC (pv_props st') = (if to_lower k = VolumeContextMaintenanceTimeOfDayUtc then v else TimeOfDayUTC (pv_props st))"
  using assms unfolding parse_case_def Let_def fst_conv snd_conv
  by (auto simp: parse_day_def parse_time_def parse_tags_def set_tag_def Let_def split: if_split_asm sum.splits)


lemma loop_field:
  assumes "\<And>k v st st'. f (k, v) st = Inr st' \<Longrightarrow> get st' = (if to_lower k = key then v else get st)"
    and "range_loop f m st = Inr st'"
  shows "get st' = upd_opt (ci_last key m) (get st)"
  using assms(2)
proof (induction m arbitrary: st)
  case (Cons kv m)
  obtain k v where kv: "kv = (k, v)" by (cases kv) auto
  obtain st1 where st1: "f (k, v) st = Inr st1" "range_loop f m st1 = Inr st'"
    using Cons.prems kv by (auto split: sum.splits)
  show ?case using Cons.IH [OF st1(2)] assms(1) [OF st1(1)] kv
    by (auto simp: ci_last_key upd_opt_def simp del: ci_last.simps split: option.splits)
qed simp

lemma parse_Inr:
  assumes "parseAmlFilesystemProperties o' m = Inr p"
  obtains st where "range_loop (parse_case o') m parse_init = Inr st" "p = pv_props st" "pv_errors st = []"
    "pv_shouldCreate st \<Longrightarrow> MaintenanceDayOfWeek p \<noteq> '''' \<and> SKUName p \<noteq> '''' \<and> TimeOfDayUTC p \<noteq> ''''"
  using assms
  by (auto simp: parseAmlFilesystemProperties_def must_be_provided_def split: sum.splits if_split_asm)

lemma parse_fields:
  assumes "parseAmlFilesystemProperties o' m = Inr p"
  shows "ResourceGroupName p = ci_value VolumeContextResourceGroupName m" "Location p = ci_value VolumeContextLocation m"
    "SKUName p = ci_value VolumeContextSkuName m" "VnetName (SubnetInfo p) = ci_value VolumeContextVnetName m"
    "VnetResourceGroup (SubnetInfo p) = ci_value VolumeContextVnetResourceGroup m"
    "SubnetName (SubnetInfo p) = ci_value VolumeContextSubnetName m"
    "TimeOfDayUTC p = ci_value VolumeContextMaintenanceTimeOfDayUtc m"
proof -
  obtain st where st: "range_loop (parse_case o') m parse_init = Inr st" "p = pv_props st"
    using assms by (rule parse_Inr)
  have empty: "upd_opt x '''' = (case x of None \<Rightarrow> '''' | Some v \<Rightarrow> v)" for x by (simp add: upd_opt_def)
  note loop = loop_field [where f = "parse_case o'", OF _ st(1), unfolded parse_init_def emptyProperties_def, simplified]
  show "ResourceGroupName p = ci_value VolumeContextResourceGroupName m"
    using loop_field [where f = "parse_case o'" and get = "\<lambda>st. ResourceGroupName (pv_props st)", OF parse_case_fields(1) st(1)]
    by (simp add: st(2) ci_value_def empty parse_init_def emptyProperties_def)
  show "Location p = ci_value VolumeContextLocation m"
    using loop_field [where f = "parse_case o'" and get = "\<lambda>st. Location (pv_props st)", OF parse_case_fields(2) st(1)]
    by (simp add: st(2) ci_value_def empty parse_init_def emptyProperties_def)
  show "SKUName p = ci_value VolumeContextSkuName m"
    using loop_field [where f = "parse_case o'" and get = "\<lambda>st. SKUName (pv_props st)", OF parse_case_fields(3) st(1)]
    by (simp add: st(2) ci_value_def empty parse_init_def emptyProperties_def)
  show "VnetName (SubnetInfo p) = ci_value VolumeContextVnetName m"
    using loop_field [where f = "parse_case o'" and get = "\<lambda>st. VnetName (SubnetInfo (pv_props st))", OF parse_case_fields(4) st(1)]
    by (simp add: st(2) ci_value_def empty parse_init_def emptyProperties_def)
  show "VnetResourceGroup (SubnetInfo p) = ci_value VolumeContextVnetResourceGroup m"
    using loop_field [where f = "parse_case o'" and get = "\<lambda>st. VnetResourceGroup (SubnetInfo (pv_props st))", OF parse_case_fields(5) st(1)]
    by (simp add: st(2) ci_value_def empty parse_init_def emptyProperties_def)
  show "SubnetName (SubnetInfo p) = ci_value VolumeContextSubnetName m"
    using loop_field [where f = "parse_case o'" and get = "\<lambda>st. SubnetName (SubnetInfo (pv_props st))", OF parse_case_fields(6) st(1)]
    by (simp add: st(2) ci_value_def empty parse_init_def emptyProperties_def)
  show "TimeOfDayUTC p = ci_value VolumeContextMaintenanceTimeOfDayUtc m"
    using loop_field [where f = "parse_case o'" and get = "\<lambda>st. TimeOfDayUTC (pv_props st)", OF parse_case_fields(7) st(1)]
    by (simp add: st(2) ci_value_def empty parse_init_def emptyProperties_def)
qed

lemma order_value:
  assumes "valid_order ord" "good_params m" "ascii key" "to_lower key = key"
  shows "GetValueInMap (Some (ord i m)) key = GetValueInMap (Some m) key"
    and "ci_value key (ord i m) = GetValueInMap (Some m) key" and "good_params (ord i m)"
proof -
  have s: "same_map (ord i m) m" "same_map m (ord i m)" using assms(1) by (auto simp: valid_order_def same_map_def)
  show g: "good_params (ord i m)" using good_params_same [OF assms(2) s(1)] .
  show eq: "GetValueInMap (Some (ord i m)) key = GetValueInMap (Some m) key"
    using GetValueInMap_same_map [OF s(2)] assms(2) by (simp add: good_params_def)
  show "ci_value key (ord i m) = GetValueInMap (Some m) key"
    using good_params_value [OF g assms(3,4)] eq by simp
qed

text \<open>The identity of a created volume, read from its identifier.\<close>

lemma created_identity:
  assumes run: "CreateVolume ord d req h = (((Inr resp, obs), h'), d')"
    and params: "req_Parameters req = Some m" "good_params m" and ord: "valid_order ord"
    and clean: "separator \<notin> set (req_Name req)" "separator \<notin> set (GetValueInMap (Some m) VolumeContextSubDir)"
      "separator \<notin> set (GetValueInMap (Some (resp_VolumeContext resp)) VolumeContextMGSIPAddress)"
      "separator \<notin> set (GetValueInMap (Some (resp_VolumeContext resp)) VolumeContextResourceGroupName)"
  shows "\<exists>vol. getLustreVolFromID (resp_VolumeId resp) = Inr vol \<and> vol_name vol = req_Name req
    \<and> mgsIPAddress vol = GetValueInMap (Some (resp_VolumeContext resp)) VolumeContextMGSIPAddress
    \<and> subDir vol = trim_byte (CHR ''/'') (GetValueInMap (Some m) VolumeContextSubDir)
    \<and> (createdByDynamicProvisioning vol \<longleftrightarrow> GetValueInMap (Some m) VolumeContextMGSIPAddress = '''')
    \<and> resourceGroupName vol = GetValueInMap (Some (resp_VolumeContext resp)) VolumeContextResourceGroupName
    \<and> (createdByDynamicProvisioning vol \<longrightarrow> resourceGroupName vol =
         (if GetValueInMap (Some m) VolumeContextResourceGroupName = '''' then drv_resourceGroup d
          else GetValueInMap (Some m) VolumeContextResourceGroupName))"
proof -
  define sc where "sc = (GetValueInMap (Some m) VolumeContextMGSIPAddress = '''')"
  obtain p0 sizes h1 where p0: "parseAmlFilesystemProperties (ord 7) (ord 1 m) = Inr p0"
    and fin: "CreateVolume_finish ord d req m sc (if sc then fill_defaults d p0 else p0) sizes h1 = (Inr resp, h')"
    using run params(1) order_value(1) [OF ord params(2), of VolumeContextMGSIPAddress 0] context_keys
    by (elim CreateVolume_Inr) (auto simp: sc_def)
  define p where "p = (if sc then fill_defaults d p0 else p0)"
  have rg: "sc \<Longrightarrow> ResourceGroupName p = (if GetValueInMap (Some m) VolumeContextResourceGroupName = '''' then drv_resourceGroup d
      else GetValueInMap (Some m) VolumeContextResourceGroupName)"
    using parse_fields(1) [OF p0] order_value(2) [OF ord params(2), of VolumeContextResourceGroupName 1] context_keys
    by (simp add: p_def fill_defaults_def Let_def)
  from fin obtain mgs where ctx: "resp_VolumeContext resp = create_context ord (if sc then Some (ResourceGroupName p, mgs) else None) m"
    and vid: "createVolumeIDFromParams (req_Name req) (ord 6 (resp_VolumeContext resp)) = Inr (resp_VolumeId resp)"
    unfolding p_def by (rule CreateVolume_finish_Inr) blast
  let ?c = "resp_VolumeContext resp"
  note val = create_context_value [OF ord params(2), of "if sc then Some (ResourceGroupName p, mgs) else None", folded ctx]
  note c6 = order_value(2) [OF ord val(1), of _ 6]
  have fields: "resp_VolumeId resp = volumeID_format (req_Name req) DefaultLustreFsName
      (GetValueInMap (Some ?c) VolumeContextMGSIPAddress) (trim_byte (CHR ''/'') (GetValueInMap (Some m) VolumeContextSubDir))
      (if sc then ''t'' else ''f'') (GetValueInMap (Some ?c) VolumeContextResourceGroupName)"
    using vid c6 context_keys val(4,5) by (simp add: createVolumeIDFromParams_eq split: if_splits)
  have "separator \<notin> set (trim_byte (CHR ''/'') (GetValueInMap (Some m) VolumeContextSubDir))"
    using clean(2) trim_byte_set by fast
  then have "getLustreVolFromID (resp_VolumeId resp) = Inr \<lparr>vol_name = req_Name req, vol_id = resp_VolumeId resp,
      mgsIPAddress = GetValueInMap (Some ?c) VolumeContextMGSIPAddress, azureLustreName = DefaultLustreFsName,
      subDir = trim_byte (CHR ''/'') (GetValueInMap (Some m) VolumeContextSubDir), createdByDynamicProvisioning = sc,
      resourceGroupName = GetValueInMap (Some ?c) VolumeContextResourceGroupName\<rparr>"
    unfolding fields using clean by (subst getLustreVolFromID_format) auto
  then show ?thesis using rg val(3) by (auto simp: sc_def)
qed

end
