(* ===== verification/Volume_Life_Cycle.thy ===== *)
theory Volume_Life_Cycle
  imports Controller_Theorems
begin

text \<open>
  The life cycle of a volume across the two handlers of the controller: what \<open>DeleteVolume\<close> does
  with an identifier that \<open>CreateVolume\<close> returned, and what a separator inside a parameter changes.
\<close>

text \<open>The request that deletes a volume by its identifier.\<close>

definition delete_request :: "string \<Rightarrow> DeleteVolumeRequest" where
  "delete_request vid = \<lparr>del_VolumeId = vid, del_Secrets = None\<rparr>"

lemma delete_request_run:
  assumes "vid \<noteq> ''''" "vid \<notin> locks (volLocks d)"
  shows "DeleteVolume d (delete_request vid) h = (observed (DeleteVolume_body d (delete_request vid) h), d)"
  using assms by (intro DeleteVolume_run) (simp_all add: delete_request_def)

text \<open>
  C7. The life cycle of a volume. Suppose \<open>CreateVolume\<close> succeeded, for any order of its loops
  and any behaviour of Azure, and neither the name, the sub-directory, the server address nor the
  resource group contains the separator. Then a later \<open>DeleteVolume\<close> with the returned identifier
  (whose lock is free) deletes nothing and succeeds when the volume uses an existing server; and
  when its cluster was created for it, it deletes exactly that cluster: the name of the volume in the
  resource group of the parameters, or of the driver when they name none.
\<close>

theorem volume_life_cycle:
  assumes "CreateVolume ord d req h = (((Inr resp, obs), h'), d')"
    and "req_Parameters req = Some m" "good_params m" "valid_order ord"
    and "separator \<notin> set (req_Name req)" "separator \<notin> set (GetValueInMap (Some m) VolumeContextSubDir)"
      "separator \<notin> set (GetValueInMap (Some (resp_VolumeContext resp)) VolumeContextMGSIPAddress)"
      "separator \<notin> set (GetValueInMap (Some (resp_VolumeContext resp)) VolumeContextResourceGroupName)"
    and "resp_VolumeId resp \<notin> locks (volLocks d2)"
  shows "DeleteVolume d2 (delete_request (resp_VolumeId resp)) h2 =
    (if GetValueInMap (Some m) VolumeContextMGSIPAddress \<noteq> '''' then (((Inr (), Some True), h2), d2)
     else
       (let rg = (if GetValueInMap (Some m) VolumeContextResourceGroupName = '''' then drv_resourceGroup d
                  else GetValueInMap (Some m) VolumeContextResourceGroupName)
        in if rg = '''' then
             (((invalid (''volume was dynamically created but associated resource group is not specified. '' @
                ''AMLFS cluster may need to be deleted manually''), Some False), h2), d2)
           else case if_DeleteAmlFilesystem (dynamicProvisioner d2) rg (req_Name req) h2 of
             (None, h3) \<Rightarrow> (((Inr (), Some True), h3), d2)
           | (Some err, h3) \<Rightarrow>
               (((Inl (provisioner_error (''DeleteVolume error when deleting AMLFS '' @ req_Name req @
                  '' in resource group '' @ rg) err), Some False), h3), d2)))"
proof -
  obtain vol where vol: "getLustreVolFromID (resp_VolumeId resp) = Inr vol" "vol_name vol = req_Name req"
    "createdByDynamicProvisioning vol \<longleftrightarrow> GetValueInMap (Some m) VolumeContextMGSIPAddress = ''''"
    "createdByDynamicProvisioning vol \<longrightarrow> resourceGroupName vol =
       (if GetValueInMap (Some m) VolumeContextResourceGroupName = '''' then drv_resourceGroup d
        else GetValueInMap (Some m) VolumeContextResourceGroupName)"
    using created_identity [OF assms(1-8)] by blast
  have "resp_VolumeId resp \<noteq> ''''" using vol(1) by (auto simp: getLustreVolFromID_def)
  note run = delete_request_run [OF this assms(9), of h2]
  show ?thesis unfolding run
    by (cases "createdByDynamicProvisioning vol")
      (use vol in \<open>auto simp: DeleteVolume_body_def delete_request_def observed_def Let_def split: prod.splits option.splits\<close>)
qed

lemma sample_static_good: "good_params static_params"
  by code_simp

theorem volume_life_cycle_witness:
  "DeleteVolume sample_driver (delete_request ''pvc-1#lustrefs#10.0.0.9#a#f#'') [] = (((Inr (), Some True), []), sample_driver)"
proof -
  have "GetValueInMap (Some static_params) VolumeContextMGSIPAddress = ''10.0.0.9''"
    "GetValueInMap (Some static_params) VolumeContextSubDir = ''/a/''"
    "GetValueInMap (Some (static_params @ [(''created-by-dynamic-provisioning'', ''f'')])) VolumeContextMGSIPAddress = ''10.0.0.9''"
    "GetValueInMap (Some (static_params @ [(''created-by-dynamic-provisioning'', ''f'')])) VolumeContextResourceGroupName = ''''"
    by code_simp+
  then show ?thesis
    using volume_life_cycle [OF sample_static_run _ sample_static_good valid_list_order, of sample_driver "[]"]
    by (simp add: sample_request_def sample_driver_def baseDriver_def newVolumeLocks_def)
qed


subsection \<open>The locks of the two handlers\<close>

text \<open>
  \<open>CreateVolume\<close> locks the name of the volume, \<open>DeleteVolume\<close> its identifier, which always differs: so while
  a creation of a volume holds its lock (a repeated request for a volume that exists), a deletion of the same
  volume takes its own and goes on. The table keeps operations apart by the string it is given, not by volume.
\<close>

lemma createVolumeID_longer: "createVolumeIDFromParams name m = Inr vid \<Longrightarrow> length name < length vid"
  by (auto simp: createVolumeIDFromParams_eq volumeID_format_def split: if_splits)

theorem create_and_delete_not_excluded:
  assumes "CreateVolume ord d req h = (((Inr resp, obs), h'), d')" "locks (volLocks d2) = {req_Name req}"
  shows "resp_VolumeId resp \<noteq> req_Name req
    \<and> DeleteVolume d2 (delete_request (resp_VolumeId resp)) h2 = (observed (DeleteVolume_body d2 (delete_request (resp_VolumeId resp)) h2), d2)"
proof -
  obtain m where "req_Parameters req = Some m" using assms(1) by (rule CreateVolume_Inr)
  with assms(1) have "createVolumeIDFromParams (req_Name req) (ord 6 (resp_VolumeContext resp)) = Inr (resp_VolumeId resp)"
    by (rule CreateVolume_context)
  then have longer: "length (req_Name req) < length (resp_VolumeId resp)" by (rule createVolumeID_longer)
  have differ: "resp_VolumeId resp \<noteq> req_Name req" by (rule notI) (use longer in simp)
  have "resp_VolumeId resp \<noteq> ''''" by (rule notI) (use longer in simp)
  then have "DeleteVolume d2 (delete_request (resp_VolumeId resp)) h2 = (observed (DeleteVolume_body d2 (delete_request (resp_VolumeId resp)) h2), d2)"
    by (rule delete_request_run) (simp add: assms(2) differ)
  with differ show ?thesis by blast
qed

end
