(* ===== verification/Parameters.thy ===== *)
theory Parameters
  imports Controller_Theorems
begin

text \<open>
  What \<open>parseAmlFilesystemProperties\<close> accepts and what it returns: each step of its loop is
  described by its effect on the fields of the result, and the loop by the last value of each key.
\<close>

definition known_parameters :: "string list" where
  "known_parameters = [VolumeContextResourceGroupName, VolumeContextMGSIPAddress, VolumeContextLocation,
     VolumeContextVnetName, VolumeContextVnetResourceGroup, VolumeContextSubnetName, VolumeContextMaintenanceDayOfWeek,
     VolumeContextMaintenanceTimeOfDayUtc, VolumeContextSkuName, VolumeContextZone, VolumeContextZonesSynonym,
     VolumeContextTags, pvcNameKey, pvcNamespaceKey, pvNameKey, VolumeContextIdentities, VolumeContextFSName, VolumeContextSubDir]"

lemma parse_case_known:
  assumes "parse_case o' (k, v) st = Inr st'"
  shows "pv_errors st' = (if to_lower k \<in> set known_parameters then pv_errors st else pv_errors st @ [k @ '' = '' @ v])"
    and "pv_shouldCreate st' \<longleftrightarrow> pv_shouldCreate st \<and> to_lower k \<noteq> VolumeContextMGSIPAddress"
  using assms unfolding parse_case_def Let_def fst_conv snd_conv
  by (auto simp: parse_day_def parse_time_def parse_tags_def set_tag_def Let_def known_parameters_def split: if_split_asm sum.splits)

text \<open>The invariant of the loop on the cluster it builds.\<close>

definition props_ok :: "AmlFilesystemProperties \<Rightarrow> bool" where
  "props_ok p \<longleftrightarrow> MaintenanceDayOfWeek p \<in> insert '''' (set possibleDayValues)
     \<and> (TimeOfDayUTC p = '''' \<or> timeRegexp (TimeOfDayUTC p))
     \<and> go_map_ok (Tags p) \<and> map_of (Tags p) createdByTag = Some azureLustreDriverTag"

definition tags_ok :: "gomap \<Rightarrow> bool" where
  "tags_ok tags \<longleftrightarrow> go_map_ok tags \<and> map_of tags createdByTag = Some azureLustreDriverTag"

lemma tags_ok_update: "tags_ok tags \<Longrightarrow> k \<noteq> createdByTag \<Longrightarrow> tags_ok (AList.update k v tags)"
  by (simp add: tags_ok_def update_go_map_ok update_conv')

lemma add_tags_ok:
  assumes "range_loop add_tag kvs tags = Inr tags'" "tags_ok tags"
  shows "tags_ok tags'"
  by (rule range_loop_invariant [where P = tags_ok, OF assms(2) _ assms(1)])
    (auto simp: add_tag_def reserved_tag_def tags_ok_update split: if_splits)

lemma props_ok_tags: "props_ok p \<longleftrightarrow> MaintenanceDayOfWeek p \<in> insert '''' (set possibleDayValues)
     \<and> (TimeOfDayUTC p = '''' \<or> timeRegexp (TimeOfDayUTC p)) \<and> tags_ok (Tags p)"
  by (auto simp: props_ok_def tags_ok_def)

lemma parse_day_ok: "parse_day v st = Inr st' \<Longrightarrow> props_ok (pv_props st) \<Longrightarrow> props_ok (pv_props st')"
  by (auto simp: parse_day_def props_ok_tags Let_def split: if_split_asm)

lemma parse_time_ok: "parse_time v st = Inr st' \<Longrightarrow> props_ok (pv_props st) \<Longrightarrow> props_ok (pv_props st')"
  by (auto simp: parse_time_def props_ok_tags split: if_split_asm)

lemma parse_tags_ok: "parse_tags o' v st = Inr st' \<Longrightarrow> props_ok (pv_props st) \<Longrightarrow> props_ok (pv_props st')"
  by (auto simp: parse_tags_def props_ok_tags split: sum.splits dest: add_tags_ok)

lemma set_tag_ok: "props_ok (pv_props st) \<Longrightarrow> tag \<noteq> createdByTag \<Longrightarrow> props_ok (pv_props (set_tag tag v st))"
  by (simp add: set_tag_def props_ok_tags tags_ok_update)

lemma parse_case_ok:
  assumes "parse_case o' (k, v) st = Inr st'" "props_ok (pv_props st)"
  shows "props_ok (pv_props st')"
  using assms unfolding parse_case_def Let_def fst_conv snd_conv
  by (auto intro: parse_day_ok parse_time_ok parse_tags_ok set_tag_ok split: if_split_asm) (auto simp: props_ok_def)

lemma parse_loop_known:
  assumes "range_loop (parse_case o') m st = Inr st'" "pv_errors st' = []"
  shows "(\<forall>kv\<in>set m. to_lower (fst kv) \<in> set known_parameters) \<and> pv_errors st = []
    \<and> (pv_shouldCreate st' \<longleftrightarrow> pv_shouldCreate st \<and> (\<forall>kv\<in>set m. to_lower (fst kv) \<noteq> VolumeContextMGSIPAddress))"
  using assms
proof (induction m arbitrary: st)
  case (Cons kv m)
  obtain k v where kv: "kv = (k, v)" by (cases kv) auto
  obtain st1 where st1: "parse_case o' (k, v) st = Inr st1" "range_loop (parse_case o') m st1 = Inr st'"
    using Cons.prems(1) kv by (auto split: sum.splits)
  show ?case using Cons.IH [OF st1(2) Cons.prems(2)] parse_case_known [OF st1(1)] kv
    by (auto split: if_split_asm)
qed simp


definition dynamic_params :: gomap where
  "dynamic_params = [(''sku-name'', ''AMLFS-Durable-Premium-250''), (''Maintenance-Day-Of-Week'', ''Monday''),
     (''maintenance-time-of-day-utc'', ''03:00''), (''zone'', ''1'')]"

lemma dynamic_params_parse:
  "case parseAmlFilesystemProperties (list_order 7) dynamic_params of
     Inl _ \<Rightarrow> False
   | Inr p \<Rightarrow> Tags p = [(''k8s-azure-created-by'', ''kubernetes-azurelustre-csi-driver'')]
       \<and> Zone p = ''1''"
  by code_simp



subsection \<open>An empty server address\<close>

definition empty_server_params :: gomap where
  "empty_server_params = [(''mgs-ip-address'', ''''), (''sku-name'', ''AMLFS-Durable-Premium-250''), (''zone'', ''1'')]"

definition fresh_driver :: Driver where
  "fresh_driver = sample_driver\<lparr>dynamicProvisioner := dp_interface (sample_provisioner (sample_client (Inr None) None))\<rparr>"

definition asks_without_window :: "az_call \<Rightarrow> bool" where
  "asks_without_window c \<longleftrightarrow>
     (case c of AmlBeginCreateOrUpdate rg n b \<Rightarrow> fs_DayOfWeek b = '''' \<and> fs_TimeOfDayUTC b = '''' | _ \<Rightarrow> False)"


end
