(* ===== verification/Cluster_Table.thy ===== *)
theory Cluster_Table
  imports Volume_Life_Cycle Parameters
begin

text \<open>
  The controller against a table of clusters. Azure is seen through the answers to the calls of the
  driver: a cluster of a resource group is requested, created, being removed or absent. \<open>clusters\<close> replays
  a history of calls with the answers of the client. The locale \<open>cluster_provisioner\<close> extends the contract
  of the provisioner by what its operations do to such a table; in it the two handlers of the
  controller are shown to refine an insertion and a removal.
\<close>

subsection \<open>The table of a history\<close>

datatype cluster = Requested amlFilesystem | Created amlFilesystem | Removing

type_synonym cluster_table = "string \<times> string \<Rightarrow> cluster option"

fun cluster_effect :: "AmlFilesystemsClient \<Rightarrow> az_history \<Rightarrow> az_call \<Rightarrow> cluster_table \<Rightarrow> cluster_table" where
  "cluster_effect cl h (AmlBeginCreateOrUpdate rg n b) T =
     (if cl_BeginCreateOrUpdate cl h rg n b = None then T((rg, n) \<mapsto> Requested b) else T)"
| "cluster_effect cl h (AmlPollCreate rg n) T =
     (case (cl_PollCreate cl h rg n, T (rg, n)) of
        (Inr _, Some (Requested b)) \<Rightarrow> T((rg, n) \<mapsto> Created b)
      | _ \<Rightarrow> T)"
| "cluster_effect cl h (AmlBeginDelete rg n) T =
     (if cl_BeginDelete cl h rg n = None then T((rg, n) \<mapsto> Removing) else T)"
| "cluster_effect cl h (AmlPollDelete rg n) T =
     (if cl_PollDelete cl h rg n = None then T((rg, n) := None) else T)"
| "cluster_effect cl h _ T = T"

fun replay :: "AmlFilesystemsClient \<Rightarrow> az_history \<Rightarrow> az_history \<Rightarrow> cluster_table \<Rightarrow> cluster_table" where
  "replay cl h [] T = T"
| "replay cl h (c # cs) T = replay cl (h @ [c]) cs (cluster_effect cl h c T)"

definition clusters :: "AmlFilesystemsClient \<Rightarrow> az_history \<Rightarrow> cluster_table" where
  "clusters cl h = replay cl [] h Map.empty"

lemma replay_append: "replay cl h (cs @ ds) T = replay cl (h @ cs) ds (replay cl h cs T)"
  by (induction cs arbitrary: h T) auto

lemma clusters_append: "clusters cl (h @ cs) = replay cl h cs (clusters cl h)"
  by (simp add: clusters_def replay_append)

lemma cluster_effect_local: "az_target c \<noteq> Some k \<Longrightarrow> cluster_effect cl h c T k = T k"
  by (cases c) (auto split: sum.splits option.splits cluster.splits)

lemma replay_local: "Some k \<notin> az_target ` set cs \<Longrightarrow> replay cl h cs T k = T k"
  by (induction cs arbitrary: h T) (auto simp: cluster_effect_local)

lemma clusters_local: "stays_on T h h' \<Longrightarrow> Some k \<notin> T \<Longrightarrow> clusters cl h' k = clusters cl h k"
  unfolding stays_on_def by (metis clusters_append replay_local subsetD)

lemma clusters_reads: "stays_on {None} h h' \<Longrightarrow> clusters cl h' = clusters cl h"
  by (auto simp: fun_eq_iff intro: clusters_local)

subsection \<open>The provisioner on the table\<close>

text \<open>The abstract operations.\<close>

definition abs_create :: "string \<times> string \<Rightarrow> amlFilesystem \<Rightarrow> cluster_table \<Rightarrow> cluster_table" where
  "abs_create k b T = T(k \<mapsto> Created b)"

definition abs_delete :: "string \<times> string \<Rightarrow> cluster_table \<Rightarrow> cluster_table" where
  "abs_delete k T = T(k := None)"

lemma request_cluster_table:
  assumes "request_cluster d cl p h = (Inr mgs, h')" "amlFilesystemsClient d = Some cl"
  shows "clusters cl h' = abs_create (ResourceGroupName p, AmlFilesystemName p) (aml_request p) (clusters cl h)"
proof -
  let ?b = "AmlBeginCreateOrUpdate (ResourceGroupName p) (AmlFilesystemName p) (aml_request p)"
  have "h' = h @ [?b, AmlPollCreate (ResourceGroupName p) (AmlFilesystemName p)]"
    using request_cluster_trace [OF assms] by auto
  then show ?thesis using request_cluster_Inr [OF assms(1)] by (simp add: clusters_append abs_create_def)
qed

lemma CreateAmlFilesystem_table:
  assumes "CreateAmlFilesystem d p h = (Inr mgs, h')" "amlFilesystemsClient d = Some cl"
  shows "clusters cl h' = abs_create (ResourceGroupName p, AmlFilesystemName p) (aml_request p) (clusters cl h)"
  using assms(1)
proof (cases rule: CreateAmlFilesystem_cases)
  case (create cl' cs h2)
  have "stays_on {None} h h2" using create(5,6) by (auto simp: stays_on_def)
  then show ?thesis using request_cluster_table [OF create(7,1)] clusters_reads create(1) assms(2) by simp
next
  case (update cl' st)
  have "stays_on {None} h (h @ [AmlGet (ResourceGroupName p) (AmlFilesystemName p)])" by (auto simp: stays_on_def)
  then show ?thesis using request_cluster_table [OF update(5,1)] clusters_reads update(1) assms(2) by simp
qed auto

lemma DeleteAmlFilesystem_table:
  assumes "DeleteAmlFilesystem d rg n h = (None, h')" "amlFilesystemsClient d = Some cl"
  shows "clusters cl h' = abs_delete (rg, n) (clusters cl h)"
  using assms by (auto simp: DeleteAmlFilesystem_def Let_def clusters_append abs_delete_def split: option.splits)

text \<open>Only a poll that ends a creation enters a created cluster.\<close>

lemma replay_created:
  assumes "\<And>rg n. AmlPollCreate rg n \<notin> set cs" "replay cl h cs T k = Some (Created b)"
  shows "T k = Some (Created b)"
  using assms
proof (induction cs arbitrary: h T)
  case (Cons c cs)
  then have "cluster_effect cl h c T k = Some (Created b)" by simp
  then show ?case using Cons.prems(1) by (cases c) (auto split: if_splits)
qed simp

lemma failure_traces_no_poll: "t \<in> failure_traces rg n \<Longrightarrow> AmlPollCreate rg' n' \<notin> set t"
  by (auto simp: failure_traces_def delete_traces_def)

lemma request_cluster_failed:
  assumes run: "request_cluster d cl p h = (Inl e, h')" "amlFilesystemsClient d = Some cl"
    and "clusters cl h' k = Some (Created b)"
  shows "clusters cl h k = Some (Created b) \<or> (\<exists>t. e = Panic t)"
proof -
  let ?rg = "ResourceGroupName p" and ?n = "AmlFilesystemName p"
  let ?b = "AmlBeginCreateOrUpdate ?rg ?n (aml_request p)"
  have kept: "clusters cl h1 k = Some (Created b)" if failed: "creation_failed d p err h1 = (Inl e, h')" for err h1
  proof -
    obtain t where t: "t \<in> failure_traces ?rg ?n" "h' = h1 @ t" using creation_failed_trace [OF failed run(2)] by blast
    have "replay cl h1 t (clusters cl h1) k = Some (Created b)" using assms(3) t(2) by (simp add: clusters_append)
    then show ?thesis using failure_traces_no_poll [OF t(1)] by (rule replay_created [rotated])
  qed
  show ?thesis
  proof (cases "cl_BeginCreateOrUpdate cl h ?rg ?n (aml_request p)")
    case (Some err)
    then have "clusters cl (h @ [?b]) k = Some (Created b)" using run(1) by (intro kept) (simp add: request_cluster_def Let_def)
    then show ?thesis using Some by (simp add: clusters_append)
  next
    case begun: None
    show ?thesis
    proof (cases "cl_PollCreate cl (h @ [?b]) ?rg ?n")
      case (Inl err)
      then have "clusters cl (h @ [?b] @ [AmlPollCreate ?rg ?n]) k = Some (Created b)"
        using run(1) begun by (intro kept) (simp add: request_cluster_def Let_def)
      then show ?thesis using begun Inl by (simp add: clusters_append split: if_splits)
    next
      case (Inr x)
      then show ?thesis using run(1) begun by (auto simp: request_cluster_def Let_def split: option.splits)
    qed
  qed
qed

lemma CreateAmlFilesystem_failed:
  assumes "CreateAmlFilesystem d p h = (Inl e, h')" "amlFilesystemsClient d = Some cl" "clusters cl h' k = Some (Created b)"
  shows "clusters cl h k = Some (Created b) \<or> (\<exists>t. e = Panic t)"
  using assms(1)
proof (cases rule: CreateAmlFilesystem_cases)
  case (stopped cl' cs)
  have "stays_on {None} h h'" using stopped(3,4) by (auto simp: stays_on_def)
  then show ?thesis using clusters_reads assms(3) by simp
next
  case (create cl' cs h2)
  have "stays_on {None} h h2" using create(5,6) by (auto simp: stays_on_def)
  then show ?thesis using request_cluster_failed [OF create(7,1)] clusters_reads create(1) assms(2,3) by auto
next
  case (update cl' st)
  have "stays_on {None} h (h @ [AmlGet (ResourceGroupName p) (AmlFilesystemName p)])" by (auto simp: stays_on_def)
  then show ?thesis using request_cluster_failed [OF update(5,1)] clusters_reads update(1) assms(2,3) by auto
qed (use assms(3) in simp)

text \<open>What the controller promises of its clusters needs only this of the provisioner.\<close>

locale cluster_provisioner = lustre_provisioner I for I +
  fixes table :: "az_history \<Rightarrow> cluster_table"
  assumes create_table: "if_CreateAmlFilesystem I p h = (Inr mgs, h') \<Longrightarrow>
      table h' = abs_create (ResourceGroupName p, AmlFilesystemName p) (aml_request p) (table h)"
    and create_failed_table: "if_CreateAmlFilesystem I p h = (Inl e, h') \<Longrightarrow> table h' k = Some (Created b) \<Longrightarrow>
      table h k = Some (Created b) \<or> (\<exists>t. e = Panic t)"
    and delete_table: "if_DeleteAmlFilesystem I rg n h = (None, h') \<Longrightarrow> table h' = abs_delete (rg, n) (table h)"
    and table_local: "stays_on T h h' \<Longrightarrow> Some k \<notin> T \<Longrightarrow> table h' k = table h k"
begin

lemma table_reads: "stays_on {None} h h' \<Longrightarrow> table h' = table h"
  by (auto simp: fun_eq_iff intro: table_local)

lemma create_others:
  assumes "dynamicProvisioner d = I" "CreateVolume ord d req h = (((r, obs), h'), d')" "snd k \<noteq> req_Name req"
  shows "table h' k = table h k"
proof (cases rule: CreateVolume_cases [of ord d req h])
  case run
  then have "CreateVolume_body ord d req h = (r, h')" using assms(2) by (auto simp: observed_def split: prod.splits)
  then obtain rg where "stays_on {None, Some (rg, req_Name req)} h h'"
    using body_calls [OF assms(1)] unfolding only_own_cluster_def by blast
  then show ?thesis using assms(3) by (elim table_local) auto
qed (use assms(2) in simp)

lemma create_refines:
  assumes "dynamicProvisioner d = I" "CreateVolume ord d req h = (((Inr resp, obs), h'), d')"
    and "req_Parameters req = Some m" "parseAmlFilesystemProperties (ord 7) (ord 1 m) = Inr p0"
  shows "if GetValueInMap (Some (ord 0 m)) VolumeContextMGSIPAddress \<noteq> '''' then table h' = table h
    else table h' = abs_create (ResourceGroupName (fill_defaults d p0), req_Name req)
      (aml_request ((fill_defaults d p0)\<lparr>StorageCapacityTiB := storageCapacityTib (resp_CapacityBytes resp),
         AmlFilesystemName := req_Name req\<rparr>)) (table h)"
proof -
  let ?sc = "GetValueInMap (Some (ord 0 m)) VolumeContextMGSIPAddress = ''''"
  let ?p = "if ?sc then fill_defaults d p0 else p0"
  obtain sizes h1 where sz: "create_sizes d ?sc ?p h = (Inr sizes, h1)"
    and fin: "CreateVolume_finish ord d req m ?sc ?p sizes h1 = (Inr resp, h')"
    using assms by (elim CreateVolume_Inr) auto
  have h1: "table h1 = table h" using create_sizes_calls [OF assms(1) sz] table_reads by blast
  from fin obtain mgs where mgs: "?sc \<Longrightarrow> create_cluster d (req_Name req) ?p (snd (snd sizes)) (resp_CapacityBytes resp) h1 = (Inr mgs, h')"
    "\<not> ?sc \<Longrightarrow> h' = h1" by (elim CreateVolume_finish_Inr) blast
  show ?thesis
  proof (cases ?sc)
    case True
    then have "if_CreateAmlFilesystem I ((fill_defaults d p0)\<lparr>StorageCapacityTiB := storageCapacityTib (resp_CapacityBytes resp),
        AmlFilesystemName := req_Name req\<rparr>) h1 = (Inr mgs, h')"
      using mgs(1) assms(1) by (auto simp: create_cluster_def Let_def split: option.splits if_splits sum.splits prod.splits)
    from create_table [OF this] True h1 show ?thesis by simp
  qed (use mgs(2) h1 in simp)
qed

lemma finish_failed:
  assumes "dynamicProvisioner d = I" "CreateVolume_finish ord d req m sc p sizes h = (Inl e, h')"
    and "table h' k = Some (Created b)"
  shows "table h k = Some (Created b) \<or> (\<exists>t. e = Panic t)
    \<or> (\<exists>cluster e'. createVolumeIDFromParams (req_Name req) (ord 6 (create_context ord cluster m)) = Inl e')"
proof -
  have failed: "table h k = Some (Created b) \<or> (\<exists>t. e = Panic t)"
    if c: "create_cluster d (req_Name req) p (snd (snd sizes)) c h = (Inl e, h')" for c
  proof (cases "isValidVolumeName (req_Name req) \<and> check_zone (snd (snd sizes)) (p\<lparr>StorageCapacityTiB := storageCapacityTib c\<rparr>) = None")
    case True
    then obtain err where "if_CreateAmlFilesystem I (p\<lparr>StorageCapacityTiB := storageCapacityTib c, AmlFilesystemName := req_Name req\<rparr>) h = (Inl err, h')"
      "e = provisioner_error (''CreateVolume error when creating AMLFS '' @ req_Name req) err"
      using c assms(1) by (auto simp: create_cluster_sent split: prod.splits sum.splits)
    then show ?thesis using create_failed_table assms(3) by (metis provisioner_error.simps(1))
  next
    case False
    then show ?thesis using create_cluster_rejected [of "req_Name req" "snd (snd sizes)" c p d h] c assms(3) by auto
  qed
  show ?thesis using assms(2,3) failed
    by (auto simp: CreateVolume_finish_def Let_def split: sum.splits if_splits prod.splits)
qed

lemma create_failed:
  assumes "dynamicProvisioner d = I" "CreateVolume ord d req h = (((Inl e, obs), h'), d')" "req_Parameters req = Some m"
    and "table h' k = Some (Created b)"
  shows "table h k = Some (Created b) \<or> (\<exists>t. e = Panic t)
    \<or> (\<exists>cluster e'. createVolumeIDFromParams (req_Name req) (ord 6 (create_context ord cluster m)) = Inl e')"
proof (cases rule: CreateVolume_cases [of ord d req h])
  case run
  define sc where "sc = (GetValueInMap (Some (ord 0 m)) VolumeContextMGSIPAddress = '''')"
  have body: "CreateVolume_body ord d req h = (Inl e, h')" using assms(2) run by (auto simp: observed_def split: prod.splits)
  show ?thesis
  proof (cases "parseAmlFilesystemProperties (ord 7) (ord 1 m)")
    case (Inl e')
    then show ?thesis using body assms(3,4) by (simp add: CreateVolume_body_def Let_def)
  next
    case (Inr p0)
    define p where "p = (if sc then fill_defaults d p0 else p0)"
    obtain s h1 where s: "create_sizes d sc p h = (s, h1)" by fastforce
    have h1: "table h1 = table h" using create_sizes_calls [OF assms(1) s] table_reads by blast
    have "(Inl e, h') = (case s of Inl e \<Rightarrow> (Inl e, h1) | Inr sizes \<Rightarrow> CreateVolume_finish ord d req m sc p sizes h1)"
      using body assms(3) Inr s by (simp add: CreateVolume_body_def Let_def sc_def [symmetric] p_def [symmetric])
    then show ?thesis using finish_failed [OF assms(1), of ord req m sc p _ h1 e h' k b] assms(4) h1 by (cases s) auto
  qed
qed (use assms(2,4) in simp)

lemma delete_refines:
  assumes "dynamicProvisioner d = I" "DeleteVolume d req h = (((Inr (), obs), h'), d')"
  shows "table h' = (case getLustreVolFromID (del_VolumeId req) of
      Inr vol \<Rightarrow> if createdByDynamicProvisioning vol then abs_delete (resourceGroupName vol, vol_name vol) (table h) else table h
    | Inl _ \<Rightarrow> table h)"
proof (cases rule: DeleteVolume_cases [of d req h])
  case run
  then have "DeleteVolume_body d req h = (Inr (), h')" using assms(2) by (auto simp: observed_def split: prod.splits)
  then show ?thesis using assms(1) delete_table
    by (auto simp: DeleteVolume_body_def split: sum.splits if_splits prod.splits option.splits)
qed (use assms(2) in simp)

lemma delete_others:
  assumes "dynamicProvisioner d = I" "DeleteVolume d req h = (((r, obs), h'), d')"
    and "\<And>vol. getLustreVolFromID (del_VolumeId req) = Inr vol \<Longrightarrow> createdByDynamicProvisioning vol \<Longrightarrow> k \<noteq> (resourceGroupName vol, vol_name vol)"
  shows "table h' k = table h k"
proof (cases rule: DeleteVolume_cases [of d req h])
  case run
  then have "DeleteVolume_body d req h = (r, h')" using assms(2) by (auto simp: observed_def split: prod.splits)
  then consider "h' = h" | vol e where "getLustreVolFromID (del_VolumeId req) = Inr vol" "createdByDynamicProvisioning vol"
      "if_DeleteAmlFilesystem I (resourceGroupName vol) (vol_name vol) h = (e, h')"
    using assms(1) by (auto simp: DeleteVolume_body_def split: sum.splits if_splits prod.splits option.splits)
  then show ?thesis
  proof cases
    case 2
    then show ?thesis using assms(3) table_local [OF delete_calls [OF 2(3)]] by auto
  qed simp
qed (use assms(2) in simp)

end

interpretation ct: cluster_provisioner "dp_interface dp" "clusters (the (amlFilesystemsClient dp))" for dp
proof unfold_locales
  fix p h mgs h'
  assume a: "if_CreateAmlFilesystem (dp_interface dp) p h = (Inr mgs, h')"
  then have "amlFilesystemsClient dp \<noteq> None" by (cases "amlFilesystemsClient dp") (auto simp: dp_interface_def CreateAmlFilesystem_def)
  then show "clusters (the (amlFilesystemsClient dp)) h' = abs_create (ResourceGroupName p, AmlFilesystemName p) (aml_request p)
      (clusters (the (amlFilesystemsClient dp)) h)"
    using a CreateAmlFilesystem_table by (auto simp: dp_interface_def)
next
  fix p h e h' k b
  assume a: "if_CreateAmlFilesystem (dp_interface dp) p h = (Inl e, h')"
    "clusters (the (amlFilesystemsClient dp)) h' k = Some (Created b)"
  then show "clusters (the (amlFilesystemsClient dp)) h k = Some (Created b) \<or> (\<exists>t. e = Panic t)"
  proof (cases "amlFilesystemsClient dp")
    case None
    then show ?thesis using a by (simp add: dp_interface_def CreateAmlFilesystem_def)
  next
    case (Some cl)
    then show ?thesis using a CreateAmlFilesystem_failed [OF _ Some] by (simp add: dp_interface_def)
  qed
next
  fix rg n h h'
  assume a: "if_DeleteAmlFilesystem (dp_interface dp) rg n h = (None, h')"
  then have "amlFilesystemsClient dp \<noteq> None" by (cases "amlFilesystemsClient dp") (auto simp: dp_interface_def DeleteAmlFilesystem_def)
  then show "clusters (the (amlFilesystemsClient dp)) h' = abs_delete (rg, n) (clusters (the (amlFilesystemsClient dp)) h)"
    using a DeleteAmlFilesystem_table by (auto simp: dp_interface_def)
qed (rule clusters_local)

subsection \<open>The controller on the table\<close>

text \<open>
  C5. The controller refines a table of clusters, whatever Azure answers. A successful \<open>CreateVolume\<close> for an
  existing server leaves the table as it is; any other successful one inserts the created cluster with the
  request built from the parameters and the capacity that it reports, under the resource group of the
  parameters (or of the driver) and the name of the volume. A successful \<open>DeleteVolume\<close> removes the cluster
  that its identifier says was created for the volume, and otherwise changes nothing. No call, failed or not,
  touches an entry of another name or another volume.
\<close>

theorem controller_refines_cluster_table:
  assumes "dynamicProvisioner d = dp_interface dp" "amlFilesystemsClient dp = Some cl"
    and "CreateVolume ord d creq h = (((r, obs), h1), d1)" "DeleteVolume d dreq h = (((r2, obs2), h2), d2)"
  shows "(\<forall>resp m p. r = Inr resp \<and> req_Parameters creq = Some m \<and> parseAmlFilesystemProperties (ord 7) (ord 1 m) = Inr p \<longrightarrow>
        clusters cl h1 =
          (if GetValueInMap (Some (ord 0 m)) VolumeContextMGSIPAddress \<noteq> '''' then clusters cl h
           else abs_create (ResourceGroupName (fill_defaults d p), req_Name creq)
             (aml_request ((fill_defaults d p)\<lparr>StorageCapacityTiB := storageCapacityTib (resp_CapacityBytes resp),
                AmlFilesystemName := req_Name creq\<rparr>)) (clusters cl h)))
    \<and> (\<forall>k. snd k \<noteq> req_Name creq \<longrightarrow> clusters cl h1 k = clusters cl h k)
    \<and> (r2 = Inr () \<longrightarrow> clusters cl h2 =
         (case getLustreVolFromID (del_VolumeId dreq) of
            Inr vol \<Rightarrow> if createdByDynamicProvisioning vol then abs_delete (resourceGroupName vol, vol_name vol) (clusters cl h)
                       else clusters cl h
          | Inl _ \<Rightarrow> clusters cl h))
    \<and> (\<forall>k. (\<forall>vol. getLustreVolFromID (del_VolumeId dreq) = Inr vol \<and> createdByDynamicProvisioning vol \<longrightarrow>
              k \<noteq> (resourceGroupName vol, vol_name vol)) \<longrightarrow> clusters cl h2 k = clusters cl h k)"
proof (intro conjI allI impI)
  fix resp m p
  assume "r = Inr resp \<and> req_Parameters creq = Some m \<and> parseAmlFilesystemProperties (ord 7) (ord 1 m) = Inr p"
  then show "clusters cl h1 =
      (if GetValueInMap (Some (ord 0 m)) VolumeContextMGSIPAddress \<noteq> '''' then clusters cl h
       else abs_create (ResourceGroupName (fill_defaults d p), req_Name creq)
         (aml_request ((fill_defaults d p)\<lparr>StorageCapacityTiB := storageCapacityTib (resp_CapacityBytes resp),
            AmlFilesystemName := req_Name creq\<rparr>)) (clusters cl h))"
    using ct.create_refines [OF assms(1), of ord creq h resp obs h1 d1 m p] assms(2,3) by (auto split: if_splits)
next
  fix k :: "string \<times> string" assume "snd k \<noteq> req_Name creq"
  then show "clusters cl h1 k = clusters cl h k" using ct.create_others [OF assms(1,3)] assms(2) by simp
next
  assume "r2 = Inr ()"
  then show "clusters cl h2 = (case getLustreVolFromID (del_VolumeId dreq) of
      Inr vol \<Rightarrow> if createdByDynamicProvisioning vol then abs_delete (resourceGroupName vol, vol_name vol) (clusters cl h)
                 else clusters cl h
    | Inl _ \<Rightarrow> clusters cl h)"
    using ct.delete_refines [OF assms(1), of dreq h obs2 h2 d2] assms(4) unfolding assms(2) option.sel by simp
next
  fix k assume "\<forall>vol. getLustreVolFromID (del_VolumeId dreq) = Inr vol \<and> createdByDynamicProvisioning vol \<longrightarrow>
      k \<noteq> (resourceGroupName vol, vol_name vol)"
  then show "clusters cl h2 k = clusters cl h k" using ct.delete_others [OF assms(1,4)] assms(2) by auto
qed

text \<open>The keys that the controller writes are not that of the sub-directory.\<close>

lemma bad_subDir_update: "to_lower k \<noteq> VolumeContextSubDir \<Longrightarrow> bad_subDir (AList.update k v m) = bad_subDir m"
  by (induction m) (auto simp: bad_subDir_def)

lemma bad_subDir_put:
  assumes "good_params m" "ascii key" "to_lower key \<noteq> VolumeContextSubDir"
  shows "bad_subDir (the (SetKeyValueInMap (Some m) key v)) = bad_subDir m"
proof (cases "find_fold m key")
  case (Some kv)
  then have "kv \<in> set m" "equal_fold (fst kv) key" using find_fold_Some [of m key "fst kv" "snd kv"] by auto
  then have "to_lower (fst kv) \<noteq> VolumeContextSubDir"
    using assms equal_fold_lower [of "fst kv" key] by (auto simp: good_params_def list_all_iff)
  then show ?thesis using Some by (cases kv) (simp add: SetKeyValueInMap_def bad_subDir_update)
qed (simp add: SetKeyValueInMap_def bad_subDir_update assms(3))

lemma bad_subDir_context:
  assumes "valid_order ord" "good_params m"
  shows "bad_subDir (create_context ord cluster m) = bad_subDir m"
proof -
  have put: "bad_subDir (the (SetKeyValueInMap (Some (ord i x)) key v)) = bad_subDir x"
    if "good_params x" "ascii key" "to_lower key \<noteq> VolumeContextSubDir" for i x key v
  proof -
    have s: "same_map (ord i x) x" using assms(1) by (simp add: valid_order_def)
    show ?thesis using bad_subDir_put [OF good_params_same [OF that(1) s] that(2,3)] bad_subDir_same_map [OF s] by simp
  qed
  show ?thesis using assms
    by (auto simp: create_context_def Let_def put ordered_put context_keys split: option.splits)
qed


text \<open>The resource group of a cluster that is created for a volume.\<close>

lemma created_resource_group:
  assumes "valid_order ord" "good_params m" "parseAmlFilesystemProperties (ord 7) (ord 1 m) = Inr p"
  shows "ResourceGroupName (fill_defaults d p) =
    (if GetValueInMap (Some m) VolumeContextResourceGroupName = '''' then drv_resourceGroup d
     else GetValueInMap (Some m) VolumeContextResourceGroupName)"
  using parse_fields(1) [OF assms(3)] order_value(2) [OF assms(1,2), of VolumeContextResourceGroupName 1] context_keys
  by (simp add: fill_defaults_def Let_def)

text \<open>
  C18. A creation followed by the deletion of the identifier it returned, both successful, leaves no cluster
  behind: the table is the one from before without an entry for the volume, so it is restored exactly when
  the volume had no cluster before. For a volume on an existing server nothing changes at all.
\<close>

theorem create_delete_restores:
  assumes "dynamicProvisioner d = dp_interface dp" "amlFilesystemsClient dp = Some cl"
    and "CreateVolume ord d req h = (((Inr resp, obs), h1), d1)"
    and "DeleteVolume d (delete_request (resp_VolumeId resp)) h1 = (((Inr (), obs2), h2), d2)"
    and "req_Parameters req = Some m" "good_params m" "valid_order ord"
    and "separator \<notin> set (req_Name req)" "separator \<notin> set (GetValueInMap (Some m) VolumeContextSubDir)"
      "separator \<notin> set (GetValueInMap (Some (resp_VolumeContext resp)) VolumeContextMGSIPAddress)"
      "separator \<notin> set (GetValueInMap (Some (resp_VolumeContext resp)) VolumeContextResourceGroupName)"
  shows "if GetValueInMap (Some m) VolumeContextMGSIPAddress \<noteq> '''' then clusters cl h2 = clusters cl h
    else \<exists>rg b. clusters cl h1 (rg, req_Name req) = Some (Created b) \<and> clusters cl h2 = (clusters cl h)((rg, req_Name req) := None)"
proof -
  obtain vol where vol: "getLustreVolFromID (resp_VolumeId resp) = Inr vol" "vol_name vol = req_Name req"
    "createdByDynamicProvisioning vol \<longleftrightarrow> GetValueInMap (Some m) VolumeContextMGSIPAddress = ''''"
    "createdByDynamicProvisioning vol \<longrightarrow> resourceGroupName vol =
       (if GetValueInMap (Some m) VolumeContextResourceGroupName = '''' then drv_resourceGroup d
        else GetValueInMap (Some m) VolumeContextResourceGroupName)"
    using created_identity [OF assms(3,5-11)] by blast
  obtain p where p: "parseAmlFilesystemProperties (ord 7) (ord 1 m) = Inr p"
    using assms(3,5) by (elim CreateVolume_Inr) auto
  have mgs: "GetValueInMap (Some (ord 0 m)) VolumeContextMGSIPAddress = GetValueInMap (Some m) VolumeContextMGSIPAddress"
    using order_value(1) [OF assms(7,6), of VolumeContextMGSIPAddress 0] context_keys by simp
  note create = ct.create_refines [OF assms(1,3,5) p] and delete = ct.delete_refines [OF assms(1,4)]
  show ?thesis
    using create delete vol mgs created_resource_group [OF assms(7,6) p, of d] assms(2)
    by (cases "createdByDynamicProvisioning vol")
      (auto simp: delete_request_def abs_create_def abs_delete_def fun_eq_iff split: if_splits)
qed

text \<open>A run that creates a cluster, and the deletion of its volume.\<close>

abbreviation fresh_client :: AmlFilesystemsClient where
  "fresh_client \<equiv> sample_client (Inr None) None"

lemma fresh_driver_provisioner: "dynamicProvisioner fresh_driver = dp_interface (sample_provisioner fresh_client)"
  by (simp add: fresh_driver_def)

lemma fresh_client_of: "amlFilesystemsClient (sample_provisioner fresh_client) = Some fresh_client"
  by (simp add: sample_provisioner_def)

lemma dynamic_run:
  obtains resp h where "CreateVolume list_order fresh_driver (sample_request dynamic_params) [] = (((Inr resp, Some True), h), fresh_driver)"
    "resp_VolumeId resp = ''pvc-1#lustrefs#10.0.0.4##t#mc-rg''"
    "GetValueInMap (Some (resp_VolumeContext resp)) VolumeContextMGSIPAddress = ''10.0.0.4''"
    "GetValueInMap (Some (resp_VolumeContext resp)) VolumeContextResourceGroupName = ''mc-rg''"
proof -
  have "case fst (CreateVolume list_order fresh_driver (sample_request dynamic_params) []) of
      ((Inl _, _), _) \<Rightarrow> False
    | ((Inr resp, obs), h) \<Rightarrow> obs = Some True \<and> resp_VolumeId resp = ''pvc-1#lustrefs#10.0.0.4##t#mc-rg''
        \<and> GetValueInMap (Some (resp_VolumeContext resp)) VolumeContextMGSIPAddress = ''10.0.0.4''
        \<and> GetValueInMap (Some (resp_VolumeContext resp)) VolumeContextResourceGroupName = ''mc-rg''"
    by code_simp
  moreover have "snd (CreateVolume list_order fresh_driver (sample_request dynamic_params) []) = fresh_driver"
    by (cases rule: CreateVolume_cases [of list_order fresh_driver "sample_request dynamic_params" "[]"]) auto
  ultimately show thesis
    by (cases "CreateVolume list_order fresh_driver (sample_request dynamic_params) []")
      (auto intro: that split: prod.splits sum.splits)
qed

lemma dynamic_delete_run:
  "DeleteVolume fresh_driver (delete_request ''pvc-1#lustrefs#10.0.0.4##t#mc-rg'') h =
     (((Inr (), Some True), h @ [AmlBeginDelete ''mc-rg'' ''pvc-1'', AmlPollDelete ''mc-rg'' ''pvc-1'']), fresh_driver)"
proof -
  let ?vid = "''pvc-1#lustrefs#10.0.0.4##t#mc-rg''"
  have vol: "getLustreVolFromID ?vid = Inr \<lparr>vol_name = ''pvc-1'', vol_id = ?vid, mgsIPAddress = ''10.0.0.4'',
      azureLustreName = ''lustrefs'', subDir = '''', createdByDynamicProvisioning = True, resourceGroupName = ''mc-rg''\<rparr>"
    by code_simp
  have "?vid \<notin> locks (volLocks fresh_driver)"
    by (simp add: fresh_driver_def sample_driver_def baseDriver_def newVolumeLocks_def)
  then show ?thesis using delete_request_run [of ?vid fresh_driver h] vol
    by (simp add: DeleteVolume_body_def delete_request_def observed_def fresh_driver_provisioner dp_interface_def
        DeleteAmlFilesystem_def sample_provisioner_def sample_client_def)
qed

lemma dynamic_properties:
  obtains p where "parseAmlFilesystemProperties (list_order 7) dynamic_params = Inr p"
    "GetValueInMap (Some dynamic_params) VolumeContextMGSIPAddress = ''''" "ResourceGroupName (fill_defaults fresh_driver p) = ''mc-rg''"
proof -
  obtain p where p: "parseAmlFilesystemProperties (list_order 7) dynamic_params = Inr p"
    using dynamic_params_parse by (cases "parseAmlFilesystemProperties (list_order 7) dynamic_params") auto
  have mgs: "GetValueInMap (Some dynamic_params) VolumeContextMGSIPAddress = ''''"
    and rg: "ci_value VolumeContextResourceGroupName dynamic_params = ''''" by code_simp+
  have "ResourceGroupName (fill_defaults fresh_driver p) = ''mc-rg''"
    using parse_fields(1) [OF p] rg by (simp add: fill_defaults_def Let_def fresh_driver_def sample_driver_def)
  then show thesis using that p mgs by blast
qed

lemma fresh_cluster:
  "\<exists>b. clusters fresh_client (snd (fst (CreateVolume list_order fresh_driver (sample_request dynamic_params) []))) (''mc-rg'', ''pvc-1'') =
     Some (Created b)"
proof (rule dynamic_run)
  fix resp h
  assume run: "CreateVolume list_order fresh_driver (sample_request dynamic_params) [] = (((Inr resp, Some True), h), fresh_driver)"
  obtain p where p: "parseAmlFilesystemProperties (list_order 7) dynamic_params = Inr p"
    "GetValueInMap (Some dynamic_params) VolumeContextMGSIPAddress = ''''" "ResourceGroupName (fill_defaults fresh_driver p) = ''mc-rg''"
    by (rule dynamic_properties)
  then show ?thesis
    using ct.create_refines [OF fresh_driver_provisioner run, of dynamic_params p] run fresh_client_of
    by (auto simp: sample_request_def list_order_def abs_create_def)
qed

theorem controller_refines_cluster_table_witness:
  "\<exists>resp h b. fst (CreateVolume list_order fresh_driver (sample_request dynamic_params) []) = ((Inr resp, Some True), h)
     \<and> clusters fresh_client h = [(''mc-rg'', ''pvc-1'') \<mapsto> Created b]"
proof (rule dynamic_run)
  fix resp h
  assume run: "CreateVolume list_order fresh_driver (sample_request dynamic_params) [] = (((Inr resp, Some True), h), fresh_driver)"
  obtain p where p: "parseAmlFilesystemProperties (list_order 7) dynamic_params = Inr p"
    "GetValueInMap (Some dynamic_params) VolumeContextMGSIPAddress = ''''" "ResourceGroupName (fill_defaults fresh_driver p) = ''mc-rg''"
    by (rule dynamic_properties)
  then show ?thesis
    using controller_refines_cluster_table [OF fresh_driver_provisioner fresh_client_of run dynamic_delete_run [of "[]"]] run p
    by (auto simp: sample_request_def list_order_def abs_create_def clusters_def)
qed

theorem create_delete_restores_witness:
  "\<exists>resp h. fst (CreateVolume list_order fresh_driver (sample_request dynamic_params) []) = ((Inr resp, Some True), h)
     \<and> clusters fresh_client (snd (fst (DeleteVolume fresh_driver (delete_request (resp_VolumeId resp)) h))) = Map.empty"
proof (rule dynamic_run)
  fix resp h
  assume run: "CreateVolume list_order fresh_driver (sample_request dynamic_params) [] = (((Inr resp, Some True), h), fresh_driver)"
    and resp: "resp_VolumeId resp = ''pvc-1#lustrefs#10.0.0.4##t#mc-rg''"
      "GetValueInMap (Some (resp_VolumeContext resp)) VolumeContextMGSIPAddress = ''10.0.0.4''"
      "GetValueInMap (Some (resp_VolumeContext resp)) VolumeContextResourceGroupName = ''mc-rg''"
  have params: "GetValueInMap (Some dynamic_params) VolumeContextMGSIPAddress = ''''"
    "GetValueInMap (Some dynamic_params) VolumeContextSubDir = ''''" "good_params dynamic_params" by code_simp+
  have delete: "DeleteVolume fresh_driver (delete_request (resp_VolumeId resp)) h =
      (((Inr (), Some True), h @ [AmlBeginDelete ''mc-rg'' ''pvc-1'', AmlPollDelete ''mc-rg'' ''pvc-1'']), fresh_driver)"
    unfolding resp(1) by (rule dynamic_delete_run)
  show ?thesis
    using create_delete_restores [OF fresh_driver_provisioner fresh_client_of run delete, of dynamic_params] run delete params resp valid_list_order
    by (auto simp: sample_request_def clusters_def)
qed

text \<open>A request with the root as its sub-directory: a cluster is created and the request refused.\<close>

abbreviation root_params :: gomap where
  "root_params \<equiv> dynamic_params @ [(''sub-dir'', ''/'')]"

text \<open>The calls of a creation depend on the parameters only through the parsed properties and the server's address.\<close>

lemma create_calls_of_properties:
  assumes "parseAmlFilesystemProperties (ord 7) (ord 1 m) = parseAmlFilesystemProperties (ord 7) (ord 1 m')"
    and "GetValueInMap (Some (ord 0 m)) VolumeContextMGSIPAddress = GetValueInMap (Some (ord 0 m')) VolumeContextMGSIPAddress"
  shows "snd (CreateVolume_body ord d (req\<lparr>req_Parameters := Some m\<rparr>) h) = snd (CreateVolume_body ord d (req\<lparr>req_Parameters := Some m'\<rparr>) h)"
proof -
  have "snd (CreateVolume_finish ord d (req\<lparr>req_Parameters := Some m\<rparr>) m sc p sizes h1) =
      snd (CreateVolume_finish ord d (req\<lparr>req_Parameters := Some m'\<rparr>) m' sc p sizes h1)" for sc p sizes h1
    by (simp add: CreateVolume_finish_def Let_def split: sum.splits prod.splits)
  then show ?thesis using assms by (simp add: CreateVolume_body_def Let_def split: sum.splits prod.splits)
qed

lemma root_params_calls:
  "snd (fst (CreateVolume list_order fresh_driver (sample_request root_params) h)) =
     snd (fst (CreateVolume list_order fresh_driver (sample_request dynamic_params) h))"
proof -
  have "parseAmlFilesystemProperties (list_order 7) root_params = parseAmlFilesystemProperties (list_order 7) dynamic_params"
    and "GetValueInMap (Some root_params) VolumeContextMGSIPAddress = GetValueInMap (Some dynamic_params) VolumeContextMGSIPAddress"
    by code_simp+
  then have "snd (CreateVolume_body list_order fresh_driver (sample_request root_params) h) =
      snd (CreateVolume_body list_order fresh_driver (sample_request dynamic_params) h)"
    using create_calls_of_properties [of list_order root_params dynamic_params fresh_driver "sample_request []" h]
    by (simp add: list_order_def sample_request_def)
  moreover have "CreateVolume list_order fresh_driver (sample_request m) h =
      (observed (CreateVolume_body list_order fresh_driver (sample_request m) h), fresh_driver)" for m
    by (rule CreateVolume_run)
      (simp_all add: sample_request_def checkVolumeRequest_def GetMount_def GetMode_def AccessMode_GetMode_def volumeCapabilities_def
        fresh_driver_def sample_driver_def baseDriver_def newVolumeLocks_def)
  moreover have "snd (observed x) = snd x" for x :: "CreateVolumeResponse result \<times> az_history"
    by (simp add: observed_def split: prod.splits)
  ultimately show ?thesis by simp
qed


end
