(* ===== verification/Node_Server.thy ===== *)
theory Node_Server
  imports Controller_Server Go_Path
begin

text \<open>
  The node service (\<open>nodeserver.go\<close>). The mounter, the file system of the node and the lock of the
  kernel modules are outside the driver: every call to them is an event of the history with the error
  it returned, and what a call returns may depend on the whole history before it (\<open>node_os\<close>). The
  functions are those of the source, in its order, each with every call it makes; a deferred call is
  made on every path that follows its \<open>defer\<close>. The number after a path is a timeout in seconds.
\<close>

datatype node_call =
    KernelLock | KernelUnlock
  | IsLikelyNotMountPoint string
  | PathExists string
  | ReadDir string
  | EntryInfo string string
  | MkdirAll string
  | RemoveFile string
  | MountLustre string string string "string list" "string list"
  | Unmount string
  | UnmountWithForce string nat
  | CleanupMountWithForce string nat
  | Lstat string
  | StatFS string

type_synonym node_history = "(node_call \<times> go_error option) list"

text \<open>\<open>resource.Quantity\<close>: its value when it fits into 64 bits, and how it prints.\<close>

record quantity =
  AsInt64 :: "int64 option"
  q_text :: string

record volume_metrics =
  m_Available :: quantity
  m_Capacity :: quantity
  m_Used :: quantity
  m_InodesFree :: quantity
  m_Inodes :: quantity
  m_InodesUsed :: quantity

record node_os =
  os_Err :: "node_history \<Rightarrow> node_call \<Rightarrow> go_error option"
  os_IsLikelyNotMountPoint :: "node_history \<Rightarrow> string \<Rightarrow> bool \<times> go_error option"
  os_ReadDir :: "node_history \<Rightarrow> string \<Rightarrow> string list \<times> go_error option"
  os_GetMetrics :: "node_history \<Rightarrow> string \<Rightarrow> volume_metrics result"

text \<open>A call of which only the error is used.\<close>

definition node_do :: "node_os \<Rightarrow> node_call \<Rightarrow> node_history \<Rightarrow> go_error option \<times> node_history" where
  "node_do os c h = (os_Err os h c, h @ [(c, os_Err os h c)])"

abbreviation "internal_error msg \<equiv> StatusError Internal msg"

subsection \<open>Paths\<close>

definition ensureStrictSubpath :: "string \<Rightarrow> bool" where
  "ensureStrictSubpath subPath \<longleftrightarrow> is_local subPath \<and> clean subPath \<noteq> ''.''"

definition getSourceString :: "string \<Rightarrow> string \<Rightarrow> string" where
  "getSourceString mgsIP lustreName = mgsIP @ ''@tcp:/'' @ lustreName"

definition getInternalMountPath :: "string \<Rightarrow> string \<Rightarrow> string result" where
  "getInternalMountPath workDir mountPath =
     (let p = trim_byte (CHR ''/'') mountPath in
      if \<not> ensureStrictSubpath p then Inl (internal_error (''invalid mount path '' @ quote p))
      else Inr (path_join [workDir, p]))"

definition getInternalVolumePath :: "string \<Rightarrow> string \<Rightarrow> string \<Rightarrow> string result" where
  "getInternalVolumePath workDir mountPath subDirPath =
     (case getInternalMountPath workDir mountPath of
        Inl e \<Rightarrow> Inl e
      | Inr p \<Rightarrow>
          if \<not> ensureStrictSubpath subDirPath
          then Inl (StatusError InvalidArgument (''sub-dir '' @ quote subDirPath @ '' must be strict subpath''))
          else Inr (path_join [p, subDirPath]))"

subsection \<open>Mounting and unmounting\<close>

definition make_dir :: "node_os \<Rightarrow> string \<Rightarrow> node_history \<Rightarrow> go_error option \<times> node_history" where
  "make_dir os p h = (case node_do os (MkdirAll p) h of (r, h') \<Rightarrow> (MakeDir r, h'))"

definition IsCorruptedDir :: "node_os \<Rightarrow> string \<Rightarrow> node_history \<Rightarrow> bool \<times> node_history" where
  "IsCorruptedDir os dir h =
     (case node_do os (PathExists dir) h of (pathErr, h') \<Rightarrow>
        (case pathErr of Some (OsError ErrCorruptedMnt _) \<Rightarrow> True | _ \<Rightarrow> False, h'))"

definition mountVolumeAtPath ::
    "node_os \<Rightarrow> string \<Rightarrow> string \<Rightarrow> string list \<Rightarrow> node_history \<Rightarrow> go_error option \<times> node_history" where
  "mountVolumeAtPath os source target mountOptions h =
     (case node_do os (MountLustre source target ''lustre'' mountOptions [''--no-mtab'']) (h @ [(KernelLock, None)]) of
        (err, h') \<Rightarrow> (err, h' @ [(KernelUnlock, None)]))"

text \<open>The loop over the entries of the parent directory: true when an entry with the name has no info.\<close>

fun bad_entry :: "node_os \<Rightarrow> string \<Rightarrow> string \<Rightarrow> string list \<Rightarrow> bool \<Rightarrow> node_history \<Rightarrow> bool \<times> node_history" where
  "bad_entry os parent name [] bad h = (bad, h)"
| "bad_entry os parent name (e # es) bad h =
     (if e = name then
        (case node_do os (EntryInfo parent e) h of (err, h') \<Rightarrow>
           bad_entry os parent name es (bad \<or> err \<noteq> None) h')
      else bad_entry os parent name es bad h)"

definition unmountVolumeAtPath :: "node_os \<Rightarrow> string \<Rightarrow> node_history \<Rightarrow> go_error option \<times> node_history" where
  "unmountVolumeAtPath os targetPath h =
     (let parent = path_dir targetPath; h0 = h @ [(KernelLock, None)] in
      case os_ReadDir os h0 parent of (entries, err) \<Rightarrow>
      case bad_entry os parent (path_base targetPath) entries (err \<noteq> None) (h0 @ [(ReadDir parent, err)]) of (bad, h1) \<Rightarrow>
      let h2 = (if bad then snd (node_do os (UnmountWithForce targetPath 30) h1) else h1) in
      case node_do os (CleanupMountWithForce targetPath 10) h2 of (r, h3) \<Rightarrow> (r, h3 @ [(KernelUnlock, None)]))"

text \<open>
  \<open>ensureMountPoint\<close>: whether the target is a mount point already. The second part starts after the
  first answer; \<open>valid_mount\<close> is its branch for a mount point, whose error after a successful unmount
  is that of reading the directory.
\<close>

definition valid_mount :: "node_os \<Rightarrow> string \<Rightarrow> node_history \<Rightarrow> bool result \<times> node_history" where
  "valid_mount os target h =
     (case os_ReadDir os h target of (_, err) \<Rightarrow>
      (let h1 = h @ [(ReadDir target, err)] in
       case err of
         None \<Rightarrow> (Inr True, h1)
       | Some e \<Rightarrow>
           (case node_do os (Unmount target) h1 of
              (Some e', h2) \<Rightarrow> (Inl e', h2)
            | (None, h2) \<Rightarrow> (Inl e, h2))))"

definition is_not_exist :: "go_error \<Rightarrow> bool" where
  "is_not_exist e \<longleftrightarrow> (case e of OsError ErrNotExist _ \<Rightarrow> True | _ \<Rightarrow> False)"

definition ensure_rest :: "node_os \<Rightarrow> string \<Rightarrow> bool \<Rightarrow> node_history \<Rightarrow> bool result \<times> node_history" where
  "ensure_rest os target notMnt h =
     (if \<not> notMnt then valid_mount os target h
      else case make_dir os target h of
        (Some e, h1) \<Rightarrow> (Inl e, h1)
      | (None, h1) \<Rightarrow> (Inr False, h1))"

definition ensureMountPoint :: "node_os \<Rightarrow> string \<Rightarrow> node_history \<Rightarrow> bool result \<times> node_history" where
  "ensureMountPoint os target h =
     (case os_IsLikelyNotMountPoint os h target of (notMnt, err) \<Rightarrow>
      (let h1 = h @ [(IsLikelyNotMountPoint target, err)] in
       case err of
         None \<Rightarrow> ensure_rest os target notMnt h1
       | Some e \<Rightarrow>
           if is_not_exist e then ensure_rest os target notMnt h1
           else case IsCorruptedDir os target h1 of
             (True, h2) \<Rightarrow> ensure_rest os target False h2
           | (False, h2) \<Rightarrow> (Inl e, h2)))"

subsection \<open>The internal mount that creates a sub-directory\<close>

definition internalUnmount :: "node_os \<Rightarrow> Driver \<Rightarrow> string \<Rightarrow> node_history \<Rightarrow> go_error option \<times> node_history" where
  "internalUnmount os d mountPath h =
     (case getInternalMountPath (workingMountDir d) mountPath of
        Inl e \<Rightarrow> (Some e, h)
      | Inr target \<Rightarrow>
          (case node_do os (CleanupMountWithForce target 10) h of
             (None, h') \<Rightarrow> (None, h')
           | (Some err, h') \<Rightarrow>
               (Some (internal_error (''failed to unmount staging target '' @ quote target @ '': '' @ error_text err)), h')))"

text \<open>Mount, and remove the mount point when that fails; shared by the two places that do it.\<close>

definition mount_or_remove ::
    "node_os \<Rightarrow> string \<Rightarrow> string \<Rightarrow> string list \<Rightarrow> node_history \<Rightarrow> go_error option \<times> node_history" where
  "mount_or_remove os source target mountOptions h =
     (case mountVolumeAtPath os source target mountOptions h of
        (None, h1) \<Rightarrow> (None, h1)
      | (Some err, h1) \<Rightarrow>
          (case node_do os (RemoveFile target) h1 of
             (Some removeErr, h2) \<Rightarrow>
               (Some (internal_error (''Could not remove mount target '' @ quote target @ '': '' @ error_text removeErr)), h2)
           | (None, h2) \<Rightarrow>
               (Some (internal_error (''Could not mount '' @ quote source @ '' at '' @ quote target @ '': '' @ error_text err)), h2)))"

definition internalMount ::
    "node_os \<Rightarrow> Driver \<Rightarrow> lustreVolume \<Rightarrow> string \<Rightarrow> string list \<Rightarrow> node_history \<Rightarrow> go_error option \<times> node_history" where
  "internalMount os d vol mountPath mountOptions h =
     (let source = getSourceString (mgsIPAddress vol) (azureLustreName vol) in
      case getInternalMountPath (workingMountDir d) mountPath of
        Inl e \<Rightarrow> (Some e, h)
      | Inr target \<Rightarrow>
          (case ensureMountPoint os target h of
             (Inl e, h1) \<Rightarrow> (Some (internal_error (''Could not mount target '' @ quote target @ '': '' @ error_text e)), h1)
           | (Inr False, h1) \<Rightarrow> mount_or_remove os source target mountOptions h1
           | (Inr True, h1) \<Rightarrow>
               (case internalUnmount os d mountPath h1 of
                  (Some e, h2) \<Rightarrow>
                    (Some (internal_error (''Could not unmount existing volume at '' @ quote target @ '': '' @ error_text e)), h2)
                | (None, h2) \<Rightarrow> mount_or_remove os source target mountOptions h2)))"

definition make_sub_dir ::
    "node_os \<Rightarrow> Driver \<Rightarrow> string \<Rightarrow> string \<Rightarrow> node_history \<Rightarrow> go_error option \<times> node_history" where
  "make_sub_dir os d mountPath subDirPath h =
     (case getInternalVolumePath (workingMountDir d) mountPath subDirPath of
        Inl e \<Rightarrow> (Some e, h)
      | Inr p \<Rightarrow>
          (case make_dir os p h of
             (None, h') \<Rightarrow> (None, h')
           | (Some e, h') \<Rightarrow> (Some (internal_error (''failed to make subdirectory: '' @ error_text e)), h')))"

definition createSubDir ::
    "node_os \<Rightarrow> Driver \<Rightarrow> lustreVolume \<Rightarrow> string \<Rightarrow> string \<Rightarrow> string list \<Rightarrow> node_history
      \<Rightarrow> go_error option \<times> node_history" where
  "createSubDir os d vol mountPath subDirPath mountOptions h =
     (case internalMount os d vol mountPath mountOptions h of
        (Some e, h1) \<Rightarrow> (Some e, h1)
      | (None, h1) \<Rightarrow>
          (case make_sub_dir os d mountPath subDirPath h1 of
             (r, h2) \<Rightarrow> (r, snd (internalUnmount os d mountPath h2))))"


subsection \<open>NodePublishVolume\<close>

record NodePublishVolumeRequest =
  pub_VolumeCapability :: "VolumeCapability option"
  pub_VolumeId :: string
  pub_TargetPath :: string
  pub_VolumeContext :: "gomap option"
  pub_Readonly :: bool

definition GetMountFlags :: "VolumeCapability \<Rightarrow> string list" where
  "GetMountFlags c = (case GetMount c of None \<Rightarrow> [] | Some m \<Rightarrow> MountFlags m)"

text \<open>The loop over the user's mount flags, on the options so far and the read-only flag.\<close>

definition mount_flag_step :: "bool \<Rightarrow> string \<Rightarrow> string list \<times> bool \<Rightarrow> string list \<times> bool" where
  "mount_flag_step reqReadonly flag acc =
     (case acc of (opts, readOnly) \<Rightarrow>
        if flag = ''ro'' then (if reqReadonly then (opts, True) else (opts @ [flag], True))
        else (opts @ [flag], readOnly))"

definition getMountOptions :: "NodePublishVolumeRequest \<Rightarrow> string list \<Rightarrow> string list \<times> bool" where
  "getMountOptions req userMountFlags =
     fold (mount_flag_step (pub_Readonly req)) userMountFlags
       (if pub_Readonly req then ([''ro''], True) else ([], False))"

abbreviation podNameKey :: string where "podNameKey \<equiv> ''csi.storage.k8s.io/pod.name''"
abbreviation podNamespaceKey :: string where "podNamespaceKey \<equiv> ''csi.storage.k8s.io/pod.namespace''"
abbreviation podUIDKey :: string where "podUIDKey \<equiv> ''csi.storage.k8s.io/pod.uid''"
abbreviation serviceAccountNameKey :: string where "serviceAccountNameKey \<equiv> ''csi.storage.k8s.io/serviceaccount.name''"
abbreviation podNameMetadata :: string where "podNameMetadata \<equiv> ''${pod.metadata.name}''"
abbreviation podNamespaceMetadata :: string where "podNamespaceMetadata \<equiv> ''${pod.metadata.namespace}''"
abbreviation podUIDMetadata :: string where "podUIDMetadata \<equiv> ''${pod.metadata.uid}''"
abbreviation serviceAccountNameMetadata :: string where "serviceAccountNameMetadata \<equiv> ''${serviceAccount.metadata.name}''"
abbreviation pvcNameMetadata :: string where "pvcNameMetadata \<equiv> ''${pvc.metadata.name}''"
abbreviation pvcNamespaceMetadata :: string where "pvcNamespaceMetadata \<equiv> ''${pvc.metadata.namespace}''"
abbreviation pvNameMetadata :: string where "pvNameMetadata \<equiv> ''${pv.metadata.name}''"

definition subDir_placeholder :: "string \<Rightarrow> string option" where
  "subDir_placeholder k =
     (let key = to_lower k in
      if key = podNameKey then Some podNameMetadata
      else if key = podNamespaceKey then Some podNamespaceMetadata
      else if key = podUIDKey then Some podUIDMetadata
      else if key = serviceAccountNameKey then Some serviceAccountNameMetadata
      else if key = pvcNamespaceKey then Some pvcNamespaceMetadata
      else if key = pvcNameKey then Some pvcNameMetadata
      else if key = pvNameKey then Some pvNameMetadata
      else None)"

definition subDirReplaceMap :: "gomap \<Rightarrow> gomap" where
  "subDirReplaceMap context =
     fold (\<lambda>(k, v) m. case subDir_placeholder k of None \<Rightarrow> m | Some p \<Rightarrow> AList.update p v m) context []"

text \<open>The two maps are visited in the orders 1 and 2.\<close>

definition interpolateSubDirVariables :: "range_order \<Rightarrow> gomap \<Rightarrow> lustreVolume \<Rightarrow> string" where
  "interpolateSubDirVariables ord context vol =
     ReplaceWithMap (subDir vol) (ord 2 (subDirReplaceMap (ord 1 context)))"

text \<open>The sub-directory part of the handler: the full mount source, after the directory was made.\<close>

definition publish_source ::
    "range_order \<Rightarrow> node_os \<Rightarrow> Driver \<Rightarrow> NodePublishVolumeRequest \<Rightarrow> gomap \<Rightarrow> lustreVolume \<Rightarrow> string list \<Rightarrow> bool
      \<Rightarrow> node_history \<Rightarrow> string result \<times> node_history" where
  "publish_source ord os d req context vol mountOptions readOnly h =
     (let source = getSourceString (mgsIPAddress vol) (azureLustreName vol) in
      if subDir vol \<noteq> '''' \<and> \<not> enableAzureLustreMockMount d then
        (let sub = interpolateSubDirVariables ord context vol in
         if \<not> ensureStrictSubpath sub then (invalid ''Context sub-dir must be strict subpath'', h)
         else if readOnly then (Inr (path_join [source, sub]), h)
         else case createSubDir os d vol (pub_TargetPath req) sub mountOptions h of
           (Some e, h1) \<Rightarrow> (Inl e, h1)
         | (None, h1) \<Rightarrow> (Inr (path_join [source, sub]), h1))
      else (Inr source, h))"

text \<open>
  The body of the handler inside the lock: the answer and what \<open>isOperationSucceeded\<close> is when the
  deferred observation runs.
\<close>

definition publish_target ::
    "node_os \<Rightarrow> Driver \<Rightarrow> string \<Rightarrow> string \<Rightarrow> string list \<Rightarrow> node_history \<Rightarrow> (unit result \<times> bool) \<times> node_history" where
  "publish_target os d source target mountOptions h =
     (case ensureMountPoint os target h of
        (Inl e, h1) \<Rightarrow> ((Inl (internal_error (''Could not mount target '' @ quote target @ '': '' @ error_text e)), False), h1)
      | (Inr True, h1) \<Rightarrow> ((Inr (), False), h1)
      | (Inr False, h1) \<Rightarrow>
          if enableAzureLustreMockMount d then
            (case make_dir os target h1 of
               (Some e, h2) \<Rightarrow> ((Inl e, False), h2)
             | (None, h2) \<Rightarrow> ((Inr (), False), h2))
          else
            (case mount_or_remove os source target mountOptions h1 of
               (Some e, h2) \<Rightarrow> ((Inl e, False), h2)
             | (None, h2) \<Rightarrow> ((Inr (), True), h2)))"

definition NodePublishVolume_body ::
    "range_order \<Rightarrow> node_os \<Rightarrow> Driver \<Rightarrow> NodePublishVolumeRequest \<Rightarrow> string list \<Rightarrow> gomap \<Rightarrow> lustreVolume
      \<Rightarrow> node_history \<Rightarrow> (unit result \<times> bool) \<times> node_history" where
  "NodePublishVolume_body ord os d req userMountFlags context vol h =
     (case getMountOptions req userMountFlags of (mountOptions, readOnly) \<Rightarrow>
      case publish_source ord os d req context vol mountOptions readOnly h of
        (Inl e, h1) \<Rightarrow> ((Inl e, False), h1)
      | (Inr source, h1) \<Rightarrow> publish_target os d source (pub_TargetPath req) mountOptions h1)"

text \<open>The locked section of a node handler: the key names the volume and the target.\<close>

definition node_locked ::
    "string \<Rightarrow> string \<Rightarrow> (Driver \<Rightarrow> node_history \<Rightarrow> (unit result \<times> bool) \<times> node_history) \<Rightarrow> Driver \<Rightarrow> node_history
      \<Rightarrow> (unit outcome \<times> node_history) \<times> Driver" where
  "node_locked volumeID target body d h =
     (case with_lock (volumeID @ ''-'' @ target)
         (\<lambda>vl. (case body (d\<lparr>volLocks := vl\<rparr>) h of ((r, ok), h') \<Rightarrow> (((r, Some ok), h'), vl)))
         ((Inl (busy_error volumeID), None), h) (volLocks d) of
        (r, vl) \<Rightarrow> (r, d\<lparr>volLocks := vl\<rparr>))"

definition NodePublishVolume ::
    "range_order \<Rightarrow> node_os \<Rightarrow> Driver \<Rightarrow> NodePublishVolumeRequest \<Rightarrow> node_history
      \<Rightarrow> (unit outcome \<times> node_history) \<times> Driver" where
  "NodePublishVolume ord os d req h =
     (case pub_VolumeCapability req of
        None \<Rightarrow> (((invalid ''Volume capability missing in request'', None), h), d)
      | Some volCap \<Rightarrow>
          if pub_VolumeId req = '''' then (((invalid ''Volume ID missing in request'', None), h), d)
          else if pub_TargetPath req = '''' then (((invalid ''Target path not provided'', None), h), d)
          else (case pub_VolumeContext req of
            None \<Rightarrow> (((invalid ''Volume context must be provided'', None), h), d)
          | Some context \<Rightarrow>
              (case getVolume (pub_VolumeId req) (ord 0 context) of
                 Inl e \<Rightarrow> (((Inl e, None), h), d)
               | Inr vol \<Rightarrow>
                   node_locked (pub_VolumeId req) (pub_TargetPath req)
                     (\<lambda>d. NodePublishVolume_body ord os d req (GetMountFlags volCap) context vol) d h)))"

subsection \<open>NodeUnpublishVolume and the other handlers\<close>

record NodeUnpublishVolumeRequest =
  unp_VolumeId :: string
  unp_TargetPath :: string

definition NodeUnpublishVolume_body ::
    "node_os \<Rightarrow> string \<Rightarrow> node_history \<Rightarrow> (unit result \<times> bool) \<times> node_history" where
  "NodeUnpublishVolume_body os targetPath h =
     (case unmountVolumeAtPath os targetPath h of
        (Some e, h1) \<Rightarrow> ((Inl (internal_error (''failed to unmount target '' @ quote targetPath @ '': '' @ error_text e)), False), h1)
      | (None, h1) \<Rightarrow> ((Inr (), True), h1))"

definition NodeUnpublishVolume ::
    "node_os \<Rightarrow> Driver \<Rightarrow> NodeUnpublishVolumeRequest \<Rightarrow> node_history \<Rightarrow> (unit outcome \<times> node_history) \<times> Driver" where
  "NodeUnpublishVolume os d req h =
     (if unp_VolumeId req = '''' then (((invalid ''Volume ID missing in request'', None), h), d)
      else if unp_TargetPath req = '''' then (((invalid ''Target path missing in request'', None), h), d)
      else node_locked (unp_VolumeId req) (unp_TargetPath req)
        (\<lambda>_. NodeUnpublishVolume_body os (unp_TargetPath req)) d h)"

definition NodeStageVolume :: "unit result" where
  "NodeStageVolume = Inl (StatusError Unimplemented '''')"

definition NodeUnstageVolume :: "unit result" where
  "NodeUnstageVolume = Inl (StatusError Unimplemented '''')"

definition NodeGetCapabilities :: "Driver \<Rightarrow> NodeServiceCapability list result" where
  "NodeGetCapabilities d = Inr (csi_NSCap d)"

definition NodeGetInfo :: "Driver \<Rightarrow> string result" where
  "NodeGetInfo d = Inr (csi_NodeID d)"

datatype usage_unit = BYTES | INODES

record VolumeUsage =
  us_Unit :: usage_unit
  us_Available :: int64
  us_Total :: int64
  us_Used :: int64

record NodeGetVolumeStatsRequest =
  st_VolumeId :: string
  st_VolumePath :: string

definition as_int64 :: "string \<Rightarrow> quantity \<Rightarrow> int64 result" where
  "as_int64 what q =
     (case AsInt64 q of Some i \<Rightarrow> Inr i
      | None \<Rightarrow> Inl (internal_error (''failed to transform '' @ what @ ''('' @ q_text q @ '')'')))"

definition volume_usage :: "volume_metrics \<Rightarrow> VolumeUsage list result" where
  "volume_usage m =
     (case as_int64 ''volume available size'' (m_Available m) of Inl e \<Rightarrow> Inl e | Inr available \<Rightarrow>
      case as_int64 ''volume capacity size'' (m_Capacity m) of Inl e \<Rightarrow> Inl e | Inr capacity \<Rightarrow>
      case as_int64 ''volume used size'' (m_Used m) of Inl e \<Rightarrow> Inl e | Inr used \<Rightarrow>
      case as_int64 ''disk inodes free'' (m_InodesFree m) of Inl e \<Rightarrow> Inl e | Inr inodesFree \<Rightarrow>
      case as_int64 ''disk inodes'' (m_Inodes m) of Inl e \<Rightarrow> Inl e | Inr inodes \<Rightarrow>
      case as_int64 ''disk inodes used'' (m_InodesUsed m) of Inl e \<Rightarrow> Inl e | Inr inodesUsed \<Rightarrow>
      Inr [\<lparr>us_Unit = BYTES, us_Available = available, us_Total = capacity, us_Used = used\<rparr>,
           \<lparr>us_Unit = INODES, us_Available = inodesFree, us_Total = inodes, us_Used = inodesUsed\<rparr>])"

definition NodeGetVolumeStats ::
    "node_os \<Rightarrow> NodeGetVolumeStatsRequest \<Rightarrow> node_history \<Rightarrow> VolumeUsage list result \<times> node_history" where
  "NodeGetVolumeStats os req h =
     (if st_VolumeId req = '''' then (invalid ''NodeGetVolumeStats volume ID was empty'', h)
      else if st_VolumePath req = '''' then (invalid ''NodeGetVolumeStats volume path was empty'', h)
      else case node_do os (Lstat (st_VolumePath req)) h of
        (Some e, h1) \<Rightarrow>
          (if is_not_exist e
           then Inl (StatusError NotFound (''path '' @ st_VolumePath req @ '' does not exist''))
           else Inl (internal_error (''failed to stat file '' @ st_VolumePath req @ '': '' @ error_text e)), h1)
      | (None, h1) \<Rightarrow>
          (case os_GetMetrics os h1 (st_VolumePath req) of
             Inl e \<Rightarrow> (Inl (internal_error (''failed to get metrics: '' @ error_text e)), h1 @ [(StatFS (st_VolumePath req), Some e)])
           | Inr m \<Rightarrow> (volume_usage m, h1 @ [(StatFS (st_VolumePath req), None)])))"

end
