(* ===== verification/Sub_Dir.thy ===== *)
theory Sub_Dir
  imports Node_Server "HOL-Library.Sublist"
begin

text \<open>
  The placeholders in a sub-directory. \<open>interpolateSubDirVariables\<close> replaces one placeholder after the other
  in the random order of a map, each in the text that the earlier replacements left. The reference is a
  single pass from left to right that replaces all placeholders at once. The two agree, for every order,
  when no value contains a dollar sign and no dollar sign of the sub-directory starts an incomplete
  placeholder; without this a replacement can make a new placeholder.
\<close>

subsection \<open>The reference\<close>

abbreviation dollar :: char where
  "dollar \<equiv> CHR ''$''"

function expand :: "gomap \<Rightarrow> string \<Rightarrow> string" where
  "expand m [] = []"
| "expand m (c # cs) =
     (case find (\<lambda>(k, v). has_prefix (c # cs) k) m of
        Some (k, v) \<Rightarrow> v @ expand m (drop (length k - 1) cs)
      | None \<Rightarrow> c # expand m cs)"
  by pat_completeness auto
termination
  by (relation "measure (\<lambda>(m, s). length s)") auto

definition placeholders :: "string list" where
  "placeholders = [podNameMetadata, podNamespaceMetadata, podUIDMetadata, serviceAccountNameMetadata,
     pvcNamespaceMetadata, pvcNameMetadata, pvNameMetadata]"

text \<open>The text cut at its dollar signs: what stands before the first, and what follows each of them.\<close>

datatype piece = Lit string | Seg string

function segments :: "string \<Rightarrow> piece list" where
  "segments [] = []"
| "segments (c # cs) = Seg (takeWhile (\<lambda>x. x \<noteq> dollar) cs) # segments (dropWhile (\<lambda>x. x \<noteq> dollar) cs)"
  by pat_completeness auto
termination
  by (relation "measure length") (auto simp: le_imp_less_Suc length_dropWhile_le)

definition pieces :: "string \<Rightarrow> piece list" where
  "pieces s = Lit (takeWhile (\<lambda>x. x \<noteq> dollar) s) # segments (dropWhile (\<lambda>x. x \<noteq> dollar) s)"

fun piece_ok :: "piece \<Rightarrow> bool" where
  "piece_ok (Lit l) \<longleftrightarrow> dollar \<notin> set l"
| "piece_ok (Seg g) \<longleftrightarrow> dollar \<notin> set g \<and> list_all (\<lambda>k. \<not> strict_prefix (dollar # g) k) placeholders"

definition template_ok :: "string \<Rightarrow> bool" where
  "template_ok s \<longleftrightarrow> list_all piece_ok (pieces s)"

fun piece_text :: "piece \<Rightarrow> string" where
  "piece_text (Lit l) = l"
| "piece_text (Seg g) = dollar # g"

definition text_of :: "piece list \<Rightarrow> string" where
  "text_of ps = concat (map piece_text ps)"

lemma text_of_simps [simp]: "text_of [] = []" "text_of (x # ps) = piece_text x @ text_of ps"
  by (simp_all add: text_of_def)

lemma text_of_segments: "s = [] \<or> hd s = dollar \<Longrightarrow> text_of (segments s) = s"
proof (induction s rule: segments.induct)
  case (2 c cs)
  let ?r = "dropWhile (\<lambda>x. x \<noteq> dollar) cs"
  have "?r = [] \<or> hd ?r = dollar" using hd_dropWhile [of "\<lambda>x. x \<noteq> dollar" cs] by auto
  then show ?case using 2 by simp
qed simp

lemma text_of_pieces: "text_of (pieces s) = s"
proof -
  let ?r = "dropWhile (\<lambda>x. x \<noteq> dollar) s"
  have "?r = [] \<or> hd ?r = dollar" using hd_dropWhile [of "\<lambda>x. x \<noteq> dollar" s] by auto
  then show ?thesis by (simp add: pieces_def text_of_segments)
qed

subsection \<open>Replacing one placeholder\<close>

text \<open>A placeholder is a dollar sign and text without one; none begins with another.\<close>

lemma placeholders_shape:
  "k \<in> set placeholders \<Longrightarrow> \<exists>p. k = dollar # p \<and> dollar \<notin> set p"
  by (auto simp: placeholders_def)

lemma placeholders_prefix_free:
  "k \<in> set placeholders \<Longrightarrow> k' \<in> set placeholders \<Longrightarrow> has_prefix s k \<Longrightarrow> has_prefix s k' \<Longrightarrow> k = k'"
proof -
  have "list_all (\<lambda>k. list_all (\<lambda>k'. has_prefix k' k \<longrightarrow> k = k') placeholders) placeholders" by code_simp
  then have free: "has_prefix k' k \<Longrightarrow> k = k'" if "k \<in> set placeholders" "k' \<in> set placeholders" for k k'
    using that by (auto simp: list_all_iff)
  assume "k \<in> set placeholders" "k' \<in> set placeholders" "has_prefix s k" "has_prefix s k'"
  moreover from this(3,4) have "has_prefix k k' \<or> has_prefix k' k"
    by (auto simp: has_prefix_iff append_eq_append_conv2)
  ultimately show "k = k'" using free by blast
qed

fun sub_piece :: "string \<Rightarrow> string \<Rightarrow> piece \<Rightarrow> piece" where
  "sub_piece k v (Lit l) = Lit l"
| "sub_piece k v (Seg g) = (if has_prefix (dollar # g) k then Lit (v @ drop (length k) (dollar # g)) else Seg g)"

text \<open>A segment that is no incomplete placeholder decides by itself which placeholder it starts with.\<close>

lemma segment_decides:
  assumes "piece_ok (Seg g)" "k \<in> set placeholders"
  shows "has_prefix (dollar # g @ rest) k \<longleftrightarrow> has_prefix (dollar # g) k"
proof
  assume "has_prefix (dollar # g @ rest) k"
  then obtain t where t: "(dollar # g) @ rest = k @ t" by (auto simp: has_prefix_iff)
  then consider u where "dollar # g = k @ u" | u where "k = (dollar # g) @ u" "u \<noteq> []"
    by (metis append_eq_append_conv2 append_Nil2)
  then show "has_prefix (dollar # g) k"
  proof cases
    case 2
    then have "strict_prefix (dollar # g) k" by (auto simp: strict_prefix_def)
    then show ?thesis using assms by (auto simp: list_all_iff)
  qed (auto simp: has_prefix_iff)
next
  assume "has_prefix (dollar # g) k"
  then obtain t where "dollar # g = k @ t" by (auto simp: has_prefix_iff)
  then have "dollar # g @ rest = k @ (t @ rest)" by (metis append_Cons append.assoc)
  then show "has_prefix (dollar # g @ rest) k" unfolding has_prefix_iff by blast
qed

lemma replace_pieces:
  assumes "k \<in> set placeholders" "list_all piece_ok ps"
  shows "replace_all (text_of ps) k v = text_of (map (sub_piece k v) ps)"
  using assms(2)
proof (induction ps)
  case (Cons x ps)
  obtain p where k: "k = dollar # p" "dollar \<notin> set p" using placeholders_shape [OF assms(1)] by blast
  show ?case
  proof (cases x)
    case (Lit l)
    then show ?thesis using Cons k by (simp add: replace_all_skip)
  next
    case (Seg g)
    show ?thesis
    proof (cases "has_prefix (dollar # g) k")
      case True
      then obtain t where t: "dollar # g = k @ t" by (auto simp: has_prefix_iff)
      have "dollar \<notin> set t" using t k Cons.prems Seg by auto
      moreover have "k \<noteq> []" "hd k = dollar" using k by auto
      ultimately have "replace_all (k @ t @ text_of ps) k v = v @ t @ replace_all (text_of ps) k v"
        by (simp add: replace_all_hit replace_all_skip)
      then show ?thesis using Cons Seg True t by simp
    next
      case False
      then have no: "\<not> has_prefix (dollar # g @ text_of ps) k"
        using segment_decides [OF _ assms(1), of g] Cons.prems Seg by simp
      have "replace_all (dollar # g @ text_of ps) k v = dollar # g @ replace_all (text_of ps) k v"
        using no k Cons.prems Seg by (simp add: replace_all_Cons replace_all_skip)
      then show ?thesis using Cons Seg False by simp
    qed
  qed
qed simp

subsection \<open>Replacing all of them\<close>

text \<open>A map of placeholders with values that contain no dollar sign.\<close>

definition values_ok :: "gomap \<Rightarrow> bool" where
  "values_ok m \<longleftrightarrow> list_all (\<lambda>(k, v). k \<in> set placeholders \<and> dollar \<notin> set v) m"

lemma values_okD: "values_ok m \<Longrightarrow> (k, v) \<in> set m \<Longrightarrow> k \<in> set placeholders \<and> dollar \<notin> set v"
  by (auto simp: values_ok_def list_all_iff)

lemma values_ok_key: "values_ok m \<Longrightarrow> (k, v) \<in> set m \<Longrightarrow> \<exists>p. k = dollar # p"
  using values_okD placeholders_shape by blast

lemma find_SomeD: "find P xs = Some x \<Longrightarrow> x \<in> set xs \<and> P x"
  by (auto simp: find_Some_iff)

abbreviation sub_all :: "gomap \<Rightarrow> piece \<Rightarrow> piece" where
  "sub_all m \<equiv> fold (\<lambda>(k, v). sub_piece k v) m"

lemma sub_piece_ok:
  assumes "k \<in> set placeholders" "dollar \<notin> set v" "piece_ok x"
  shows "piece_ok (sub_piece k v x)"
proof -
  obtain p where "k = dollar # p" using placeholders_shape [OF assms(1)] by blast
  then show ?thesis using assms(2,3) by (cases x) (auto dest: in_set_dropD)
qed

lemma ReplaceWithMap_pieces:
  assumes "values_ok m" "list_all piece_ok ps"
  shows "ReplaceWithMap (text_of ps) m = text_of (map (sub_all m) ps)"
  using assms
proof (induction m arbitrary: ps)
  case (Cons kv m)
  obtain k v where kv: "kv = (k, v)" by fastforce
  have k: "k \<in> set placeholders" "k \<noteq> ''''" "dollar \<notin> set v"
    using Cons.prems kv placeholders_shape [of k] by (auto simp: values_ok_def)
  have ok: "list_all piece_ok (map (sub_piece k v) ps)"
    using Cons.prems(2) sub_piece_ok [OF k(1,3)] by (auto simp: list_all_iff)
  have "ReplaceWithMap (text_of ps) (kv # m) = ReplaceWithMap (text_of (map (sub_piece k v) ps)) m"
    using replace_pieces [OF k(1) Cons.prems(2)] k(2) kv by (simp add: ReplaceWithMap_def)
  also have "\<dots> = text_of (map (sub_all m) (map (sub_piece k v) ps))"
    using Cons.IH [OF _ ok] Cons.prems(1) by (simp add: values_ok_def)
  finally show ?case using kv by (simp add: comp_def)
qed (simp add: ReplaceWithMap_def map_idI)

lemma sub_all_Lit: "sub_all m (Lit l) = Lit l"
  by (induction m) auto

lemma sub_all_Seg:
  "sub_all m (Seg g) = (case find (\<lambda>(k, v). has_prefix (dollar # g) k) m of
     None \<Rightarrow> Seg g | Some (k, v) \<Rightarrow> Lit (v @ drop (length k) (dollar # g)))"
  by (induction m) (auto simp: sub_all_Lit)

lemma expand_skip:
  assumes "values_ok m" "dollar \<notin> set l"
  shows "expand m (l @ s) = l @ expand m s"
  using assms(2)
proof (induction l)
  case (Cons c l)
  have "\<not> has_prefix (c # l @ s) k" if "(k, v) \<in> set m" for k v
    using values_ok_key [OF assms(1) that] Cons.prems by (auto simp: has_prefix_def)
  then have "find (\<lambda>(k, v). has_prefix (c # l @ s) k) m = None" by (auto simp: find_None_iff)
  then show ?case using Cons by simp
qed simp

lemma find_segment:
  assumes "values_ok m" "piece_ok (Seg g)"
  shows "find (\<lambda>(k, v). has_prefix (dollar # g @ rest) k) m = find (\<lambda>(k, v). has_prefix (dollar # g) k) m"
  using assms segment_decides [OF assms(2)]
  by (intro find_cong) (auto simp: values_ok_def list_all_iff)

lemma expand_pieces:
  assumes "values_ok m" "list_all piece_ok ps"
  shows "expand m (text_of ps) = text_of (map (sub_all m) ps)"
  using assms(2)
proof (induction ps)
  case (Cons x ps)
  show ?case
  proof (cases x)
    case (Lit l)
    then show ?thesis using Cons assms(1) by (simp add: sub_all_Lit expand_skip)
  next
    case (Seg g)
    note find = find_segment [OF assms(1), of g "text_of ps"]
    show ?thesis
    proof (cases "find (\<lambda>(k, v). has_prefix (dollar # g) k) m")
      case None
      then show ?thesis using Cons Seg find assms(1) by (simp add: sub_all_Seg expand_skip)
    next
      case (Some kv)
      obtain k v where kv: "kv = (k, v)" by fastforce
      have k: "(k, v) \<in> set m" "has_prefix (dollar # g) k" using find_SomeD [OF Some] kv by auto
      obtain t where t: "dollar # g = k @ t" using k(2) by (auto simp: has_prefix_iff)
      obtain p where p: "k = dollar # p" using values_ok_key [OF assms(1) k(1)] by blast
      then have "g = p @ t" using t by simp
      then have "expand m (dollar # g @ text_of ps) = v @ t @ expand m (text_of ps)"
        using Some kv find Cons.prems Seg p assms(1) by (simp add: expand_skip)
      moreover have "sub_all m (Seg g) = Lit (v @ t)" using Some kv t by (simp add: sub_all_Seg)
      moreover have "text_of (x # ps) = dollar # g @ text_of ps" using Seg by simp
      ultimately show ?thesis using Cons Seg by (simp del: expand.simps)
    qed
  qed
qed simp

lemma ReplaceWithMap_expand:
  assumes "values_ok m" "template_ok s"
  shows "ReplaceWithMap s m = expand m s"
  using ReplaceWithMap_pieces [OF assms(1)] expand_pieces [OF assms(1)] assms(2) text_of_pieces [of s]
  unfolding template_ok_def by metis

text \<open>At most one entry matches, so the reference does not depend on the order of the map.\<close>

lemma expand_order:
  assumes "values_ok m" "go_map_ok m" "set m' = set m"
  shows "expand m' s = expand m s"
proof -
  have same: "find (\<lambda>(k, v). has_prefix t k) m' = find (\<lambda>(k, v). has_prefix t k) m" for t
  proof -
    let ?P = "\<lambda>(k, v). has_prefix t k"
    have uniq: "kv = kv'" if "kv \<in> set m" "kv' \<in> set m" "?P kv" "?P kv'" for kv kv'
    proof -
      have "fst kv = fst kv'"
        using that values_okD [OF assms(1), of "fst kv" "snd kv"] values_okD [OF assms(1), of "fst kv'" "snd kv'"]
        by (intro placeholders_prefix_free [of _ _ t]) (auto simp: split_beta)
      then show ?thesis using that(1,2) assms(2) unfolding go_map_ok_def
        by (metis eq_key_imp_eq_value prod.collapse)
    qed
    show ?thesis
    proof (cases "find ?P m")
      case None
      then have "find ?P m' = None" using assms(3) unfolding find_None_iff by simp
      then show ?thesis using None by simp
    next
      case (Some kv)
      then have kv: "kv \<in> set m" "?P kv" using find_SomeD by fast+
      then obtain kv' where "find ?P m' = Some kv'" using assms(3) by (cases "find ?P m'") (auto simp: find_None_iff)
      moreover have "kv' \<in> set m" "?P kv'" using find_SomeD [OF calculation] assms(3) by auto
      ultimately show ?thesis using Some kv uniq [of kv kv'] by simp
    qed
  qed
  show ?thesis
  proof (induction s rule: length_induct)
    case (1 s)
    then show ?case by (cases s) (auto simp: same split: option.splits)
  qed
qed

subsection \<open>The sub-directory of a publish\<close>

lemma subDir_placeholder_mem: "subDir_placeholder k = Some p \<Longrightarrow> p \<in> set placeholders"
  by (auto simp: subDir_placeholder_def placeholders_def Let_def split: if_splits)

lemma subDir_placeholder_inj: "subDir_placeholder k = Some p \<Longrightarrow> subDir_placeholder k' = Some p \<Longrightarrow> to_lower k = to_lower k'"
  by (auto simp: subDir_placeholder_def Let_def split: if_splits)

lemma set_update_new: "p \<notin> fst ` set m \<Longrightarrow> set (AList.update p v m) = insert (p, v) (set m)"
  by (induction m) auto

text \<open>The map of the replacements has the placeholders of the context's keys with their values, each once.\<close>

lemma subDirReplaceMap_set:
  assumes "lc_ok ctx"
  shows "set (subDirReplaceMap ctx) = {(p, v). \<exists>k. (k, v) \<in> set ctx \<and> subDir_placeholder k = Some p} \<and> go_map_ok (subDirReplaceMap ctx)"
  using assms
proof (induction ctx rule: rev_induct)
  case (snoc kv ctx)
  obtain k v where kv: "kv = (k, v)" by fastforce
  have lc: "lc_ok ctx" "to_lower k \<notin> to_lower ` fst ` set ctx" using snoc.prems kv by (auto simp: lc_ok_def image_comp)
  note IH = snoc.IH [OF lc(1)]
  show ?case
  proof (cases "subDir_placeholder k")
    case None
    then show ?thesis using IH kv by (auto simp: subDirReplaceMap_def)
  next
    case (Some p)
    have "p \<notin> fst ` set (subDirReplaceMap ctx)" using IH lc(2) subDir_placeholder_inj [OF Some] by force
    then show ?thesis using IH kv Some update_go_map_ok [of "subDirReplaceMap ctx" p v] set_update_new [of p "subDirReplaceMap ctx" v]
      by (auto simp: subDirReplaceMap_def)
  qed
qed (simp add: subDirReplaceMap_def go_map_ok_def)

text \<open>
  C17. The sub-directory that a publish uses, for every order of the two maps that are visited: when the keys
  of the volume context are distinct in lower case, no value of it contains a dollar sign (names of Kubernetes
  objects do not) and no dollar sign of the sub-directory starts an incomplete placeholder, the sequence of
  replacements equals one pass from left to right that replaces all placeholders at once.
\<close>

theorem sub_dir_interpolation:
  assumes "valid_order ord" "lc_ok ctx" "list_all (\<lambda>kv. dollar \<notin> set (snd kv)) ctx" "template_ok (subDir vol)"
  shows "interpolateSubDirVariables ord ctx vol = expand (subDirReplaceMap ctx) (subDir vol)"
proof -
  let ?m = "subDirReplaceMap ctx" and ?m' = "ord 2 (subDirReplaceMap (ord 1 ctx))"
  have ctx: "lc_ok (ord 1 ctx)" "set (ord 1 ctx) = set ctx"
    using assms(1,2) same_map_distinct [of "ord 1 ctx" ctx] same_map_set [of "ord 1 ctx" ctx] by (auto simp: valid_order_def lc_ok_def)
  have "set ?m' = set (subDirReplaceMap (ord 1 ctx))" using assms(1) unfolding valid_order_def by (metis same_map_set)
  then have same: "set ?m' = set ?m" using subDirReplaceMap_set [OF ctx(1)] subDirReplaceMap_set [OF assms(2)] ctx(2) by simp
  have ok: "values_ok ?m" using subDirReplaceMap_set [OF assms(2)] assms(3) subDir_placeholder_mem
    by (fastforce simp: values_ok_def list_all_iff)
  then have "values_ok ?m'" using same by (simp add: values_ok_def list_all_iff)
  then have "interpolateSubDirVariables ord ctx vol = expand ?m' (subDir vol)"
    unfolding interpolateSubDirVariables_def using assms(4) by (rule ReplaceWithMap_expand)
  then show ?thesis using expand_order [OF ok _ same] subDirReplaceMap_set [OF assms(2)] by simp
qed

definition pod_context :: gomap where
  "pod_context = [(''csi.storage.k8s.io/Pod.Name'', ''web-0''), (podNamespaceKey, ''prod''), (''other'', ''x'')]"

definition pod_template :: string where
  "pod_template = ''apps/${pod.metadata.namespace}/$1/${pod.metadata.name}-data''"

theorem sub_dir_interpolation_witness:
  "interpolateSubDirVariables list_order pod_context \<lparr>vol_name = ''v'', vol_id = ''v'', mgsIPAddress = ''10.0.0.9'',
     azureLustreName = ''lustrefs'', subDir = pod_template, createdByDynamicProvisioning = False, resourceGroupName = ''''\<rparr>
   = ''apps/prod/$1/web-0-data''"
proof -
  have "lc_ok pod_context" "list_all (\<lambda>kv. dollar \<notin> set (snd kv)) pod_context" "template_ok pod_template"
    "expand (subDirReplaceMap pod_context) pod_template = ''apps/prod/$1/web-0-data''" by code_simp+
  then show ?thesis using sub_dir_interpolation [OF valid_list_order, of pod_context] by simp
qed

text \<open>
  Without the condition on the values the order decides: a pod whose name is a placeholder is replaced by its
  namespace or not. The second replacement sees the result of the first.
\<close>

lemma interpolation_order_matters:
  "ReplaceWithMap podNameMetadata [(podNameMetadata, podNamespaceMetadata), (podNamespaceMetadata, ''x'')] = ''x''"
  "ReplaceWithMap podNameMetadata [(podNamespaceMetadata, ''x''), (podNameMetadata, podNamespaceMetadata)] = podNamespaceMetadata"
  by code_simp+

end
