(* ===== verification/Node_Traces.thy ===== *)
theory Node_Traces
  imports Node_Server
begin

text \<open>
  What the node operations may do, as traces. A trace is a sequence of blocks: a block is a single
  call, or a mount or an unmount between the two events of the kernel module lock. The lemmas of this
  theory say from which blocks the trace of each operation is built; the properties of the node
  service are then checked block by block. The second part refines this where the order matters: an
  internal mount that succeeds ends with the mount, and one that fails leaves no successful mount.
\<close>

definition traced :: "node_history set \<Rightarrow> node_history \<Rightarrow> node_history \<Rightarrow> bool" where
  "traced B h h' \<longleftrightarrow> (\<exists>bs. set bs \<subseteq> B \<and> h' = h @ concat bs)"

lemma traced_refl [simp, intro]: "traced B h h"
  unfolding traced_def by (rule exI [of _ "[]"]) simp

lemma traced_block: "b \<in> B \<Longrightarrow> traced B h (h @ b)"
  unfolding traced_def by (rule exI [of _ "[b]"]) simp

lemma traced_trans:
  assumes "traced B h h1" "traced B h1 h2"
  shows "traced B h h2"
proof -
  from assms obtain bs cs where "set bs \<subseteq> B" "h1 = h @ concat bs" "set cs \<subseteq> B" "h2 = h1 @ concat cs"
    by (auto simp: traced_def)
  then have "set (bs @ cs) \<subseteq> B \<and> h2 = h @ concat (bs @ cs)" by simp
  then show ?thesis unfolding traced_def by blast
qed

lemma traced_snoc: "traced B h h1 \<Longrightarrow> b \<in> B \<Longrightarrow> traced B h (h1 @ b)"
  by (blast intro: traced_trans traced_block)

lemma traced_mono: "traced B h h' \<Longrightarrow> B \<subseteq> C \<Longrightarrow> traced C h h'"
  unfolding traced_def by blast

lemma traced_then: "traced B h h1 \<Longrightarrow> traced C h1 h2 \<Longrightarrow> B \<subseteq> D \<Longrightarrow> C \<subseteq> D \<Longrightarrow> traced D h h2"
  using traced_trans [OF traced_mono traced_mono] by blast

text \<open>A property of traces that holds of the empty trace and of every block and survives appending.\<close>

lemma traced_property:
  assumes "traced B h h'" and "\<And>b. b \<in> B \<Longrightarrow> Q b" and "Q []" and "\<And>s t. Q s \<Longrightarrow> Q t \<Longrightarrow> Q (s @ t)"
  shows "\<exists>t. h' = h @ t \<and> Q t"
proof -
  from assms(1) obtain bs where bs: "set bs \<subseteq> B" "h' = h @ concat bs" by (auto simp: traced_def)
  from bs(1) have "Q (concat bs)" by (induction bs) (auto intro: assms(2-4))
  then show ?thesis using bs(2) by blast
qed

subsection \<open>Blocks\<close>

text \<open>Looking at a mount point, making its directory, and unmounting it when it is broken.\<close>

definition point_blocks :: "string \<Rightarrow> node_history set" where
  "point_blocks p = (\<Union>e. {[(IsLikelyNotMountPoint p, e)], [(PathExists p, e)], [(ReadDir p, e)], [(MkdirAll p, e)], [(Unmount p, e)]})"

definition mount_block :: "string \<Rightarrow> string \<Rightarrow> string list \<Rightarrow> go_error option \<Rightarrow> node_history" where
  "mount_block source p opts e =
     [(KernelLock, None), (MountLustre source p ''lustre'' opts [''--no-mtab''], e), (KernelUnlock, None)]"

text \<open>A mount that failed, and the removal of its mount point.\<close>

definition failed_mount_blocks :: "string \<Rightarrow> string \<Rightarrow> string list \<Rightarrow> node_history set" where
  "failed_mount_blocks source p opts = (\<Union>e. {mount_block source p opts (Some e)}) \<union> (\<Union>e. {[(RemoveFile p, e)]})"

definition cleanup_blocks :: "string \<Rightarrow> node_history set" where
  "cleanup_blocks p = (\<Union>e. {[(CleanupMountWithForce p 10, e)]})"

lemmas block_defs = point_blocks_def failed_mount_blocks_def cleanup_blocks_def

lemma node_do_eq: "node_do os c h = (r, h') \<longleftrightarrow> r = os_Err os h c \<and> h' = h @ [(c, r)]"
  by (auto simp: node_do_def)

lemma make_dir_trace: "make_dir os p h = (r, h') \<Longrightarrow> \<exists>e. h' = h @ [(MkdirAll p, e)] \<and> r = MakeDir e"
  by (auto simp: make_dir_def node_do_eq split: prod.splits)

lemma IsCorruptedDir_trace: "IsCorruptedDir os p h = (r, h') \<Longrightarrow> \<exists>e. h' = h @ [(PathExists p, e)]"
  by (auto simp: IsCorruptedDir_def node_do_eq split: prod.splits)

lemma mountVolumeAtPath_trace:
  "mountVolumeAtPath os source p opts h = (r, h') \<Longrightarrow> h' = h @ mount_block source p opts r"
  by (auto simp: mountVolumeAtPath_def mount_block_def node_do_eq split: prod.splits)

subsection \<open>The mount point\<close>

lemma valid_mount_cases:
  assumes "valid_mount os p h = (r, h')"
  obtains (valid) "r = Inr True" "h' = h @ [(ReadDir p, None)]"
  | (stuck) e e' where "r = Inl e'" "h' = h @ [(ReadDir p, Some e), (Unmount p, Some e')]"
  | (unmounted) e where "r = Inl e" "h' = h @ [(ReadDir p, Some e), (Unmount p, None)]"
  using assms by (auto simp: valid_mount_def node_do_eq Let_def split: prod.splits option.splits)

lemma ensure_rest_trace:
  assumes "ensure_rest os p n h = (r, h')"
  shows "traced (point_blocks p) h h'"
proof (cases n)
  case True
  then obtain e where "h' = h @ [(MkdirAll p, e)]"
    using assms make_dir_trace [of os p h]
    by (auto simp: ensure_rest_def split: prod.splits option.splits)
  then show ?thesis by (auto simp: block_defs intro: traced_block)
next
  case False
  then have "valid_mount os p h = (r, h')" using assms by (simp add: ensure_rest_def)
  then show ?thesis
  proof (cases rule: valid_mount_cases)
    case valid
    then show ?thesis by (auto simp: block_defs intro: traced_block)
  next
    case (stuck e e')
    then have "h' = (h @ [(ReadDir p, Some e)]) @ [(Unmount p, Some e')]" by simp
    then show ?thesis by (auto simp only: block_defs intro!: traced_snoc)
  next
    case (unmounted e)
    then have "h' = (h @ [(ReadDir p, Some e)]) @ [(Unmount p, None)]" by simp
    then show ?thesis by (auto simp only: block_defs intro!: traced_snoc)
  qed
qed

lemma ensureMountPoint_cases:
  assumes "ensureMountPoint os p h = (r, h')"
  obtains (rest) n h1 where "traced (point_blocks p) h h1" "ensure_rest os p n h1 = (r, h')"
    "n \<longrightarrow> fst (os_IsLikelyNotMountPoint os h p)"
  | (failed) e where "traced (point_blocks p) h h'" "r = Inl e"
proof -
  obtain n err where ans: "os_IsLikelyNotMountPoint os h p = (n, err)" by fastforce
  let ?h1 = "h @ [(IsLikelyNotMountPoint p, err)]"
  have h1: "traced (point_blocks p) h ?h1" by (auto simp: block_defs intro: traced_block)
  obtain c h2 where cor: "IsCorruptedDir os p ?h1 = (c, h2)" by fastforce
  then obtain e2 where "h2 = ?h1 @ [(PathExists p, e2)]" using IsCorruptedDir_trace by blast
  then have h2: "traced (point_blocks p) h h2" using h1 by (auto simp only: block_defs intro!: traced_snoc)
  show thesis
  proof (cases err)
    case None
    then show thesis using assms ans h1 by (intro rest) (auto simp: ensureMountPoint_def)
  next
    case (Some e)
    show thesis
    proof (cases "is_not_exist e")
      case True
      then show thesis using assms ans h1 Some by (intro rest) (auto simp: ensureMountPoint_def)
    next
      case False
      show thesis
      proof (cases c)
        case True
        then show thesis using assms ans cor Some False h2 by (intro rest [of h2 False]) (auto simp: ensureMountPoint_def)
      next
        case c: False
        then show thesis using assms ans cor Some False h2 by (intro failed [of e]) (auto simp: ensureMountPoint_def)
      qed
    qed
  qed
qed

lemma ensureMountPoint_trace:
  assumes "ensureMountPoint os p h = (r, h')"
  shows "traced (point_blocks p) h h'"
  using assms by (cases rule: ensureMountPoint_cases) (auto intro: traced_trans ensure_rest_trace)


subsection \<open>Mounting\<close>

lemma mount_or_remove_cases:
  assumes "mount_or_remove os source p opts h = (r, h')"
  obtains (mounted) "r = None" "h' = h @ mount_block source p opts None"
  | (refused) e where "r = Some (internal_error e)" "traced (failed_mount_blocks source p opts) h h'"
proof -
  obtain m h1 where m: "mountVolumeAtPath os source p opts h = (m, h1)" by fastforce
  note h1 = mountVolumeAtPath_trace [OF m]
  show thesis
  proof (cases m)
    case None
    then show thesis using assms m h1 by (intro mounted) (auto simp: mount_or_remove_def)
  next
    case (Some e)
    obtain x h2 where x: "node_do os (RemoveFile p) h1 = (x, h2)" by fastforce
    have "traced (failed_mount_blocks source p opts) h (h1 @ [(RemoveFile p, x)])"
      unfolding h1 Some by (intro traced_snoc traced_refl) (auto simp: failed_mount_blocks_def)
    then show thesis using assms m Some x
      by (cases x) (auto simp: mount_or_remove_def node_do_eq intro: refused)
  qed
qed

definition volume_root :: "lustreVolume \<Rightarrow> string" where
  "volume_root vol = getSourceString (mgsIPAddress vol) (azureLustreName vol)"

lemma internalUnmount_trace:
  assumes "internalUnmount os d mp h = (r, h')" "getInternalMountPath (workingMountDir d) mp = Inr p"
  shows "\<exists>e. h' = h @ [(CleanupMountWithForce p 10, e)] \<and> (r = None \<longleftrightarrow> e = None)"
  using assms by (auto simp: internalUnmount_def node_do_eq split: prod.splits option.splits)

lemma getInternalMountPath_status: "getInternalMountPath wd mp = Inl e \<Longrightarrow> is_status e"
  by (auto simp: getInternalMountPath_def Let_def split: if_splits)

lemma internalUnmount_status: "internalUnmount os d mp h = (Some e, h') \<Longrightarrow> is_status e"
  by (auto simp: internalUnmount_def split: sum.splits prod.splits option.splits dest: getInternalMountPath_status)

text \<open>The mount point made ready, and an old internal mount removed.\<close>

definition prepare_blocks :: "string \<Rightarrow> node_history set" where
  "prepare_blocks p = point_blocks p \<union> cleanup_blocks p"

text \<open>Before the mount itself: the mount point is made, and a mount that is found there is cleaned up.\<close>

lemma internalMount_prepared:
  assumes "internalMount os d vol mp opts h = (r, h')" "getInternalMountPath (workingMountDir d) mp = Inr p"
  obtains (went_on) h2 where "traced (prepare_blocks p) h h2" "mount_or_remove os (volume_root vol) p opts h2 = (r, h')"
  | (stopped) e where "traced (prepare_blocks p) h h'" "r = Some (internal_error e)"
proof -
  obtain m h1 where m: "ensureMountPoint os p h = (m, h1)" by fastforce
  have h1: "traced (prepare_blocks p) h h1"
    using ensureMountPoint_trace [OF m] by (rule traced_mono) (auto simp: prepare_blocks_def)
  obtain u h2 where u: "internalUnmount os d mp h1 = (u, h2)" by fastforce
  then obtain e where "h2 = h1 @ [(CleanupMountWithForce p 10, e)]" using internalUnmount_trace assms(2) by blast
  then have h2: "traced (prepare_blocks p) h h2" using h1 by (auto simp: prepare_blocks_def cleanup_blocks_def intro: traced_snoc)
  show thesis
    using assms m u h1 h2
    by (cases m; cases "projr m"; cases u)
      (auto simp: internalMount_def volume_root_def Let_def intro: went_on [of h1] went_on [of h2] stopped)
qed

lemma internalMount_cases:
  assumes "internalMount os d vol mp opts h = (r, h')"
  obtains (no_path) e where "getInternalMountPath (workingMountDir d) mp = Inl e" "r = Some e" "h' = h"
  | (success) p h1 where "getInternalMountPath (workingMountDir d) mp = Inr p" "r = None"
      "traced (prepare_blocks p) h h1" "h' = h1 @ mount_block (volume_root vol) p opts None"
  | (failed) p e where "getInternalMountPath (workingMountDir d) mp = Inr p" "r = Some (internal_error e)"
      "traced (prepare_blocks p \<union> failed_mount_blocks (volume_root vol) p opts) h h'"
proof (cases "getInternalMountPath (workingMountDir d) mp")
  case (Inl e)
  then show thesis using assms by (intro no_path) (auto simp: internalMount_def Let_def)
next
  case (Inr p)
  let ?B = "prepare_blocks p \<union> failed_mount_blocks (volume_root vol) p opts"
  from assms Inr show thesis
  proof (cases rule: internalMount_prepared)
    case (went_on h2)
    from went_on(2) show thesis
    proof (cases rule: mount_or_remove_cases)
      case mounted
      then show thesis using success [OF Inr _ went_on(1)] by blast
    next
      case (refused e)
      have "traced ?B h h'" using went_on(1) refused(2) by (rule traced_then) auto
      then show thesis using failed Inr refused(1) by blast
    qed
  next
    case (stopped e)
    then show thesis using failed [OF Inr stopped(2)] traced_mono [OF stopped(1), of ?B] by simp
  qed
qed

subsection \<open>Creating a sub-directory\<close>

lemma make_sub_dir_trace:
  assumes "make_sub_dir os d mp sub h = (r, h')"
  obtains (refused) e where "getInternalVolumePath (workingMountDir d) mp sub = Inl e" "r = Some e" "h' = h"
  | (asked) q e where "getInternalVolumePath (workingMountDir d) mp sub = Inr q" "h' = h @ [(MkdirAll q, e)]"
      "r = None \<longrightarrow> MakeDir e = None" "\<And>x. r = Some x \<Longrightarrow> is_status x"
proof (cases "getInternalVolumePath (workingMountDir d) mp sub")
  case (Inl e)
  then show thesis using assms by (intro refused) (auto simp: make_sub_dir_def)
next
  case (Inr q)
  obtain x h1 where x: "make_dir os q h = (x, h1)" by fastforce
  obtain e where "h1 = h @ [(MkdirAll q, e)]" "x = MakeDir e" using make_dir_trace [OF x] by blast
  then show thesis using assms x Inr
    by (intro asked [of q e]) (auto simp: make_sub_dir_def split: option.splits)
qed

text \<open>
  An internal mount that was made is taken down: the last call of \<open>createSubDir\<close> cleans up the mount
  point. Without it, there was no successful mount at all.
\<close>

lemma createSubDir_cases:
  assumes "createSubDir os d vol mp sub opts h = (r, h')"
  obtains (no_path) e where "getInternalMountPath (workingMountDir d) mp = Inl e" "r = Some e" "h' = h"
  | (no_mount) p e where "getInternalMountPath (workingMountDir d) mp = Inr p" "r = Some (internal_error e)"
      "traced (prepare_blocks p \<union> failed_mount_blocks (volume_root vol) p opts) h h'"
  | (made) p h1 t e where "getInternalMountPath (workingMountDir d) mp = Inr p"
      "traced (prepare_blocks p) h h1"
      "h' = h1 @ mount_block (volume_root vol) p opts None @ t @ [(CleanupMountWithForce p 10, e)]"
      "t = [] \<or> (\<exists>q x. getInternalVolumePath (workingMountDir d) mp sub = Inr q \<and> t = [(MkdirAll q, x)])"
      "\<And>x. r = Some x \<Longrightarrow> is_status x"
      "r = None \<Longrightarrow> \<exists>q x. getInternalVolumePath (workingMountDir d) mp sub = Inr q \<and> t = [(MkdirAll q, x)] \<and> MakeDir x = None"
proof -
  obtain m h1 where m: "internalMount os d vol mp opts h = (m, h1)" by fastforce
  then show thesis
  proof (cases rule: internalMount_cases)
    case (no_path e)
    then show thesis using assms m that(1) by (auto simp: createSubDir_def)
  next
    case (failed p e)
    then show thesis using assms m that(2) by (auto simp: createSubDir_def)
  next
    case (success p h0)
    obtain s h2 where s: "make_sub_dir os d mp sub h1 = (s, h2)" by fastforce
    obtain u h3 where u: "internalUnmount os d mp h2 = (u, h3)" by fastforce
    obtain e where h3: "h3 = h2 @ [(CleanupMountWithForce p 10, e)]" using internalUnmount_trace [OF u success(1)] by blast
    have run: "r = s" "h' = h3" using assms m success s u by (auto simp: createSubDir_def)
    have vol_status: "is_status x" if "getInternalVolumePath (workingMountDir d) mp sub = Inl x" for x
      using that success(1) by (auto simp: getInternalVolumePath_def split: if_splits)
    from s show thesis
    proof (cases rule: make_sub_dir_trace)
      case (refused x)
      then show thesis using run h3 success vol_status
        by (intro that(3) [of p h0 "[]" e]) auto
    next
      case (asked q x)
      then show thesis using run h3 success
        by (intro that(3) [of p h0 "[(MkdirAll q, x)]" e]) auto
    qed
  qed
qed

text \<open>All blocks of the internal part of a publish.\<close>

definition internal_blocks :: "Driver \<Rightarrow> lustreVolume \<Rightarrow> string \<Rightarrow> string \<Rightarrow> string list \<Rightarrow> node_history set" where
  "internal_blocks d vol mp sub opts =
     (\<Union>p\<in>{p. getInternalMountPath (workingMountDir d) mp = Inr p}.
        prepare_blocks p \<union> failed_mount_blocks (volume_root vol) p opts \<union> {mount_block (volume_root vol) p opts None})
     \<union> (\<Union>q\<in>{q. getInternalVolumePath (workingMountDir d) mp sub = Inr q}. \<Union>e. {[(MkdirAll q, e)]})"

lemma createSubDir_trace:
  assumes "createSubDir os d vol mp sub opts h = (r, h')"
  shows "traced (internal_blocks d vol mp sub opts) h h'"
  using assms
proof (cases rule: createSubDir_cases)
  case (no_mount p e)
  from no_mount(3) show ?thesis by (rule traced_mono) (use no_mount(1) in \<open>auto simp: internal_blocks_def\<close>)
next
  case (made p h1 t e)
  let ?B = "internal_blocks d vol mp sub opts"
  have "traced ?B h h1" using made(2) by (rule traced_mono) (use made(1) in \<open>auto simp: internal_blocks_def\<close>)
  then have "traced ?B h (h1 @ mount_block (volume_root vol) p opts None)"
    by (rule traced_snoc) (use made(1) in \<open>auto simp: internal_blocks_def\<close>)
  moreover have "t = [] \<or> t \<in> ?B" using made(4) by (auto simp: internal_blocks_def)
  moreover have "[(CleanupMountWithForce p 10, e)] \<in> ?B"
    using made(1) by (auto simp: internal_blocks_def prepare_blocks_def cleanup_blocks_def)
  ultimately have "traced ?B h (((h1 @ mount_block (volume_root vol) p opts None) @ t) @ [(CleanupMountWithForce p 10, e)])"
    by (metis append_Nil2 traced_snoc)
  then show ?thesis using made(3) by simp
qed simp

lemma createSubDir_status: "createSubDir os d vol mp sub opts h = (Some e, h') \<Longrightarrow> is_status e"
  by (cases rule: createSubDir_cases) (auto dest: getInternalMountPath_status)

subsection \<open>Publishing\<close>

definition target_blocks :: "string \<Rightarrow> string \<Rightarrow> string list \<Rightarrow> node_history set" where
  "target_blocks source target opts =
     point_blocks target \<union> failed_mount_blocks source target opts \<union> {mount_block source target opts None}"

lemma publish_target_cases:
  assumes "publish_target os d source target opts h = ((r, ok), h')"
  obtains (mounted) h1 where "\<not> enableAzureLustreMockMount d" "r = Inr ()" "ok" "traced (point_blocks target) h h1"
      "ensureMountPoint os target h = (Inr False, h1)" "h' = h1 @ mount_block source target opts None"
  | (already) "r = Inr ()" "\<not> ok" "ensureMountPoint os target h = (Inr True, h')"
  | (mock) "enableAzureLustreMockMount d" "\<not> ok" "traced (point_blocks target) h h'"
  | (failed) e where "r = Inl (internal_error e)" "\<not> ok" "traced (point_blocks target \<union> failed_mount_blocks source target opts) h h'"
proof -
  obtain m h1 where m: "ensureMountPoint os target h = (m, h1)" by fastforce
  note h1 = ensureMountPoint_trace [OF m]
  consider (err) e where "m = Inl e" | (yes) "m = Inr True" | (mocked) "m = Inr False" "enableAzureLustreMockMount d"
    | (no) "m = Inr False" "\<not> enableAzureLustreMockMount d" by (cases m) auto
  then show thesis
  proof cases
    case err
    then show thesis using assms m traced_mono [OF h1] by (auto simp: publish_target_def intro: failed)
  next
    case yes
    then show thesis using assms m by (auto simp: publish_target_def intro: already)
  next
    case mocked
    obtain x h2 where x: "make_dir os target h1 = (x, h2)" by fastforce
    obtain y where "h2 = h1 @ [(MkdirAll target, y)]" using make_dir_trace [OF x] by blast
    then have "traced (point_blocks target) h h2" using h1 by (auto simp only: block_defs intro!: traced_snoc)
    then show thesis using assms m x mocked by (intro mock) (auto simp: publish_target_def split: option.splits)
  next
    case no
    obtain x h2 where x: "mount_or_remove os source target opts h1 = (x, h2)" by fastforce
    then show thesis
    proof (cases rule: mount_or_remove_cases)
      case mounted
      then show thesis using assms m x no h1 by (intro that(1) [of h1]) (auto simp: publish_target_def)
    next
      case (refused e)
      have "traced (point_blocks target \<union> failed_mount_blocks source target opts) h h2"
        using h1 refused(2) by (rule traced_then) auto
      then show thesis using assms m x no refused by (intro failed [of e]) (auto simp: publish_target_def)
    qed
  qed
qed

lemma publish_target_trace:
  assumes "publish_target os d source target opts h = ((r, ok), h')"
  shows "traced (target_blocks source target opts) h h'"
  using assms
proof (cases rule: publish_target_cases)
  case (mounted h1)
  have "traced (target_blocks source target opts) h h1"
    using mounted(4) by (rule traced_mono) (auto simp: target_blocks_def)
  then show ?thesis using mounted(6) by (auto simp: target_blocks_def intro: traced_snoc)
next
  case already
  from ensureMountPoint_trace [OF already(3)] show ?thesis by (rule traced_mono) (auto simp: target_blocks_def)
next
  case mock
  from mock(3) show ?thesis by (rule traced_mono) (auto simp: target_blocks_def)
next
  case (failed e)
  from failed(3) show ?thesis by (rule traced_mono) (auto simp: target_blocks_def)
qed


definition full_source :: "range_order \<Rightarrow> Driver \<Rightarrow> gomap \<Rightarrow> lustreVolume \<Rightarrow> string" where
  "full_source ord d context vol =
     (if subDir vol \<noteq> '''' \<and> \<not> enableAzureLustreMockMount d
      then path_join [volume_root vol, interpolateSubDirVariables ord context vol] else volume_root vol)"

text \<open>Whether a publish creates a sub-directory, and all blocks of a publish.\<close>

definition makes_sub_dir :: "Driver \<Rightarrow> lustreVolume \<Rightarrow> bool \<Rightarrow> bool" where
  "makes_sub_dir d vol readOnly \<longleftrightarrow> subDir vol \<noteq> '''' \<and> \<not> enableAzureLustreMockMount d \<and> \<not> readOnly"

definition publish_blocks ::
    "range_order \<Rightarrow> Driver \<Rightarrow> NodePublishVolumeRequest \<Rightarrow> gomap \<Rightarrow> lustreVolume \<Rightarrow> string list \<Rightarrow> bool \<Rightarrow> node_history set" where
  "publish_blocks ord d req context vol opts readOnly =
     target_blocks (full_source ord d context vol) (pub_TargetPath req) opts
     \<union> (if makes_sub_dir d vol readOnly
        then internal_blocks d vol (pub_TargetPath req) (interpolateSubDirVariables ord context vol) opts else {})"

lemma publish_source_cases:
  assumes "publish_source ord os d req context vol opts readOnly h = (r, h')"
  obtains (same) "h' = h" "r = Inr (full_source ord d context vol)" "\<not> makes_sub_dir d vol readOnly"
  | (refused) e where "h' = h" "r = Inl e" "is_status e"
  | (failed) e where "makes_sub_dir d vol readOnly" "r = Inl e" "is_status e"
      "createSubDir os d vol (pub_TargetPath req) (interpolateSubDirVariables ord context vol) opts h = (Some e, h')"
  | (sub) "makes_sub_dir d vol readOnly" "r = Inr (full_source ord d context vol)"
      "ensureStrictSubpath (interpolateSubDirVariables ord context vol)"
      "createSubDir os d vol (pub_TargetPath req) (interpolateSubDirVariables ord context vol) opts h = (None, h')"
proof -
  let ?sub = "interpolateSubDirVariables ord context vol"
  note defs = publish_source_def full_source_def makes_sub_dir_def volume_root_def Let_def
  consider (plain) "subDir vol = '''' \<or> enableAzureLustreMockMount d"
    | (bad) "subDir vol \<noteq> ''''" "\<not> enableAzureLustreMockMount d" "\<not> ensureStrictSubpath ?sub"
    | (ro) "subDir vol \<noteq> ''''" "\<not> enableAzureLustreMockMount d" "ensureStrictSubpath ?sub" readOnly
    | (rw) "subDir vol \<noteq> ''''" "\<not> enableAzureLustreMockMount d" "ensureStrictSubpath ?sub" "\<not> readOnly" by blast
  then show thesis
  proof cases
    case plain
    then show thesis using assms by (intro same) (auto simp: defs)
  next
    case bad
    then show thesis using assms by (auto simp: defs intro: refused)
  next
    case ro
    then show thesis using assms by (intro same) (auto simp: defs)
  next
    case rw
    obtain x h1 where x: "createSubDir os d vol (pub_TargetPath req) ?sub opts h = (x, h1)" by fastforce
    show thesis
    proof (cases x)
      case None
      then show thesis using assms rw x by (intro sub) (auto simp: defs)
    next
      case (Some e)
      then show thesis using assms rw x createSubDir_status [of os d vol "pub_TargetPath req" ?sub opts h e h1]
        by (intro failed [of e]) (auto simp: defs)
    qed
  qed
qed

lemma publish_source_trace:
  assumes "publish_source ord os d req context vol opts readOnly h = (r, h')"
  shows "traced (publish_blocks ord d req context vol opts readOnly) h h'"
  using assms
proof (cases rule: publish_source_cases)
  case (failed e)
  from createSubDir_trace [OF failed(4)] show ?thesis
    by (rule traced_mono) (simp add: publish_blocks_def failed(1))
next
  case sub
  from createSubDir_trace [OF sub(4)] show ?thesis
    by (rule traced_mono) (simp add: publish_blocks_def sub(1))
qed simp_all

lemma publish_body_cases:
  assumes "NodePublishVolume_body ord os d req flags context vol h = ((r, ok), h')"
    and "getMountOptions req flags = (opts, readOnly)"
  obtains (stopped) e where "publish_source ord os d req context vol opts readOnly h = (Inl e, h')" "r = Inl e" "\<not> ok" "is_status e"
  | (went_on) h1 where "publish_source ord os d req context vol opts readOnly h = (Inr (full_source ord d context vol), h1)"
      "publish_target os d (full_source ord d context vol) (pub_TargetPath req) opts h1 = ((r, ok), h')"
proof -
  obtain s h1 where s: "publish_source ord os d req context vol opts readOnly h = (s, h1)" by fastforce
  show thesis
  proof (cases s)
    case (Inl e)
    moreover from s have "is_status e" by (cases rule: publish_source_cases) (use Inl in auto)
    ultimately show thesis using assms s by (intro stopped [of e]) (auto simp: NodePublishVolume_body_def)
  next
    case (Inr src)
    moreover from s have "src = full_source ord d context vol" by (cases rule: publish_source_cases) (use Inr in auto)
    ultimately show thesis using assms s by (intro went_on [of h1]) (auto simp: NodePublishVolume_body_def)
  qed
qed

lemma publish_body_trace:
  assumes "NodePublishVolume_body ord os d req flags context vol h = ((r, ok), h')"
    and "getMountOptions req flags = (opts, readOnly)"
  shows "traced (publish_blocks ord d req context vol opts readOnly) h h'"
  using assms
proof (cases rule: publish_body_cases)
  case (stopped e)
  from stopped(1) show ?thesis by (rule publish_source_trace)
next
  case (went_on h1)
  from publish_source_trace [OF went_on(1)] publish_target_trace [OF went_on(2)] show ?thesis
    by (rule traced_then) (auto simp: publish_blocks_def)
qed

subsection \<open>Unpublishing\<close>

definition unmount_block ::
    "string \<Rightarrow> go_error option \<Rightarrow> go_error option list \<Rightarrow> go_error option list \<Rightarrow> go_error option \<Rightarrow> node_history" where
  "unmount_block p d infos force r =
     [(KernelLock, None), (ReadDir (path_dir p), d)] @ map (\<lambda>x. (EntryInfo (path_dir p) (path_base p), x)) infos
     @ map (\<lambda>x. (UnmountWithForce p 30, x)) force @ [(CleanupMountWithForce p 10, r), (KernelUnlock, None)]"

lemma bad_entry_trace:
  "bad_entry os parent name es bad h = (b, h') \<Longrightarrow>
     \<exists>infos. h' = h @ map (\<lambda>x. (EntryInfo parent name, x)) infos \<and> (b \<longleftrightarrow> bad \<or> (\<exists>x\<in>set infos. x \<noteq> None))
       \<and> (name \<in> set es \<longleftrightarrow> infos \<noteq> [])"
proof (induction es arbitrary: bad h)
  case (Cons e es)
  show ?case
  proof (cases "e = name")
    case True
    let ?x = "os_Err os h (EntryInfo parent name)"
    have "bad_entry os parent name es (bad \<or> ?x \<noteq> None) (h @ [(EntryInfo parent name, ?x)]) = (b, h')"
      using Cons.prems True by (simp add: node_do_def)
    then obtain infos where "h' = (h @ [(EntryInfo parent name, ?x)]) @ map (\<lambda>x. (EntryInfo parent name, x)) infos"
        "b \<longleftrightarrow> (bad \<or> ?x \<noteq> None) \<or> (\<exists>x\<in>set infos. x \<noteq> None)"
      using Cons.IH by blast
    then show ?thesis using True by (intro exI [of _ "?x # infos"]) auto
  next
    case False
    then have "bad_entry os parent name es bad h = (b, h')" using Cons.prems by simp
    then show ?thesis using Cons.IH False by auto
  qed
qed simp

text \<open>The forced unmount happens exactly when the parent or the entry cannot be read.\<close>

lemma unmountVolumeAtPath_trace:
  assumes "unmountVolumeAtPath os p h = (r, h')"
  obtains d infos force where "h' = h @ unmount_block p d infos force r"
    "length force = (if d \<noteq> None \<or> (\<exists>x\<in>set infos. x \<noteq> None) then 1 else 0)"
proof -
  obtain es d where rd: "os_ReadDir os (h @ [(KernelLock, None)]) (path_dir p) = (es, d)" by fastforce
  let ?h1 = "h @ [(KernelLock, None), (ReadDir (path_dir p), d)]"
  obtain b h2 where b: "bad_entry os (path_dir p) (path_base p) es (d \<noteq> None) ?h1 = (b, h2)" by fastforce
  obtain infos where infos: "h2 = ?h1 @ map (\<lambda>x. (EntryInfo (path_dir p) (path_base p), x)) infos"
      "b \<longleftrightarrow> d \<noteq> None \<or> (\<exists>x\<in>set infos. x \<noteq> None)"
    using bad_entry_trace [OF b] by blast
  define force where "force = (if b then [os_Err os h2 (UnmountWithForce p 30)] else [])"
  have "h' = h2 @ map (\<lambda>x. (UnmountWithForce p 30, x)) force @ [(CleanupMountWithForce p 10, r), (KernelUnlock, None)]"
    using assms rd b by (auto simp: unmountVolumeAtPath_def node_do_def force_def Let_def)
  then show thesis using infos by (intro that [of d infos force]) (auto simp: unmount_block_def force_def)
qed

end
