(* ===== verification/Node_Theorems.thy ===== *)
theory Node_Theorems
  imports Node_Traces
begin

text \<open>
  The properties of the node service: where its paths lie, what a publish may touch, its locks, its
  errors, its mount options and the statistics of a volume.
\<close>

subsection \<open>Handlers\<close>

lemma node_fields_locks:
  "workingMountDir (d\<lparr>volLocks := vl\<rparr>) = workingMountDir d"
  "enableAzureLustreMockMount (d\<lparr>volLocks := vl\<rparr>) = enableAzureLustreMockMount d"
  by simp_all

lemma node_ops_locks:
  "internalUnmount os (d\<lparr>volLocks := vl\<rparr>) mp h = internalUnmount os d mp h"
  "make_sub_dir os (d\<lparr>volLocks := vl\<rparr>) mp sub h = make_sub_dir os d mp sub h"
  "publish_target os (d\<lparr>volLocks := vl\<rparr>) src p opts h = publish_target os d src p opts h"
  unfolding internalUnmount_def make_sub_dir_def publish_target_def node_fields_locks by (rule refl)+

lemma createSubDir_locks:
  "createSubDir os (d\<lparr>volLocks := vl\<rparr>) vol mp sub opts h = createSubDir os d vol mp sub opts h"
  unfolding createSubDir_def internalMount_def node_fields_locks node_ops_locks by (rule refl)

lemma publish_body_locks [simp]:
  "NodePublishVolume_body ord os (d\<lparr>volLocks := vl\<rparr>) req flags m vol h = NodePublishVolume_body ord os d req flags m vol h"
  unfolding NodePublishVolume_body_def publish_source_def node_fields_locks node_ops_locks createSubDir_locks
  by (rule refl)

definition node_key :: "string \<Rightarrow> string \<Rightarrow> string" where
  "node_key volumeID target = volumeID @ ''-'' @ target"

lemma node_locked_driver: "snd (node_locked v p body d h) = d"
  using with_lock_restores [of "\<lambda>vl. (case body (d\<lparr>volLocks := vl\<rparr>) h of ((r, ok), h') \<Rightarrow> (((r, Some ok), h'), vl))"
      "v @ ''-'' @ p" _ "volLocks d"]
  by (simp add: node_locked_def split_beta)

lemma node_locked_busy:
  "node_key v p \<in> locks (volLocks d) \<Longrightarrow> node_locked v p body d h = (((Inl (busy_error v), None), h), d)"
  by (simp add: node_locked_def node_key_def with_lock_busy)

lemma node_locked_free:
  assumes "node_key v p \<notin> locks (volLocks d)" and "\<And>vl. body (d\<lparr>volLocks := vl\<rparr>) h = ((r, ok), h')"
  shows "node_locked v p body d h = (((r, Some ok), h'), d)"
  using assms node_locked_driver [of v p body d h]
    with_lock_free [of "v @ ''-'' @ p" "volLocks d" "\<lambda>vl. (case body (d\<lparr>volLocks := vl\<rparr>) h of ((r, ok), h') \<Rightarrow> (((r, Some ok), h'), vl))"]
  by (simp add: node_locked_def node_key_def split_beta prod_eq_iff)

text \<open>A publish request that passes the checks before the lock.\<close>

definition publish_request_ok ::
    "range_order \<Rightarrow> NodePublishVolumeRequest \<Rightarrow> VolumeCapability \<Rightarrow> gomap \<Rightarrow> lustreVolume \<Rightarrow> bool" where
  "publish_request_ok ord req volCap ctx vol \<longleftrightarrow>
     pub_VolumeCapability req = Some volCap \<and> pub_VolumeId req \<noteq> '''' \<and> pub_TargetPath req \<noteq> '''' \<and>
     pub_VolumeContext req = Some ctx \<and> getVolume (pub_VolumeId req) (ord 0 ctx) = Inr vol"

lemma newLustreVolume_case_status: "newLustreVolume_case kv st = Inl e \<Longrightarrow> is_status e"
  by (cases kv) (auto simp: newLustreVolume_case_def Let_def split: if_splits)

lemma getVolume_status: "getVolume v m = Inl e \<Longrightarrow> is_status e"
  by (auto simp: getVolume_def newLustreVolume_def Let_def split: sum.splits if_splits
      dest!: range_loop_error newLustreVolume_case_status)

lemma publish_refused:
  assumes "\<nexists>volCap ctx vol. publish_request_ok ord req volCap ctx vol"
  shows "\<exists>e. NodePublishVolume ord os d req h = (((Inl e, None), h), d) \<and> is_status e"
proof (cases "pub_VolumeCapability req = None \<or> pub_VolumeContext req = None")
  case True
  then show ?thesis by (cases "pub_VolumeCapability req") (auto simp: NodePublishVolume_def)
next
  case False
  then obtain volCap ctx where cap: "pub_VolumeCapability req = Some volCap" "pub_VolumeContext req = Some ctx" by auto
  show ?thesis
  proof (cases "getVolume (pub_VolumeId req) (ord 0 ctx)")
    case (Inl e)
    then show ?thesis using cap getVolume_status [OF Inl] by (simp add: NodePublishVolume_def)
  next
    case (Inr vol)
    then show ?thesis using cap assms by (auto simp: NodePublishVolume_def publish_request_ok_def)
  qed
qed

lemma NodePublishVolume_cases:
  obtains (refused) e where "NodePublishVolume ord os d req h = (((Inl e, None), h), d)" "is_status e"
  | (run) volCap ctx vol r ok h' opts readOnly where "publish_request_ok ord req volCap ctx vol"
      "node_key (pub_VolumeId req) (pub_TargetPath req) \<notin> locks (volLocks d)"
      "getMountOptions req (GetMountFlags volCap) = (opts, readOnly)"
      "NodePublishVolume_body ord os d req (GetMountFlags volCap) ctx vol h = ((r, ok), h')"
      "NodePublishVolume ord os d req h = (((r, Some ok), h'), d)"
proof (cases "\<exists>volCap ctx vol. publish_request_ok ord req volCap ctx vol")
  case False
  then show thesis using refused publish_refused by blast
next
  case True
  then obtain volCap ctx vol where ok: "publish_request_ok ord req volCap ctx vol" by blast
  let ?body = "\<lambda>d. NodePublishVolume_body ord os d req (GetMountFlags volCap) ctx vol"
  have eq: "NodePublishVolume ord os d req h = node_locked (pub_VolumeId req) (pub_TargetPath req) ?body d h"
    using ok by (simp add: NodePublishVolume_def publish_request_ok_def)
  show thesis
  proof (cases "node_key (pub_VolumeId req) (pub_TargetPath req) \<in> locks (volLocks d)")
    case busy: True
    then show thesis using refused eq node_locked_busy [OF busy, of ?body] by (auto simp: busy_error_def)
  next
    case free: False
    obtain r s h' where body: "?body d h = ((r, s), h')" by (metis surj_pair)
    obtain opts readOnly where opts: "getMountOptions req (GetMountFlags volCap) = (opts, readOnly)" by fastforce
    show thesis using run [OF ok free opts body] eq node_locked_free [OF free, of ?body] body by simp
  qed
qed

lemma NodeUnpublishVolume_cases:
  obtains (refused) e where "NodeUnpublishVolume os d req h = (((Inl e, None), h), d)" "is_status e"
  | (run) r ok h' where "unp_VolumeId req \<noteq> ''''" "unp_TargetPath req \<noteq> ''''"
      "node_key (unp_VolumeId req) (unp_TargetPath req) \<notin> locks (volLocks d)"
      "NodeUnpublishVolume_body os (unp_TargetPath req) h = ((r, ok), h')"
      "NodeUnpublishVolume os d req h = (((r, Some ok), h'), d)"
proof (cases "unp_VolumeId req = '''' \<or> unp_TargetPath req = ''''")
  case True
  then have "\<exists>e. NodeUnpublishVolume os d req h = (((Inl e, None), h), d) \<and> is_status e"
    by (auto simp: NodeUnpublishVolume_def)
  then show thesis using refused by blast
next
  case False
  let ?body = "\<lambda>_::Driver. NodeUnpublishVolume_body os (unp_TargetPath req)"
  show thesis
  proof (cases "node_key (unp_VolumeId req) (unp_TargetPath req) \<in> locks (volLocks d)")
    case busy: True
    then show thesis using refused False node_locked_busy [OF busy, of ?body]
      by (auto simp: busy_error_def NodeUnpublishVolume_def)
  next
    case free: False
    obtain r s h' where body: "NodeUnpublishVolume_body os (unp_TargetPath req) h = ((r, s), h')" by (metis surj_pair)
    show thesis using run [OF _ _ free body] False node_locked_free [OF free, of ?body] body
      by (simp add: NodeUnpublishVolume_def)
  qed
qed


subsection \<open>Paths\<close>

text \<open>A path strictly below another one: it has more components after the same ones, none of which climbs.\<close>

definition strictly_below :: "string \<Rightarrow> string \<Rightarrow> bool" where
  "strictly_below base p \<longleftrightarrow>
     (\<exists>cs. cs \<noteq> [] \<and> ''..'' \<notin> set cs \<and> clean_comps p = clean_comps base @ cs) \<and> is_abs p = is_abs base"

lemma strictly_below_trans: "strictly_below a b \<Longrightarrow> strictly_below b c \<Longrightarrow> strictly_below a c"
  by (fastforce simp: strictly_below_def)

lemma strict_subpath_below: "ensureStrictSubpath sub \<Longrightarrow> strictly_below base (path_join [base, sub])"
  using path_join_comps [of sub base] local_no_climb [of sub] clean_dot_iff [of sub]
  by (auto simp: ensureStrictSubpath_def strictly_below_def)

lemma climb_pops:
  assumes "''..'' \<notin> set s" "''..'' \<in> set (clean_stack False s cs)" "n \<noteq> ''..''" "n \<notin> set s" "n \<notin> set cs"
  shows "n \<notin> set (clean_stack True (s @ [n]) cs)"
  using assms
proof (induction cs arbitrary: s)
  case (Cons c cs)
  show ?case
  proof (cases "''..'' \<in> set (clean_step False s c)")
    case True
    then have "c = ''..''" "s = []"
      using Cons.prems(1) by (cases s; auto simp: clean_step_def split: if_splits)+
    then have "clean_stack True (s @ [n]) (c # cs) = clean_stack True [] cs"
      using Cons.prems(3) by (simp add: clean_step_def)
    then show ?thesis using clean_stack_subset [of True "[]" cs] Cons.prems(5) by auto
  next
    case False
    have "clean_step True (s @ [n]) c = clean_step False s c @ [n]" "n \<notin> set (clean_step False s c)"
      using False Cons.prems(1,4,5) by (cases s; auto simp: clean_step_def split: if_splits)+
    then show ?thesis using Cons.IH [of "clean_step False s c"] False Cons.prems by simp
  qed
qed simp

text \<open>
  A relative path that climbs leaves some base: its first component is a double dot, and a base whose
  last name does not come back shows it.
\<close>

lemma climbing_leaves:
  assumes "\<not> is_abs sub" "sub \<noteq> []" "''..'' \<in> set (clean_comps sub)"
  shows "\<exists>base. is_abs base \<and> \<not> strictly_below base (path_join [base, sub])"
proof -
  let ?cs = "split slash sub"
  define name where "name = replicate (Suc (\<Sum>c\<leftarrow>?cs. length c)) (CHR ''x'')"
  let ?base = "slash # name"
  have ok: "comp_ok name" "name \<noteq> ''..''" and fresh: "name \<notin> set ?cs"
  proof -
    show "comp_ok name" by (auto simp: comp_ok_def name_def)
    show "name \<noteq> ''..''" by (auto simp: name_def)
    have "length c \<le> (\<Sum>c\<leftarrow>?cs. length c)" if "c \<in> set ?cs" for c
      using that by (simp add: member_le_sum_list)
    from this [of name] show "name \<notin> set ?cs" by (auto simp: name_def)
  qed
  have base: "is_abs ?base" "clean_comps ?base = [name]"
    using ok by (auto simp: clean_comps_def is_abs_def has_prefix_def clean_step_def comp_ok_def split_plain)
  have join: "path_join [?base, sub] = clean (?base @ slash # sub)" and abs: "is_abs (?base @ slash # sub)"
    by (simp_all add: path_join_def is_abs_def has_prefix_def)
  have "slash \<notin> set name" using ok by (simp add: comp_ok_def)
  then have cut: "split slash (?base @ slash # sub) = [] # name # ?cs"
    by (simp add: split_append_sep)
  have "clean_comps (path_join [?base, sub]) = rev (clean_stack True [name] ?cs)"
    unfolding join clean_comps_clean clean_comps_def [of "?base @ slash # sub"] cut
    using abs ok by (simp add: clean_step_def comp_ok_def)
  moreover have "name \<notin> set (clean_stack True ([] @ [name]) ?cs)"
    using assms(1,3) ok(2) fresh by (intro climb_pops) (auto simp: clean_comps_def)
  ultimately show ?thesis using base by (intro exI [of _ ?base]) (auto simp: strictly_below_def)
qed


lemma not_local_climbs:
  assumes "\<not> is_abs sub" "sub \<noteq> []" "\<not> is_local sub"
  shows "''..'' \<in> set (clean_comps sub)"
proof -
  let ?cs = "split slash sub"
  have *: "q = ''..'' \<or> has_prefix q ''../''" if "q = (if list_ex (\<lambda>c. c = ''.'' \<or> c = ''..'') ?cs then clean sub else sub)" for q
    using assms that by (auto simp: is_local_def Let_def)
  have "split slash q = ''..'' # tl (split slash q)" if "q = ''..'' \<or> has_prefix q ''../''" for q
    using that by (auto simp: has_prefix_iff)
  then have dots: "''..'' \<in> set (split slash q)" if "q = ''..'' \<or> has_prefix q ''../''" for q
    using that by (metis list.set_intros(1))
  have "list_ex (\<lambda>c. c = ''.'' \<or> c = ''..'') ?cs"
  proof (rule ccontr)
    assume none: "\<not> list_ex (\<lambda>c. c = ''.'' \<or> c = ''..'') ?cs"
    then have "''..'' \<in> set ?cs" using * [of sub] by (intro dots) simp
    then show False using none by (auto simp: list_ex_iff)
  qed
  then have "''..'' \<in> set (split slash (clean sub))" using dots [OF *] by simp
  moreover have "set (split slash (clean sub)) \<subseteq> set (clean_comps sub) \<union> {''.''}"
  proof (cases "clean_comps sub = []")
    case True
    then show ?thesis using assms(1) by (simp add: clean_def)
  next
    case False
    then have "split slash (join ''/'' (clean_comps sub)) = clean_comps sub"
      using clean_comps_ok by (intro split_join) (auto simp: comp_ok_def)
    then show ?thesis using assms(1) False by (auto simp: clean_def Let_def)
  qed
  ultimately show ?thesis by auto
qed

text \<open>
  C15. The contract of \<open>ensureStrictSubpath\<close>. A path that it accepts, joined to any base, gives a path
  below that base and different from it. It refuses no relative path for less: for a relative path
  that it refuses there is a base which the joined path leaves or reaches.
\<close>

theorem strict_subpath_contract:
  "(ensureStrictSubpath sub \<longrightarrow> (\<forall>base. strictly_below base (path_join [base, sub])))
   \<and> (\<not> ensureStrictSubpath sub \<and> \<not> is_abs sub \<longrightarrow> (\<exists>base. \<not> strictly_below base (path_join [base, sub])))"
proof (intro conjI impI)
  assume "ensureStrictSubpath sub"
  then show "\<forall>base. strictly_below base (path_join [base, sub])" using strict_subpath_below by blast
next
  assume a: "\<not> ensureStrictSubpath sub \<and> \<not> is_abs sub"
  consider "sub = []" | "sub \<noteq> []" "is_local sub" "clean sub = ''.''" | "sub \<noteq> []" "\<not> is_local sub"
    using a by (auto simp: ensureStrictSubpath_def)
  then show "\<exists>base. \<not> strictly_below base (path_join [base, sub])"
  proof cases
    case 1
    then have "path_join [''/'', sub] = ''/''" by (simp add: path_join_def clean_def clean_comps_def is_abs_def
          has_prefix_def clean_step_def)
    then show ?thesis by (intro exI [of _ "''/''"]) (simp add: strictly_below_def)
  next
    case 2
    then have "clean_comps sub = []" using a clean_dot_iff by blast
    then show ?thesis using path_join_comps [OF 2(2)] by (auto simp: strictly_below_def)
  next
    case 3
    then show ?thesis using climbing_leaves not_local_climbs a by blast
  qed
qed


theorem strict_subpath_contract_witness:
  "strictly_below ''/tmp/x'' (path_join [''/tmp/x'', ''a/../b''])
   \<and> (\<exists>base. \<not> strictly_below base (path_join [base, ''a/../..'']))"
proof -
  have "ensureStrictSubpath ''a/../b''" "\<not> ensureStrictSubpath ''a/../..''" "\<not> is_abs ''a/../..''"
    by code_simp+
  then show ?thesis using strict_subpath_contract [of "''a/../b''"] strict_subpath_contract [of "''a/../..''"] by blast
qed

lemma internal_mount_below: "getInternalMountPath wd mp = Inr p \<Longrightarrow> strictly_below wd p"
  by (auto simp: getInternalMountPath_def Let_def strict_subpath_below split: if_splits)

lemma internal_volume_below:
  assumes "getInternalVolumePath wd mp sub = Inr q"
  shows "strictly_below wd q"
proof -
  from assms obtain p where p: "getInternalMountPath wd mp = Inr p" "ensureStrictSubpath sub" "q = path_join [p, sub]"
    by (auto simp: getInternalVolumePath_def split: sum.splits if_splits)
  show ?thesis unfolding p(3) by (rule strictly_below_trans [OF internal_mount_below [OF p(1)] strict_subpath_below [OF p(2)]])
qed

lemmas internal_paths_below = internal_mount_below internal_volume_below

subsection \<open>Mount options\<close>

lemma mount_flag_fold:
  "fold (mount_flag_step ro) flags (opts, b) =
     (opts @ (if ro then filter (\<lambda>f. f \<noteq> ''ro'') flags else flags), b \<or> ''ro'' \<in> set flags)"
  by (induction flags arbitrary: opts b) (auto simp: mount_flag_step_def)

text \<open>
  The mount options. They are the user's flags in their order; a read-only request adds \<open>ro\<close> in
  front and drops the user's own, so that it occurs once. The publish counts as read-only exactly when
  \<open>ro\<close> is among the options that are passed to the mount.
\<close>

theorem mount_options_correct:
  "getMountOptions req flags =
     (let opts = (if pub_Readonly req then ''ro'' # filter (\<lambda>f. f \<noteq> ''ro'') flags else flags)
      in (opts, ''ro'' \<in> set opts))"
  by (auto simp: getMountOptions_def mount_flag_fold)

lemma getMountOptions_eq:
  "getMountOptions req flags = (opts, readOnly) \<Longrightarrow>
     opts = (if pub_Readonly req then ''ro'' # filter (\<lambda>f. f \<noteq> ''ro'') flags else flags)
     \<and> (readOnly \<longleftrightarrow> ''ro'' \<in> set opts) \<and> (readOnly \<longleftrightarrow> pub_Readonly req \<or> ''ro'' \<in> set flags)"
  by (auto simp: getMountOptions_def mount_flag_fold)

subsection \<open>What a publish touches\<close>

fun changed_path :: "node_call \<Rightarrow> string option" where
  "changed_path (MkdirAll p) = Some p"
| "changed_path (RemoveFile p) = Some p"
| "changed_path (MountLustre s p f opts flags) = Some p"
| "changed_path (Unmount p) = Some p"
| "changed_path (UnmountWithForce p n) = Some p"
| "changed_path (CleanupMountWithForce p n) = Some p"
| "changed_path _ = None"

definition read_only_publish :: "NodePublishVolumeRequest \<Rightarrow> bool" where
  "read_only_publish req \<longleftrightarrow> pub_Readonly req \<or>
     (case pub_VolumeCapability req of None \<Rightarrow> False | Some c \<Rightarrow> ''ro'' \<in> set (GetMountFlags c))"

text \<open>A call of a publish: on the target, or below the working directory when the volume is writable.\<close>

definition publish_call_ok :: "Driver \<Rightarrow> NodePublishVolumeRequest \<Rightarrow> node_call \<Rightarrow> bool" where
  "publish_call_ok d req c \<longleftrightarrow>
     (\<forall>p. changed_path c = Some p \<longrightarrow> p = pub_TargetPath req
        \<or> strictly_below (workingMountDir d) p \<and> \<not> read_only_publish req \<and> \<not> enableAzureLustreMockMount d)
     \<and> (\<forall>s p f opts flags. c = MountLustre s p f opts flags \<longrightarrow>
          f = ''lustre'' \<and> flags = [''--no-mtab''] \<and> \<not> enableAzureLustreMockMount d
          \<and> (read_only_publish req \<longleftrightarrow> ''ro'' \<in> set opts))"

lemma read_only_opts:
  assumes "publish_request_ok ord req volCap m vol" "getMountOptions req (GetMountFlags volCap) = (opts, readOnly)"
  shows "readOnly \<longleftrightarrow> read_only_publish req" "''ro'' \<in> set opts \<longleftrightarrow> read_only_publish req"
  using assms(1) getMountOptions_eq [OF assms(2)] by (auto simp: publish_request_ok_def read_only_publish_def)

lemma all_traced:
  assumes "traced B h h'" and "\<And>b e. b \<in> B \<Longrightarrow> e \<in> set b \<Longrightarrow> P e"
  shows "\<exists>t. h' = h @ t \<and> (\<forall>e\<in>set t. P e)"
  using traced_property [OF assms(1), of "\<lambda>t. \<forall>e\<in>set t. P e"] assms(2) by auto

lemma publish_target_mock:
  assumes "publish_target os d source target opts h = ((r, ok), h')" "enableAzureLustreMockMount d"
  shows "traced (point_blocks target) h h'"
proof -
  obtain m h1 where m: "ensureMountPoint os target h = (m, h1)" by fastforce
  note h1 = ensureMountPoint_trace [OF m]
  obtain x h2 where x: "make_dir os target h1 = (x, h2)" by fastforce
  obtain y where "h2 = h1 @ [(MkdirAll target, y)]" using make_dir_trace [OF x] by blast
  then have "traced (point_blocks target) h h2" using h1 by (auto simp only: block_defs intro!: traced_snoc)
  then show ?thesis using assms m x h1
    by (auto simp: publish_target_def split: sum.splits bool.splits option.splits)
qed

lemma publish_calls_ok:
  assumes "publish_request_ok ord req volCap m vol" "getMountOptions req (GetMountFlags volCap) = (opts, readOnly)"
    and "NodePublishVolume_body ord os d req (GetMountFlags volCap) m vol h = ((r, ok), h')"
  shows "\<exists>t. h' = h @ t \<and> (\<forall>e\<in>set t. publish_call_ok d req (fst e))"
proof (cases "enableAzureLustreMockMount d")
  case True
  have "publish_source ord os d req m vol opts readOnly h = (Inr (full_source ord d m vol), h)"
    using True by (simp add: publish_source_def full_source_def volume_root_def Let_def)
  then have "publish_target os d (full_source ord d m vol) (pub_TargetPath req) opts h = ((r, ok), h')"
    using assms(2,3) by (simp add: NodePublishVolume_body_def)
  from publish_target_mock [OF this True] show ?thesis
    by (rule all_traced) (auto simp: point_blocks_def publish_call_ok_def)
next
  case False
  note ro = read_only_opts [OF assms(1,2)]
  from publish_body_trace [OF assms(3,2)] show ?thesis
  proof (rule all_traced)
    fix b e assume b: "b \<in> publish_blocks ord d req m vol opts readOnly" "e \<in> set b"
    from b(1) consider "b \<in> target_blocks (full_source ord d m vol) (pub_TargetPath req) opts"
      | "makes_sub_dir d vol readOnly" "b \<in> internal_blocks d vol (pub_TargetPath req) (interpolateSubDirVariables ord m vol) opts"
      by (auto simp: publish_blocks_def split: if_splits)
    then show "publish_call_ok d req (fst e)"
    proof cases
      case 1
      then show ?thesis using b(2) False ro
        by (auto simp: target_blocks_def block_defs mount_block_def publish_call_ok_def)
    next
      case 2
      then have "\<not> read_only_publish req" using ro by (simp add: makes_sub_dir_def)
      then show ?thesis using 2(2) b(2) False ro
        by (auto simp: internal_blocks_def prepare_blocks_def block_defs mount_block_def publish_call_ok_def
            internal_paths_below)
    qed
  qed
qed

text \<open>
  C3. What \<open>NodePublishVolume\<close> may touch, whatever the mounter and the file system answer. It creates,
  removes, mounts and unmounts only the target path and, for a volume that is published writable,
  paths strictly below the working directory, never with a path that climbs out of it. Only Lustre is
  mounted, without writing the mount table file, read-only exactly when the request or a mount flag
  says so, and nothing is mounted in mock mode.
\<close>

theorem node_publish_paths:
  assumes "NodePublishVolume ord os d req h = (((r, obs), h'), d')"
  shows "\<exists>t. h' = h @ t \<and> (\<forall>e\<in>set t. publish_call_ok d req (fst e))"
  using assms by (cases rule: NodePublishVolume_cases [of ord os d req h]) (auto dest: publish_calls_ok)


subsection \<open>The kernel module lock\<close>

text \<open>
  One handler's run over the lock of the kernel modules: from the state at the start, the state at the
  end, or nothing when the run takes the lock twice, gives back a lock it has not, or mounts or
  unmounts by force without it. A Go mutex is not reentrant: taking it twice blocks for ever.
\<close>

fun kernel_step :: "node_call \<Rightarrow> bool \<Rightarrow> bool option" where
  "kernel_step KernelLock held = (if held then None else Some True)"
| "kernel_step KernelUnlock held = (if held then Some False else None)"
| "kernel_step (MountLustre s p f opts flags) held = (if held then Some True else None)"
| "kernel_step (UnmountWithForce p n) held = (if held then Some True else None)"
| "kernel_step _ held = Some held"

fun kernel_run :: "bool \<Rightarrow> node_history \<Rightarrow> bool option" where
  "kernel_run held [] = Some held"
| "kernel_run held (e # t) = (case kernel_step (fst e) held of None \<Rightarrow> None | Some b \<Rightarrow> kernel_run b t)"

definition kernel_ok :: "node_history \<Rightarrow> bool" where
  "kernel_ok t \<longleftrightarrow> kernel_run False t = Some False"

lemma kernel_run_append:
  "kernel_run b (s @ t) = (case kernel_run b s of None \<Rightarrow> None | Some b' \<Rightarrow> kernel_run b' t)"
  by (induction s arbitrary: b) (auto split: option.splits)

lemma kernel_ok_Nil: "kernel_ok []" and kernel_ok_append: "kernel_ok s \<Longrightarrow> kernel_ok t \<Longrightarrow> kernel_ok (s @ t)"
  by (simp_all add: kernel_ok_def kernel_run_append)

lemma kernel_ok_blocks:
  "b \<in> point_blocks p \<Longrightarrow> kernel_ok b" "b \<in> cleanup_blocks p \<Longrightarrow> kernel_ok b"
  "b \<in> failed_mount_blocks s p opts \<Longrightarrow> kernel_ok b" "kernel_ok (mount_block s p opts e)"
  by (auto simp: block_defs mount_block_def kernel_ok_def)

lemma kernel_ok_publish: "b \<in> publish_blocks ord d req m vol opts readOnly \<Longrightarrow> kernel_ok b"
  by (auto simp: publish_blocks_def target_blocks_def internal_blocks_def prepare_blocks_def
      intro: kernel_ok_blocks split: if_splits) (simp add: kernel_ok_def)

lemma kernel_run_infos: "kernel_run True (map (\<lambda>x. (EntryInfo a b, x)) infos) = Some True"
  by (induction infos) auto

lemma kernel_run_force: "kernel_run True (map (\<lambda>x. (UnmountWithForce p n, x)) force) = Some True"
  by (induction force) auto

lemma kernel_ok_unmount: "kernel_ok (unmount_block p d infos force r)"
  by (simp add: unmount_block_def kernel_ok_def kernel_run_append kernel_run_infos kernel_run_force)

lemma unpublish_trace:
  assumes "NodeUnpublishVolume_body os p h = ((r, ok), h')"
  obtains d infos force x where "h' = h @ unmount_block p d infos force x" "ok \<longleftrightarrow> x = None"
    "r = Inr () \<longleftrightarrow> x = None" "status_result r"
    "length force = (if d \<noteq> None \<or> (\<exists>x\<in>set infos. x \<noteq> None) then 1 else 0)"
proof -
  obtain x h1 where x: "unmountVolumeAtPath os p h = (x, h1)" by fastforce
  from x obtain d infos force where "h1 = h @ unmount_block p d infos force x"
    "length force = (if d \<noteq> None \<or> (\<exists>x\<in>set infos. x \<noteq> None) then 1 else 0)"
    by (rule unmountVolumeAtPath_trace)
  then show thesis using assms x
    by (intro that [of d infos force x]) (auto simp: NodeUnpublishVolume_body_def split: option.splits)
qed

text \<open>
  Every run of \<open>NodePublishVolume\<close> and \<open>NodeUnpublishVolume\<close> keeps to the lock on all paths. (The clean-up of
  an internal mount point and the unmount of a broken one are made without it.)
\<close>

lemma publish_kernel_ok:
  assumes "fst (NodePublishVolume ord os d req h) = (result, h1)"
  shows "\<exists>t. h1 = h @ t \<and> kernel_ok t"
proof (cases rule: NodePublishVolume_cases [of ord os d req h])
  case (refused e)
  then show ?thesis using assms kernel_ok_Nil by auto
next
  case (run volCap m vol r ok h' opts readOnly)
  have "\<exists>t. h' = h @ t \<and> kernel_ok t"
    using publish_body_trace [OF run(4,3)] kernel_ok_publish kernel_ok_Nil kernel_ok_append by (rule traced_property)
  then show ?thesis using assms run(5) by simp
qed

lemma unpublish_kernel_ok:
  assumes "fst (NodeUnpublishVolume os d req h) = (result, h1)"
  shows "\<exists>t. h1 = h @ t \<and> kernel_ok t"
proof (cases rule: NodeUnpublishVolume_cases [of os d req h])
  case (refused e)
  then show ?thesis using assms kernel_ok_Nil by auto
next
  case (run r ok h')
  from run(4) obtain d infos force x where "h' = h @ unmount_block (unp_TargetPath req) d infos force x"
    by (rule unpublish_trace)
  then show ?thesis using assms run(5) kernel_ok_unmount by auto
qed

subsection \<open>Locks, errors and statistics\<close>

text \<open>The node handlers keep the contract of the handlers with a volume lock.\<close>

definition publish_key :: "range_order \<Rightarrow> NodePublishVolumeRequest \<Rightarrow> string option" where
  "publish_key ord req =
     (case (pub_VolumeCapability req, pub_VolumeContext req) of
        (Some _, Some ctx) \<Rightarrow>
          if pub_VolumeId req = '''' \<or> pub_TargetPath req = '''' then None
          else (case getVolume (pub_VolumeId req) (ord 0 ctx) of
                  Inl _ \<Rightarrow> None | Inr _ \<Rightarrow> Some (node_key (pub_VolumeId req) (pub_TargetPath req)))
      | _ \<Rightarrow> None)"

definition unpublish_key :: "NodeUnpublishVolumeRequest \<Rightarrow> string option" where
  "unpublish_key req =
     (if unp_VolumeId req = '''' \<or> unp_TargetPath req = '''' then None else Some (node_key (unp_VolumeId req) (unp_TargetPath req)))"

lemma publish_key_Some:
  "publish_key ord req = Some k \<longleftrightarrow>
     k = node_key (pub_VolumeId req) (pub_TargetPath req) \<and> (\<exists>volCap ctx vol. publish_request_ok ord req volCap ctx vol)"
  by (auto simp: publish_key_def publish_request_ok_def split: option.splits sum.splits)

interpretation np: csi_handler "\<lambda>d h. NodePublishVolume ord os d req h" "publish_key ord req" "busy_error (pub_VolumeId req)" for ord os req
proof unfold_locales
  fix d h
  show "\<exists>e. NodePublishVolume ord os d req h = (((Inl e, None), h), d) \<and> is_status e" if "publish_key ord req = None"
    using that publish_key_Some [of ord req]
    by (cases rule: NodePublishVolume_cases [of ord os d req h]) auto
  show "NodePublishVolume ord os d req h = (((Inl (busy_error (pub_VolumeId req)), None), h), d)"
    if "publish_key ord req = Some k" "k \<in> locks (volLocks d)" for k
    using that by (auto simp: publish_key_Some NodePublishVolume_def publish_request_ok_def node_locked_busy)
  show "\<exists>r ok h'. NodePublishVolume ord os d req h = (((r, Some ok), h'), d)"
    if key: "publish_key ord req = Some k" "k \<notin> locks (volLocks d)" for k
  proof -
    obtain volCap ctx vol where ok: "publish_request_ok ord req volCap ctx vol" using key by (auto simp: publish_key_Some)
    obtain r b h' where "NodePublishVolume_body ord os d req (GetMountFlags volCap) ctx vol h = ((r, b), h')" by (metis prod.collapse)
    then show ?thesis using ok key
      node_locked_free [of "pub_VolumeId req" "pub_TargetPath req" d "\<lambda>d. NodePublishVolume_body ord os d req (GetMountFlags volCap) ctx vol" h r b h']
      by (auto simp: publish_key_Some NodePublishVolume_def publish_request_ok_def publish_body_locks)
  qed
qed (simp add: busy_error_def)

interpretation nu: csi_handler "\<lambda>d h. NodeUnpublishVolume os d req h" "unpublish_key req" "busy_error (unp_VolumeId req)" for os req
proof unfold_locales
  fix d h
  show "\<exists>e. NodeUnpublishVolume os d req h = (((Inl e, None), h), d) \<and> is_status e" if "unpublish_key req = None"
    using that by (cases rule: NodeUnpublishVolume_cases [of os d req h]) (auto simp: unpublish_key_def split: if_splits)
  show "NodeUnpublishVolume os d req h = (((Inl (busy_error (unp_VolumeId req)), None), h), d)"
    if "unpublish_key req = Some k" "k \<in> locks (volLocks d)" for k
    using that by (auto simp: unpublish_key_def NodeUnpublishVolume_def node_locked_busy split: if_splits)
  show "\<exists>r ok h'. NodeUnpublishVolume os d req h = (((r, Some ok), h'), d)"
    if key: "unpublish_key req = Some k" "k \<notin> locks (volLocks d)" for k
  proof -
    obtain r b h' where "NodeUnpublishVolume_body os (unp_TargetPath req) h = ((r, b), h')" by (metis prod.collapse)
    then show ?thesis using key
      node_locked_free [of "unp_VolumeId req" "unp_TargetPath req" d "\<lambda>_. NodeUnpublishVolume_body os (unp_TargetPath req)" h r b h']
      by (auto simp: unpublish_key_def NodeUnpublishVolume_def split: if_splits)
  qed
qed (simp add: busy_error_def)

lemma publish_body_result:
  assumes "NodePublishVolume_body ord os d req flags m vol h = ((r, ok), h')"
  shows "enableAzureLustreMockMount d \<or> status_result r" and "ok \<longrightarrow> r = Inr ()"
proof -
  obtain opts readOnly where opts: "getMountOptions req flags = (opts, readOnly)" by fastforce
  from assms opts have "(enableAzureLustreMockMount d \<or> status_result r) \<and> (ok \<longrightarrow> r = Inr ())"
  proof (cases rule: publish_body_cases)
    case (went_on h1)
    from went_on(2) show ?thesis by (cases rule: publish_target_cases) auto
  qed auto
  then show "enableAzureLustreMockMount d \<or> status_result r" and "ok \<longrightarrow> r = Inr ()" by auto
qed

text \<open>
  C23. Errors of the node service. Outside of mock mode every error is a gRPC status, for all answers
  of the system; the metrics count a success only when the call succeeded, and they observe nothing
  only when the handler stopped before the lock, with an error and without a call.
\<close>

theorem node_errors:
  assumes "NodePublishVolume ord os d preq h = (((r, obs), h1), d1)"
    and "NodeUnpublishVolume os d ureq h = (((r', obs'), h2), d2)"
  shows "(enableAzureLustreMockMount d \<or> status_result r) \<and> (obs = Some True \<longrightarrow> r = Inr ())
    \<and> (obs = None \<longrightarrow> h1 = h \<and> (\<exists>e. r = Inl e))
    \<and> status_result r' \<and> (obs' = Some True \<longleftrightarrow> r' = Inr ()) \<and> (obs' = None \<longrightarrow> h2 = h)"
proof -
  have pub: "(enableAzureLustreMockMount d \<or> status_result r) \<and> (obs = Some True \<longrightarrow> r = Inr ())
      \<and> (obs = None \<longrightarrow> h1 = h \<and> (\<exists>e. r = Inl e))"
    by (cases rule: NodePublishVolume_cases [of ord os d preq h])
      (use assms(1) in \<open>auto dest: publish_body_result\<close>)
  have unp: "status_result r' \<and> (obs' = Some True \<longleftrightarrow> r' = Inr ()) \<and> (obs' = None \<longrightarrow> h2 = h)"
  proof (cases rule: NodeUnpublishVolume_cases [of os d ureq h])
    case (refused e)
    then show ?thesis using assms(2) by auto
  next
    case (run x ok h')
    from run(4) show ?thesis by (rule unpublish_trace) (use run(5) assms(2) in auto)
  qed
  show ?thesis using pub unp by blast
qed

text \<open>The usage that the six quantities describe.\<close>

definition usage_matches :: "volume_metrics \<Rightarrow> VolumeUsage list \<Rightarrow> bool" where
  "usage_matches m us \<longleftrightarrow> map us_Unit us = [BYTES, INODES]
     \<and> map (Some \<circ> us_Available) us = [AsInt64 (m_Available m), AsInt64 (m_InodesFree m)]
     \<and> map (Some \<circ> us_Total) us = [AsInt64 (m_Capacity m), AsInt64 (m_Inodes m)]
     \<and> map (Some \<circ> us_Used) us = [AsInt64 (m_Used m), AsInt64 (m_InodesUsed m)]"

lemma volume_usage_ok:
  "case volume_usage m of Inl e \<Rightarrow> is_status e \<and> status_code e = Internal | Inr us \<Rightarrow> usage_matches m us"
  by (auto simp: volume_usage_def as_int64_def usage_matches_def split: sum.splits option.splits)

text \<open>
  The statistics of a volume. An answer holds, in their places, the bytes and the inodes that the
  file system reports for the path, all of which fit into 64 bits; every error is a status; and
  \<open>NotFound\<close> is returned exactly when a complete request names a path that does not exist.
\<close>

theorem volume_stats_correct:
  assumes "NodeGetVolumeStats os req h = (r, h')"
  shows "status_result r
    \<and> (\<forall>us. r = Inr us \<longrightarrow> (\<exists>m. os_GetMetrics os (h @ [(Lstat (st_VolumePath req), None)]) (st_VolumePath req) = Inr m
          \<and> usage_matches m us))
    \<and> ((\<exists>e. r = Inl e \<and> status_code e = NotFound) \<longleftrightarrow> st_VolumeId req \<noteq> '''' \<and> st_VolumePath req \<noteq> ''''
          \<and> (\<exists>e. os_Err os h (Lstat (st_VolumePath req)) = Some e \<and> is_not_exist e))"
proof -
  let ?m = "os_GetMetrics os (h @ [(Lstat (st_VolumePath req), None)]) (st_VolumePath req)"
  consider (empty) "st_VolumeId req = '''' \<or> st_VolumePath req = ''''"
    | (stat) e where "st_VolumeId req \<noteq> ''''" "st_VolumePath req \<noteq> ''''" "os_Err os h (Lstat (st_VolumePath req)) = Some e"
    | (metrics) "st_VolumeId req \<noteq> ''''" "st_VolumePath req \<noteq> ''''" "os_Err os h (Lstat (st_VolumePath req)) = None"
    by blast
  then show ?thesis
  proof cases
    case metrics
    show ?thesis
    proof (cases ?m)
      case (Inr m)
      have "r = volume_usage m" using assms metrics Inr by (simp add: NodeGetVolumeStats_def node_do_def)
      then show ?thesis using volume_usage_ok [of m] metrics Inr by (cases "volume_usage m") auto
    qed (use assms metrics in \<open>auto simp: NodeGetVolumeStats_def node_do_def\<close>)
  qed (use assms in \<open>auto simp: NodeGetVolumeStats_def node_do_def split: if_splits\<close>)
qed

end
