(* ===== verification/Node_Mounts.thy ===== *)
theory Node_Mounts
  imports Node_Theorems
begin

text \<open>
  The node service against a mount table. A history determines the table: a successful mount enters its
  source and options under the target, a successful unmount or clean-up takes the entry away, and a call
  that returned an error changes nothing. The handlers refine two operations on the part of the table
  outside the working directory, for a system that answers according to its own table. The theory ends
  with a small file system as such a system and the witnesses that run on it.
\<close>

type_synonym mounts = "string \<rightharpoonup> string \<times> string list"

fun mount_effect :: "node_call \<times> go_error option \<Rightarrow> mounts \<Rightarrow> mounts" where
  "mount_effect (MountLustre s p f opts flags, None) M = M(p \<mapsto> (s, opts))"
| "mount_effect (Unmount p, None) M = M(p := None)"
| "mount_effect (UnmountWithForce p n, None) M = M(p := None)"
| "mount_effect (CleanupMountWithForce p n, None) M = M(p := None)"
| "mount_effect _ M = M"

definition mount_table :: "node_history \<Rightarrow> mounts" where
  "mount_table h = fold mount_effect h Map.empty"

lemma mount_table_append: "mount_table (h @ t) = fold mount_effect t (mount_table h)"
  by (simp add: mount_table_def)

text \<open>A call leaves the entries of other paths alone.\<close>

lemma mount_effect_other: "changed_path (fst e) \<noteq> Some p \<Longrightarrow> mount_effect e M p = M p"
  by (cases "(e, M)" rule: mount_effect.cases) auto

lemma fold_effect_other:
  "(\<And>e. e \<in> set t \<Longrightarrow> changed_path (fst e) \<noteq> Some p) \<Longrightarrow> fold mount_effect t M p = M p"
  by (induction t arbitrary: M) (auto simp: mount_effect_other)

text \<open>The part of the table outside a directory.\<close>

definition outside_dir :: "string \<Rightarrow> mounts \<Rightarrow> mounts" where
  "outside_dir wd M = M |` {p. \<not> strictly_below wd p}"

lemma outside_dir_apply: "outside_dir wd M p = (if strictly_below wd p then None else M p)"
  by (simp add: outside_dir_def restrict_map_def)

lemma outside_dir_frame:
  assumes "\<And>e p. e \<in> set t \<Longrightarrow> changed_path (fst e) = Some p \<Longrightarrow> strictly_below wd p"
  shows "outside_dir wd (mount_table (h @ t)) = outside_dir wd (mount_table h)"
proof
  fix p
  show "outside_dir wd (mount_table (h @ t)) p = outside_dir wd (mount_table h) p"
  proof (cases "strictly_below wd p")
    case False
    then have "fold mount_effect t (mount_table h) p = mount_table h p"
      using assms by (intro fold_effect_other) blast
    then show ?thesis by (simp add: outside_dir_apply mount_table_append)
  qed (simp add: outside_dir_apply)
qed

subsection \<open>The abstract operations\<close>

definition abs_publish :: "string \<Rightarrow> string \<Rightarrow> string list \<Rightarrow> mounts \<Rightarrow> mounts" where
  "abs_publish target source opts M = (if M target = None then M(target \<mapsto> (source, opts)) else M)"

definition abs_unpublish :: "string \<Rightarrow> mounts \<Rightarrow> mounts" where
  "abs_unpublish target M = M(target := None)"

text \<open>
  A system that answers according to its table: a mounted path is reported as a mount point and can be
  read, any other path is reported as no mount point or as missing.
\<close>

definition faithful :: "node_os \<Rightarrow> bool" where
  "faithful os \<longleftrightarrow> (\<forall>h p.
     (mount_table h p \<noteq> None \<longrightarrow> os_IsLikelyNotMountPoint os h p = (False, None) \<and> snd (os_ReadDir os h p) = None)
     \<and> (mount_table h p = None \<longrightarrow> fst (os_IsLikelyNotMountPoint os h p)
          \<and> (\<forall>e. snd (os_IsLikelyNotMountPoint os h p) = Some e \<longrightarrow> is_not_exist e)))"

lemma ensure_mounted:
  assumes "faithful os" "mount_table h p \<noteq> None"
  shows "ensureMountPoint os p h = (Inr True, h @ [(IsLikelyNotMountPoint p, None), (ReadDir p, None)])"
proof -
  let ?h1 = "h @ [(IsLikelyNotMountPoint p, None)]"
  have "mount_table ?h1 p \<noteq> None" using assms(2) by (simp add: mount_table_append)
  then have "snd (os_ReadDir os ?h1 p) = None" "os_IsLikelyNotMountPoint os h p = (False, None)"
    using assms by (auto simp: faithful_def)
  then show ?thesis by (auto simp: ensureMountPoint_def ensure_rest_def valid_mount_def Let_def split: prod.splits)
qed

lemma ensure_not_mounted:
  assumes "faithful os" "mount_table h p = None" "ensureMountPoint os p h = (r, h')"
  shows "r \<noteq> Inr True \<and> (\<exists>e x. h' = h @ [(IsLikelyNotMountPoint p, e), (MkdirAll p, x)])"
proof -
  obtain n e where ans: "os_IsLikelyNotMountPoint os h p = (n, e)" by fastforce
  have "fst (os_IsLikelyNotMountPoint os h p)" "\<And>x. snd (os_IsLikelyNotMountPoint os h p) = Some x \<Longrightarrow> is_not_exist x"
    using assms(1,2) unfolding faithful_def by blast+
  then have n: "n" "\<And>x. e = Some x \<Longrightarrow> is_not_exist x" using ans by auto
  then have "ensure_rest os p True (h @ [(IsLikelyNotMountPoint p, e)]) = (r, h')"
    using assms(3) ans by (cases e) (auto simp: ensureMountPoint_def Let_def)
  then show ?thesis
    by (auto simp: ensure_rest_def make_dir_def node_do_def split: option.splits)
qed


subsection \<open>Refinement\<close>

lemma failed_mount_no_effect:
  assumes "traced (failed_mount_blocks source p opts) h h'"
  shows "mount_table h' = mount_table h"
proof -
  from assms have "\<exists>t. h' = h @ t \<and> (\<forall>e\<in>set t. \<forall>M. mount_effect e M = M)"
    by (rule all_traced) (auto simp: failed_mount_blocks_def mount_block_def)
  then obtain t where t: "h' = h @ t" "\<forall>e\<in>set t. \<forall>M. mount_effect e M = M" by blast
  from t(2) have "fold mount_effect t M = M" for M by (induction t arbitrary: M) auto
  then show ?thesis by (simp add: t(1) mount_table_append)
qed

lemma publish_target_refines:
  assumes "faithful os" "\<not> enableAzureLustreMockMount d" "publish_target os d source p opts h = ((r, ok), h')"
  shows "mount_table h' = (case r of Inr _ \<Rightarrow> abs_publish p source opts (mount_table h) | Inl _ \<Rightarrow> mount_table h)"
    and "ok \<longleftrightarrow> r = Inr () \<and> mount_table h p = None"
proof -
  have "mount_table h' = (case r of Inr _ \<Rightarrow> abs_publish p source opts (mount_table h) | Inl _ \<Rightarrow> mount_table h)
      \<and> (ok \<longleftrightarrow> r = Inr () \<and> mount_table h p = None)"
  proof (cases "mount_table h p = None")
    case False
    then show ?thesis using assms(3) ensure_mounted [OF assms(1) False]
      by (auto simp: publish_target_def abs_publish_def mount_table_append)
  next
    case True
    obtain m h1 where m: "ensureMountPoint os p h = (m, h1)" by fastforce
    have h1: "mount_table h1 = mount_table h" "m \<noteq> Inr True"
      using ensure_not_mounted [OF assms(1) True m] by (auto simp: mount_table_append)
    show ?thesis
    proof (cases m)
      case (Inl e)
      then show ?thesis using assms(3) m h1 by (auto simp: publish_target_def)
    next
      case (Inr b)
      then have b: "m = Inr False" using h1(2) by (cases b) auto
      obtain x h2 where x: "mount_or_remove os source p opts h1 = (x, h2)" by fastforce
      then show ?thesis
      proof (cases rule: mount_or_remove_cases)
        case mounted
        then show ?thesis using assms(2,3) m b x h1 True
          by (auto simp: publish_target_def mount_table_append mount_block_def abs_publish_def)
      next
        case (refused e)
        then show ?thesis using assms(2,3) m b x h1 failed_mount_no_effect [OF refused(2)]
          by (auto simp: publish_target_def)
      qed
    qed
  qed
  then show "mount_table h' = (case r of Inr _ \<Rightarrow> abs_publish p source opts (mount_table h) | Inl _ \<Rightarrow> mount_table h)"
    and "ok \<longleftrightarrow> r = Inr () \<and> mount_table h p = None" by auto
qed

lemma createSubDir_frame:
  assumes "createSubDir os d vol mp sub opts h = (r, h')"
  shows "outside_dir (workingMountDir d) (mount_table h') = outside_dir (workingMountDir d) (mount_table h)"
proof -
  from createSubDir_trace [OF assms]
  have "\<exists>t. h' = h @ t \<and> (\<forall>e\<in>set t. \<forall>p. changed_path (fst e) = Some p \<longrightarrow> strictly_below (workingMountDir d) p)"
    by (rule all_traced)
      (auto simp: internal_blocks_def prepare_blocks_def block_defs mount_block_def internal_paths_below)
  then obtain t where "h' = h @ t" "\<And>e p. e \<in> set t \<Longrightarrow> changed_path (fst e) = Some p \<Longrightarrow> strictly_below (workingMountDir d) p"
    by blast
  then show ?thesis using outside_dir_frame by simp
qed

lemma publish_source_frame:
  assumes "publish_source ord os d req m vol opts readOnly h = (r, h')"
  shows "outside_dir (workingMountDir d) (mount_table h') = outside_dir (workingMountDir d) (mount_table h)"
  using assms by (cases rule: publish_source_cases) (auto dest: createSubDir_frame)

lemma publish_body_refines:
  assumes "faithful os" "\<not> enableAzureLustreMockMount d" "\<not> strictly_below (workingMountDir d) (pub_TargetPath req)"
    and "NodePublishVolume_body ord os d req flags m vol h = ((r, ok), h')" "getMountOptions req flags = (opts, readOnly)"
  shows "outside_dir (workingMountDir d) (mount_table h') =
      (case r of Inr _ \<Rightarrow> abs_publish (pub_TargetPath req) (full_source ord d m vol) opts (outside_dir (workingMountDir d) (mount_table h))
       | Inl _ \<Rightarrow> outside_dir (workingMountDir d) (mount_table h))
    \<and> (ok \<longleftrightarrow> r = Inr () \<and> mount_table h (pub_TargetPath req) = None)"
  using assms(4,5)
proof (cases rule: publish_body_cases)
  case (stopped e)
  then show ?thesis using publish_source_frame [OF stopped(1)] by simp
next
  case (went_on h1)
  let ?out = "outside_dir (workingMountDir d)" and ?p = "pub_TargetPath req"
  have frame: "?out (mount_table h1) = ?out (mount_table h)" by (rule publish_source_frame [OF went_on(1)])
  have same: "mount_table h1 ?p = mount_table h ?p"
    using fun_cong [OF frame, of ?p] assms(3) by (simp add: outside_dir_apply)
  have pub: "?out (abs_publish ?p (full_source ord d m vol) opts M) = abs_publish ?p (full_source ord d m vol) opts (?out M)" for M
    using assms(3) by (auto simp: abs_publish_def outside_dir_apply fun_eq_iff)
  show ?thesis
    using publish_target_refines [OF assms(1,2) went_on(2)] frame same by (cases r) (simp_all add: pub)
qed

lemma unmount_block_effect:
  "mount_table (h @ unmount_block p d infos force r) q =
     (if q = p \<and> (r = None \<or> None \<in> set force) then None else mount_table h q)"
proof -
  have infos: "fold mount_effect (map (\<lambda>x. (EntryInfo a b, x)) infos) M = M" for a b M
    by (induction infos) auto
  have force: "fold mount_effect (map (\<lambda>x. (UnmountWithForce p n, x)) force) M =
      (if None \<in> set force then M(p := None) else M)" for n M
  proof (induction force arbitrary: M)
    case (Cons x xs)
    then show ?case by (cases x) auto
  qed simp
  show ?thesis by (cases r) (auto simp: unmount_block_def mount_table_append infos force)
qed

lemma publish_refines:
  assumes "faithful os" "\<not> enableAzureLustreMockMount d" "\<not> strictly_below (workingMountDir d) (pub_TargetPath req)"
    and "publish_request_ok ord req volCap m vol" "getMountOptions req (GetMountFlags volCap) = (opts, readOnly)"
    and "NodePublishVolume ord os d req h = (((r, obs), h'), d')"
  shows "outside_dir (workingMountDir d) (mount_table h') =
      (case r of Inr _ \<Rightarrow> abs_publish (pub_TargetPath req) (full_source ord d m vol) opts (outside_dir (workingMountDir d) (mount_table h))
       | Inl _ \<Rightarrow> outside_dir (workingMountDir d) (mount_table h))
    \<and> (obs = Some True \<longleftrightarrow> r = Inr () \<and> mount_table h (pub_TargetPath req) = None)"
proof (cases rule: NodePublishVolume_cases [of ord os d req h])
  case (run volCap' m' vol' x ok h1 opts' readOnly')
  then have "volCap' = volCap" "m' = m" "vol' = vol" using assms(4) by (auto simp: publish_request_ok_def)
  then show ?thesis using publish_body_refines [OF assms(1-3) run(4)] run(3,5) assms(5,6) by auto
qed (use assms(6) in auto)

lemma unpublish_effect:
  assumes "NodeUnpublishVolume os d req h = (((r, obs), h'), d')"
  shows "(r = Inr () \<longrightarrow> mount_table h' = abs_unpublish (unp_TargetPath req) (mount_table h))
    \<and> (\<forall>p. p \<noteq> unp_TargetPath req \<longrightarrow> mount_table h' p = mount_table h p)"
proof (cases rule: NodeUnpublishVolume_cases [of os d req h])
  case (run x ok h1)
  from run(4) show ?thesis
    by (rule unpublish_trace) (use run(5) assms in \<open>auto simp: unmount_block_effect abs_unpublish_def\<close>)
qed (use assms in auto)

text \<open>
  C4. Refinement of the mount table. On a system that answers according to its table, a publish outside
  of mock mode does to the mounts outside the working directory what the abstract publish does: it
  enters the target with the source of the volume and the mount options unless the target is mounted
  already, and a publish that fails leaves all of them as they were. The metrics count a success exactly
  for a new mount. An unpublish changes nothing but the target, which is not mounted when it succeeds.
\<close>

theorem node_refines_mount_table:
  assumes "faithful os" "\<not> enableAzureLustreMockMount d" "\<not> strictly_below (workingMountDir d) (pub_TargetPath req)"
    and "publish_request_ok ord req volCap m vol" "getMountOptions req (GetMountFlags volCap) = (opts, readOnly)"
    and "NodePublishVolume ord os d req h = (((r, obs), h'), d')"
    and "NodeUnpublishVolume os d ureq h = (((r', obs'), h''), d'')"
  shows "outside_dir (workingMountDir d) (mount_table h') =
      (case r of Inr _ \<Rightarrow> abs_publish (pub_TargetPath req) (full_source ord d m vol) opts (outside_dir (workingMountDir d) (mount_table h))
       | Inl _ \<Rightarrow> outside_dir (workingMountDir d) (mount_table h))
    \<and> (obs = Some True \<longleftrightarrow> r = Inr () \<and> mount_table h (pub_TargetPath req) = None)
    \<and> (r' = Inr () \<longrightarrow> mount_table h'' = abs_unpublish (unp_TargetPath ureq) (mount_table h))
    \<and> (\<forall>p. p \<noteq> unp_TargetPath ureq \<longrightarrow> mount_table h'' p = mount_table h p)"
  using publish_refines [OF assms(1-6)] unpublish_effect [OF assms(7)] by blast

text \<open>
  C22. The life of a mount. After a publish that succeeded, the same publish again, whether it succeeds or
  fails, leaves the mounts outside the working directory as they are and counts no new mount; and an
  unpublish of the target that succeeds gives the mounts from before the publish, without the target.
\<close>

theorem node_mount_life_cycle:
  assumes "faithful os" "\<not> enableAzureLustreMockMount d" "\<not> strictly_below (workingMountDir d) (pub_TargetPath req)"
    and "publish_request_ok ord req volCap m vol"
    and "NodePublishVolume ord os d req h = (((Inr (), obs), h1), d1)"
    and "NodePublishVolume ord os d1 req h1 = (((r2, obs2), h2), d2)"
    and "NodeUnpublishVolume os d1 ureq h1 = (((Inr (), obs3), h3), d3)" "unp_TargetPath ureq = pub_TargetPath req"
  shows "outside_dir (workingMountDir d) (mount_table h2) = outside_dir (workingMountDir d) (mount_table h1)
    \<and> obs2 \<noteq> Some True
    \<and> outside_dir (workingMountDir d) (mount_table h3) = abs_unpublish (pub_TargetPath req) (outside_dir (workingMountDir d) (mount_table h))"
proof -
  let ?out = "outside_dir (workingMountDir d)" and ?p = "pub_TargetPath req"
  obtain opts ro where opts: "getMountOptions req (GetMountFlags volCap) = (opts, ro)" by fastforce
  have d1: "d1 = d" using assms(5) by (cases rule: NodePublishVolume_cases [of ord os d req h]) auto
  note one = publish_refines [OF assms(1-4) opts assms(5)]
  note two = publish_refines [OF assms(1-4) opts assms(6) [unfolded d1]]
  have "?out (mount_table h1) ?p \<noteq> None" using one by (auto simp: abs_publish_def)
  then have mounted: "mount_table h1 ?p \<noteq> None" using assms(3) by (simp add: outside_dir_apply)
  have "?out (mount_table h3) = abs_unpublish ?p (?out (mount_table h1))"
    using unpublish_effect [OF assms(7)] assms(8) by (auto simp: abs_unpublish_def outside_dir_apply fun_eq_iff)
  also have "\<dots> = abs_unpublish ?p (?out (mount_table h))"
    using one by (auto simp: abs_unpublish_def abs_publish_def)
  finally show ?thesis using two mounted \<open>?out (mount_table h1) ?p \<noteq> None\<close>
    by (auto simp: abs_publish_def split: sum.splits)
qed

subsection \<open>Internal mounts are taken down\<close>

text \<open>After every successful mount of a path in a set, the path is cleaned up.\<close>

definition cleaned_up :: "(string \<Rightarrow> bool) \<Rightarrow> node_history \<Rightarrow> bool" where
  "cleaned_up P t \<longleftrightarrow> (\<forall>t1 t2 s p f opts flags. t = t1 @ (MountLustre s p f opts flags, None) # t2 \<longrightarrow> P p \<longrightarrow>
     (\<exists>e. (CleanupMountWithForce p 10, e) \<in> set t2))"

fun mount_done :: "(string \<Rightarrow> bool) \<Rightarrow> node_call \<times> go_error option \<Rightarrow> bool" where
  "mount_done P (MountLustre s p f opts flags, None) \<longleftrightarrow> P p"
| "mount_done P _ \<longleftrightarrow> False"

definition mounts_none :: "(string \<Rightarrow> bool) \<Rightarrow> node_history \<Rightarrow> bool" where
  "mounts_none P t \<longleftrightarrow> list_all (\<lambda>e. \<not> mount_done P e) t"

lemma mounts_none_append: "mounts_none P (a @ b) \<longleftrightarrow> mounts_none P a \<and> mounts_none P b"
  by (simp add: mounts_none_def)

lemma mounts_none_mem: "mounts_none P t \<Longrightarrow> (MountLustre s p f opts flags, None) \<in> set t \<Longrightarrow> \<not> P p"
  by (force simp: mounts_none_def list_all_iff)

lemma cleaned_up_none: "mounts_none P t \<Longrightarrow> cleaned_up P t"
  unfolding cleaned_up_def by (metis in_set_conv_decomp mounts_none_mem)

lemma cleaned_up_append:
  assumes "cleaned_up P a" "mounts_none P b"
  shows "cleaned_up P (a @ b)"
  unfolding cleaned_up_def
proof (intro allI impI)
  fix t1 t2 s p f opts flags
  let ?x = "(MountLustre s p f opts flags, None)"
  assume eq: "a @ b = t1 @ ?x # t2" and "P p"
  then have "?x \<notin> set b" using mounts_none_mem [OF assms(2)] by blast
  then obtain us where "a = t1 @ ?x # us" "t2 = us @ b"
    using eq by (auto simp: append_eq_append_conv2 append_eq_Cons_conv)
  then show "\<exists>e. (CleanupMountWithForce p 10, e) \<in> set t2"
    using assms(1) \<open>P p\<close> unfolding cleaned_up_def by (metis Un_iff set_append)
qed

lemma traced_mounts_none:
  assumes "traced B h h'" "\<And>b. b \<in> B \<Longrightarrow> mounts_none P b"
  shows "\<exists>t. h' = h @ t \<and> mounts_none P t"
  using assms by (rule traced_property) (simp_all add: mounts_none_append, simp add: mounts_none_def)

lemma mounts_none_blocks:
  "b \<in> prepare_blocks p \<Longrightarrow> mounts_none P b" "b \<in> point_blocks p \<Longrightarrow> mounts_none P b"
  "b \<in> failed_mount_blocks s p opts \<Longrightarrow> mounts_none P b"
  by (auto simp: prepare_blocks_def block_defs mount_block_def mounts_none_def)

lemma createSubDir_cleaned_up:
  assumes "createSubDir os d vol mp sub opts h = (r, h')"
  shows "\<exists>t. h' = h @ t \<and> cleaned_up P t"
  using assms
proof (cases rule: createSubDir_cases)
  case (no_path e)
  then show ?thesis by (auto simp: cleaned_up_def)
next
  case (no_mount p e)
  from no_mount(3) have "\<exists>t. h' = h @ t \<and> mounts_none P t"
    by (rule traced_mounts_none) (auto simp: mounts_none_blocks)
  then show ?thesis using cleaned_up_none by blast
next
  case (made p h1 t e)
  have "\<exists>t0. h1 = h @ t0 \<and> mounts_none P t0"
    using made(2) by (rule traced_mounts_none) (simp add: mounts_none_blocks)
  then obtain t0 where t0: "h1 = h @ t0" "mounts_none P t0" by blast
  let ?fin = "t @ [(CleanupMountWithForce p 10, e)]"
  let ?all = "t0 @ mount_block (volume_root vol) p opts None @ ?fin"
  have "cleaned_up P ?all" unfolding cleaned_up_def
  proof (intro allI impI)
    fix t1 t2 s q f o' flags
    let ?x = "(MountLustre s q f o' flags, None)"
    assume eq: "?all = t1 @ ?x # t2" and "P q"
    then have "?x \<in> set ?all" by (metis in_set_conv_decomp)
    then have "q = p" using mounts_none_mem [OF t0(2)] made(4) \<open>P q\<close> by (auto simp: mount_block_def)
    moreover have "last ?all = (CleanupMountWithForce p 10, e)" by simp
    then have "t2 \<noteq> [] \<and> last t2 = (CleanupMountWithForce p 10, e)" unfolding eq by (cases t2) auto
    ultimately show "\<exists>e. (CleanupMountWithForce q 10, e) \<in> set t2" by (metis last_in_set)
  qed
  then show ?thesis using made(3) t0(1) by auto
qed


end
