(* ===== verification/Node_File_System.thy ===== *)
theory Node_File_System
  imports Node_Mounts
begin

text \<open>
  A small file system with mounts as the system below the node service: a directory exists after it was
  made and until it is removed or cleaned up, a mount and a removal need the directory, and the answers
  about mount points follow the mount table. It shows that the hypotheses of the node theorems hold of a
  concrete system, and on it the recovery from a left-over internal mount fails.
\<close>

fun dir_effect :: "node_call \<times> go_error option \<Rightarrow> string list \<Rightarrow> string list" where
  "dir_effect (MkdirAll p, None) D = List.insert p D"
| "dir_effect (RemoveFile p, None) D = removeAll p D"
| "dir_effect (CleanupMountWithForce p n, None) D = removeAll p D"
| "dir_effect _ D = D"

definition dirs :: "node_history \<Rightarrow> string list" where
  "dirs h = fold dir_effect h []"

definition no_such_file :: go_error where
  "no_such_file = OsError ErrNotExist ''no such file or directory''"

fun needs_dir :: "node_call \<Rightarrow> string option" where
  "needs_dir (MountLustre s p f opts flags) = Some p"
| "needs_dir (RemoveFile p) = Some p"
| "needs_dir _ = None"

definition file_system :: node_os where
  "file_system = \<lparr>
     os_Err = (\<lambda>h c. case needs_dir c of None \<Rightarrow> None | Some p \<Rightarrow> if p \<in> set (dirs h) then None else Some no_such_file),
     os_IsLikelyNotMountPoint = (\<lambda>h p. if mount_table h p \<noteq> None then (False, None)
        else if p \<in> set (dirs h) then (True, None) else (True, Some no_such_file)),
     os_ReadDir = (\<lambda>h p. ([], None)),
     os_GetMetrics = (\<lambda>h p. Inl (PlainError ''statfs''))\<rparr>"

lemma file_system_faithful: "faithful file_system"
  by (auto simp: faithful_def file_system_def no_such_file_def is_not_exist_def)

definition node_driver :: Driver where
  "node_driver = sample_driver\<lparr>workingMountDir := ''/w'', enableAzureLustreMockMount := False\<rparr>"

definition publish_sample :: "bool \<Rightarrow> NodePublishVolumeRequest" where
  "publish_sample ro = \<lparr>
     pub_VolumeCapability = Some \<lparr>vc_AccessType = Some (AccessMount \<lparr>FsType = '''', MountFlags = [''noatime'']\<rparr>),
       vc_AccessMode = Some \<lparr>am_Mode = MULTI_NODE_MULTI_WRITER\<rparr>\<rparr>,
     pub_VolumeId = ''v'', pub_TargetPath = ''/t'',
     pub_VolumeContext = Some [(''mgs-ip-address'', ''10.0.0.9''), (''sub-dir'', ''a'')], pub_Readonly = ro\<rparr>"

lemma publish_read_only_run:
  "fst (NodePublishVolume list_order file_system node_driver (publish_sample True) []) = ((Inr (), Some True),
     [(IsLikelyNotMountPoint ''/t'', Some no_such_file), (MkdirAll ''/t'', None)]
     @ mount_block ''10.0.0.9@tcp:/lustrefs/a'' ''/t'' [''ro'', ''noatime''] None)"
  by code_simp

lemma publish_run:
  "fst (NodePublishVolume list_order file_system node_driver (publish_sample False) []) = ((Inr (), Some True),
     [(IsLikelyNotMountPoint ''/w/t'', Some no_such_file), (MkdirAll ''/w/t'', None)]
     @ mount_block ''10.0.0.9@tcp:/lustrefs'' ''/w/t'' [''noatime''] None
     @ [(MkdirAll ''/w/t/a'', None), (CleanupMountWithForce ''/w/t'' 10, None)]
     @ [(IsLikelyNotMountPoint ''/t'', Some no_such_file), (MkdirAll ''/t'', None)]
     @ mount_block ''10.0.0.9@tcp:/lustrefs/a'' ''/t'' [''noatime''] None)"
  by code_simp


lemma node_driver_free: "locks (volLocks node_driver) = {}"
  by (simp add: node_driver_def sample_driver_def baseDriver_def newVolumeLocks_def)

definition sample_volume :: lustreVolume where
  "sample_volume = \<lparr>vol_name = '''', vol_id = ''v'', mgsIPAddress = ''10.0.0.9'', azureLustreName = ''lustrefs'',
     subDir = ''a'', createdByDynamicProvisioning = False, resourceGroupName = ''''\<rparr>"

definition sample_context :: gomap where
  "sample_context = [(''mgs-ip-address'', ''10.0.0.9''), (''sub-dir'', ''a'')]"

definition sample_capability :: VolumeCapability where
  "sample_capability = \<lparr>vc_AccessType = Some (AccessMount \<lparr>FsType = '''', MountFlags = [''noatime'']\<rparr>),
     vc_AccessMode = Some \<lparr>am_Mode = MULTI_NODE_MULTI_WRITER\<rparr>\<rparr>"

lemma sample_request_ok: "publish_request_ok list_order (publish_sample ro) sample_capability sample_context sample_volume"
proof -
  have "getVolume ''v'' (list_order 0 sample_context) = Inr sample_volume" by code_simp
  then show ?thesis by (simp add: publish_request_ok_def publish_sample_def sample_capability_def sample_context_def)
qed

subsection \<open>A left-over internal mount\<close>

text \<open>
  What a clean-up, a mount and a removal do on Linux: a clean-up that succeeds has removed the directory,
  a mount needs its directory, and a missing path cannot be removed.
\<close>

definition directory_gone :: "node_os \<Rightarrow> bool" where
  "directory_gone os \<longleftrightarrow> (\<forall>h p s opts.
     os_Err os (h @ [(CleanupMountWithForce p 10, None), (KernelLock, None)]) (MountLustre s p ''lustre'' opts [''--no-mtab'']) \<noteq> None
     \<and> (\<forall>e. os_Err os (h @ (CleanupMountWithForce p 10, None) # mount_block s p opts (Some e)) (RemoveFile p) \<noteq> None))"

lemma file_system_directory_gone: "directory_gone file_system"
  by (auto simp: directory_gone_def file_system_def dirs_def mount_block_def)

lemma stale_mount_fails:
  assumes "faithful os" "directory_gone os" "getInternalMountPath (workingMountDir d) mp = Inr p" "mount_table h p \<noteq> None"
  shows "\<exists>e h'. internalMount os d vol mp opts h = (Some (internal_error e), h')"
proof -
  define h1 where "h1 = h @ [(IsLikelyNotMountPoint p, None), (ReadDir p, None)]"
  have ens: "ensureMountPoint os p h = (Inr True, h1)" using ensure_mounted [OF assms(1,4)] by (simp add: h1_def)
  let ?m = "MountLustre (volume_root vol) p ''lustre'' opts [''--no-mtab'']"
  let ?h2 = "h1 @ [(CleanupMountWithForce p 10, None)]"
  have gone: "os_Err os (h1 @ [(CleanupMountWithForce p 10, None), (KernelLock, None)]) ?m \<noteq> None"
    "\<And>e. os_Err os (h1 @ (CleanupMountWithForce p 10, None) # mount_block (volume_root vol) p opts (Some e)) (RemoveFile p) \<noteq> None"
    using assms(2) unfolding directory_gone_def by blast+
  show ?thesis
  proof (cases "os_Err os h1 (CleanupMountWithForce p 10)")
    case (Some e)
    then show ?thesis using assms(3) ens by (simp add: internalMount_def internalUnmount_def node_do_def)
  next
    case None
    obtain e where e: "os_Err os (h1 @ [(CleanupMountWithForce p 10, None), (KernelLock, None)]) ?m = Some e"
      using gone(1) by blast
    obtain x where x: "os_Err os (h1 @ (CleanupMountWithForce p 10, None) # mount_block (volume_root vol) p opts (Some e)) (RemoveFile p) = Some x"
      using gone(2) by blast
    have "mountVolumeAtPath os (volume_root vol) p opts ?h2 = (Some e, ?h2 @ mount_block (volume_root vol) p opts (Some e))"
      using e by (simp add: mountVolumeAtPath_def node_do_def mount_block_def)
    then have "\<exists>y h3. mount_or_remove os (volume_root vol) p opts ?h2 = (Some (internal_error y), h3)"
      using x by (simp add: mount_or_remove_def node_do_def)
    then show ?thesis using assms(3) ens None
      by (auto simp: internalMount_def internalUnmount_def node_do_def volume_root_def)
  qed
qed


definition stale_history :: node_history where
  "stale_history = (MkdirAll ''/w/t'', None) # mount_block ''10.0.0.9@tcp:/lustrefs'' ''/w/t'' [] None"



subsection \<open>Runs on the file system\<close>

text \<open>The histories of a read-only and of a writable publish.\<close>

definition read_only_trace :: node_history where
  "read_only_trace = [(IsLikelyNotMountPoint ''/t'', Some no_such_file), (MkdirAll ''/t'', None)]
     @ mount_block ''10.0.0.9@tcp:/lustrefs/a'' ''/t'' [''ro'', ''noatime''] None"

definition writable_trace :: node_history where
  "writable_trace = [(IsLikelyNotMountPoint ''/w/t'', Some no_such_file), (MkdirAll ''/w/t'', None)]
     @ mount_block ''10.0.0.9@tcp:/lustrefs'' ''/w/t'' [''noatime''] None
     @ [(MkdirAll ''/w/t/a'', None), (CleanupMountWithForce ''/w/t'' 10, None)]
     @ [(IsLikelyNotMountPoint ''/t'', Some no_such_file), (MkdirAll ''/t'', None)]
     @ mount_block ''10.0.0.9@tcp:/lustrefs/a'' ''/t'' [''noatime''] None"

lemma sample_publish_read_only:
  "NodePublishVolume list_order file_system node_driver (publish_sample True) [] = (((Inr (), Some True), read_only_trace), node_driver)"
  using publish_read_only_run np.keeps_driver [of list_order file_system node_driver "publish_sample True" "[]"]
  by (simp add: prod_eq_iff read_only_trace_def)

lemma sample_publish_writable:
  "NodePublishVolume list_order file_system node_driver (publish_sample False) [] = (((Inr (), Some True), writable_trace), node_driver)"
  using publish_run np.keeps_driver [of list_order file_system node_driver "publish_sample False" "[]"]
  by (simp add: prod_eq_iff writable_trace_def)

definition unpublish_sample :: NodeUnpublishVolumeRequest where
  "unpublish_sample = \<lparr>unp_VolumeId = ''v'', unp_TargetPath = ''/t''\<rparr>"

lemma sample_unpublish:
  "NodeUnpublishVolume file_system node_driver unpublish_sample h =
     (((Inr (), Some True), h @ unmount_block ''/t'' None [] [] None), node_driver)"
proof -
  have "NodeUnpublishVolume_body file_system ''/t'' h = ((Inr (), True), h @ unmount_block ''/t'' None [] [] None)"
    by (simp add: NodeUnpublishVolume_body_def unmountVolumeAtPath_def file_system_def node_do_def unmount_block_def Let_def)
  then show ?thesis using node_locked_free [of "''v''" "''/t''" node_driver "\<lambda>_. NodeUnpublishVolume_body file_system ''/t''" h]
    by (simp add: NodeUnpublishVolume_def unpublish_sample_def node_driver_free)
qed

theorem node_publish_paths_witness:
  "list_all (\<lambda>e. publish_call_ok node_driver (publish_sample False) (fst e)) writable_trace"
  using node_publish_paths [OF sample_publish_writable] by (simp add: list_all_iff)


theorem node_errors_witness:
  "status_result (fst (fst (fst (NodePublishVolume list_order file_system node_driver (publish_sample False) []))))"
  using node_errors [OF sample_publish_writable sample_unpublish] by (simp add: sample_publish_writable)

theorem volume_stats_correct_witness:
  "status_result (fst (NodeGetVolumeStats file_system \<lparr>st_VolumeId = ''v'', st_VolumePath = ''/t''\<rparr> []))"
  using volume_stats_correct [of file_system "\<lparr>st_VolumeId = ''v'', st_VolumePath = ''/t''\<rparr>" "[]"]
  by (metis prod.collapse)

lemma not_below_w: "\<not> strictly_below (workingMountDir node_driver) (pub_TargetPath (publish_sample ro))"
proof -
  have "clean_comps ''/w'' = [''w'']" "clean_comps ''/t'' = [''t'']" by code_simp+
  then show ?thesis by (simp add: strictly_below_def publish_sample_def node_driver_def)
qed

lemma sample_options_ok: "getMountOptions (publish_sample False) (GetMountFlags sample_capability) = ([''noatime''], False)"
  by code_simp

theorem node_refines_mount_table_witness:
  "outside_dir ''/w'' (mount_table writable_trace) =
     abs_publish ''/t'' (full_source list_order node_driver sample_context sample_volume) [''noatime''] Map.empty"
proof -
  have "outside_dir ''/w'' (mount_table []) = Map.empty" by (simp add: outside_dir_def mount_table_def)
  then show ?thesis
    using node_refines_mount_table [OF file_system_faithful _ not_below_w sample_request_ok sample_options_ok
        sample_publish_writable sample_unpublish]
    by (simp add: publish_sample_def node_driver_def)
qed

theorem node_mount_life_cycle_witness:
  "outside_dir ''/w'' (mount_table (writable_trace @ unmount_block ''/t'' None [] [] None)) = Map.empty"
proof -
  obtain r2 obs2 h2 d2 where "NodePublishVolume list_order file_system node_driver (publish_sample False) writable_trace = (((r2, obs2), h2), d2)"
    by (metis prod.collapse)
  moreover have "outside_dir ''/w'' (mount_table []) = Map.empty" by (simp add: outside_dir_def mount_table_def)
  ultimately show ?thesis
    using node_mount_life_cycle [OF file_system_faithful _ not_below_w sample_request_ok sample_publish_writable _ sample_unpublish]
    by (simp add: publish_sample_def unpublish_sample_def node_driver_def abs_unpublish_def)
qed


subsection \<open>A broken mount\<close>

text \<open>
  A broken mount is unmounted but not mounted again. The comment of \<open>ensureMountPoint\<close> promises
  \<open><false, nil>\<close> for every target that is not a valid mount point, so that the caller mounts it; but
  after a broken mount was unmounted successfully the function returns the error of reading the
  directory, and the publish ends with \<open>Internal\<close> although nothing is mounted any more.
\<close>

theorem broken_mount_not_remounted:
  assumes "os_IsLikelyNotMountPoint os h p = (False, None)"
    and "os_ReadDir os (h @ [(IsLikelyNotMountPoint p, None)]) p = (entries, Some e)"
    and "os_Err os (h @ [(IsLikelyNotMountPoint p, None), (ReadDir p, Some e)]) (Unmount p) = None"
  shows "\<exists>msg h'. h' = h @ [(IsLikelyNotMountPoint p, None), (ReadDir p, Some e), (Unmount p, None)]
    \<and> mount_table h' p = None
    \<and> ensureMountPoint os p h = (Inl e, h')
    \<and> publish_target os d source p opts h = ((Inl (internal_error msg), False), h')"
proof -
  let ?h' = "h @ [(IsLikelyNotMountPoint p, None), (ReadDir p, Some e), (Unmount p, None)]"
  have "ensureMountPoint os p h = (Inl e, ?h')"
    using assms by (simp add: ensureMountPoint_def ensure_rest_def valid_mount_def node_do_def Let_def)
  then show ?thesis by (simp add: publish_target_def mount_table_append)
qed

definition broken_system :: node_os where
  "broken_system = file_system\<lparr>os_IsLikelyNotMountPoint := \<lambda>h p. (False, None),
     os_ReadDir := \<lambda>h p. ([], Some (OsError ErrCorruptedMnt ''stale file handle''))\<rparr>"

theorem broken_mount_not_remounted_witness:
  "\<exists>msg h'. publish_target broken_system node_driver ''10.0.0.9@tcp:/lustrefs'' ''/t'' [] [] = ((Inl (internal_error msg), False), h')"
  using broken_mount_not_remounted [of broken_system "[]" "''/t''" "[]" "OsError ErrCorruptedMnt ''stale file handle''"
      node_driver "''10.0.0.9@tcp:/lustrefs''" "[]"]
  by (auto simp: broken_system_def file_system_def)

end
