(* ===== verification/Volume_Use.thy ===== *)
theory Volume_Use
  imports Volume_Life_Cycle Node_File_System
begin

text \<open>
  The controller and the node together: a volume that \<open>CreateVolume\<close> returned is published on a node with
  its identifier and its context, to which the kubelet has added what it knows of the pod. The contract of
  the volume context is stated once, as what the node reads from it; on a system whose calls do not fail the
  publish then succeeds and mounts the file system of the server that the controller chose.
\<close>

subsection \<open>The volume that the node reads\<close>

text \<open>The keys that the kubelet adds to a volume context.\<close>

definition pod_info :: "gomap \<Rightarrow> bool" where
  "pod_info pod \<longleftrightarrow> list_all (\<lambda>kv. to_lower (fst kv) \<in>
     {podNameKey, podNamespaceKey, podUIDKey, serviceAccountNameKey, ''csi.storage.k8s.io/ephemeral''}) pod"

lemma ci_last_append: "ci_last key (a @ b) = (case ci_last key b of Some v \<Rightarrow> Some v | None \<Rightarrow> ci_last key a)"
  by (induction key a rule: ci_last.induct) (auto split: option.splits)

lemma pod_info_keys:
  assumes "pod_info pod" "key \<in> {VolumeContextMGSIPAddress, VolumeContextSubDir, VolumeContextResourceGroupName,
      VolumeContextInternalDynamicallyCreated}"
  shows "ci_last key pod = None"
  using assms by (auto simp: pod_info_def list_all_iff ci_last_None)

lemma pod_info_value:
  assumes "pod_info pod" "key \<in> {VolumeContextMGSIPAddress, VolumeContextSubDir, VolumeContextResourceGroupName,
      VolumeContextInternalDynamicallyCreated}"
  shows "ci_value key (ctx @ pod) = ci_value key ctx"
  using pod_info_keys [OF assms] by (simp add: ci_value_def ci_last_append)

lemma pod_info_subDir: "pod_info pod \<Longrightarrow> bad_subDir (ctx @ pod) = bad_subDir ctx"
  by (auto simp: bad_subDir_def pod_info_def list_all_iff list_ex_iff)

text \<open>What is left of a successful creation: the context is in order and the identifier was made from it.\<close>

lemma created_context:
  assumes "CreateVolume ord d req h = (((Inr resp, obs), h'), d')"
    and "req_Parameters req = Some m" "good_params m" "valid_order ord"
  shows "good_params (resp_VolumeContext resp)" "\<not> bad_subDir (resp_VolumeContext resp)"
    "GetValueInMap (Some (resp_VolumeContext resp)) VolumeContextSubDir = GetValueInMap (Some m) VolumeContextSubDir"
    "GetValueInMap (Some m) VolumeContextMGSIPAddress \<noteq> '''' \<Longrightarrow>
       GetValueInMap (Some (resp_VolumeContext resp)) VolumeContextMGSIPAddress = GetValueInMap (Some m) VolumeContextMGSIPAddress"
    "GetValueInMap (Some m) VolumeContextMGSIPAddress = '''' \<Longrightarrow> \<exists>p h1. AmlFilesystemName p = req_Name req
       \<and> if_CreateAmlFilesystem (dynamicProvisioner d) p h1 =
           (Inr (GetValueInMap (Some (resp_VolumeContext resp)) VolumeContextMGSIPAddress), h')"
proof -
  let ?c = "resp_VolumeContext resp" and ?sc = "GetValueInMap (Some (ord 0 m)) VolumeContextMGSIPAddress = ''''"
  have sc: "?sc \<longleftrightarrow> GetValueInMap (Some m) VolumeContextMGSIPAddress = ''''"
    using order_value(1) [OF assms(4,3), of VolumeContextMGSIPAddress 0] context_keys by simp
  obtain p0 sizes h1 where
    fin: "CreateVolume_finish ord d req m ?sc (if ?sc then fill_defaults d p0 else p0) sizes h1 = (Inr resp, h')"
    using assms(1,2) by (elim CreateVolume_Inr) auto
  define p where "p = (if ?sc then fill_defaults d p0 else p0)"
  obtain mgs where mgs: "?sc \<Longrightarrow> create_cluster d (req_Name req) p (snd (snd sizes)) (resp_CapacityBytes resp) h1 = (Inr mgs, h')"
    and c: "?c = create_context ord (if ?sc then Some (ResourceGroupName p, mgs) else None) m"
    and vid: "createVolumeIDFromParams (req_Name req) (ord 6 ?c) = Inr (resp_VolumeId resp)"
    using fin unfolding p_def [symmetric] by (elim CreateVolume_finish_Inr) blast
  obtain cl where ctx: "?c = create_context ord cl m" "\<not> ?sc \<Longrightarrow> cl = None" "?sc \<Longrightarrow> cl = Some (ResourceGroupName p, mgs)"
    using c by auto
  note val = create_context_value [OF assms(4,3), of cl, folded ctx(1)]
  show "good_params ?c" by (rule val(1))
  show "GetValueInMap (Some ?c) VolumeContextSubDir = GetValueInMap (Some m) VolumeContextSubDir" by (rule val(5))
  have "\<not> bad_subDir (ord 6 ?c)" using vid by (simp add: createVolumeIDFromParams_eq split: if_splits)
  then show "\<not> bad_subDir ?c" using assms(4) bad_subDir_same_map unfolding valid_order_def by metis
  show "GetValueInMap (Some m) VolumeContextMGSIPAddress \<noteq> '''' \<Longrightarrow>
      GetValueInMap (Some ?c) VolumeContextMGSIPAddress = GetValueInMap (Some m) VolumeContextMGSIPAddress"
    using val(2) ctx(2) sc by simp
  show "\<exists>p h1. AmlFilesystemName p = req_Name req \<and> if_CreateAmlFilesystem (dynamicProvisioner d) p h1 =
      (Inr (GetValueInMap (Some ?c) VolumeContextMGSIPAddress), h')" if "GetValueInMap (Some m) VolumeContextMGSIPAddress = ''''"
  proof -
    have "if_CreateAmlFilesystem (dynamicProvisioner d) (p\<lparr>StorageCapacityTiB := storageCapacityTib (resp_CapacityBytes resp),
        AmlFilesystemName := req_Name req\<rparr>) h1 = (Inr mgs, h')"
      using mgs sc that by (auto simp: create_cluster_def Let_def split: option.splits if_splits sum.splits prod.splits)
    then show ?thesis using val(2) ctx(3) sc that by (intro exI conjI) auto
  qed
qed

lemma node_reads_created_volume:
  assumes "CreateVolume ord d req h = (((Inr resp, obs), h'), d')"
    and "req_Parameters req = Some m" "good_params m" "valid_order ord"
    and "good_params (resp_VolumeContext resp @ pod)" "pod_info pod" "valid_order ord'"
    and "GetValueInMap (Some (resp_VolumeContext resp)) VolumeContextMGSIPAddress \<noteq> ''''"
  obtains vol where "getVolume (resp_VolumeId resp) (ord' 0 (resp_VolumeContext resp @ pod)) = Inr vol"
    "mgsIPAddress vol = GetValueInMap (Some (resp_VolumeContext resp)) VolumeContextMGSIPAddress"
    "azureLustreName vol = DefaultLustreFsName"
    "subDir vol = trim_byte (CHR ''/'') (GetValueInMap (Some m) VolumeContextSubDir)"
proof -
  let ?c = "resp_VolumeContext resp" and ?ctx = "resp_VolumeContext resp @ pod"
  note created = created_context [OF assms(1-4)]
  have same: "same_map ?ctx (ord' 0 ?ctx)" using assms(7) by (auto simp: valid_order_def same_map_def)
  have lc: "lc_ok ?ctx" using good_params_lc_ok [OF assms(5)] .
  have lc': "lc_ok (ord' 0 ?ctx)" using same_map_distinct [OF same, of "to_lower \<circ> fst"] lc unfolding lc_ok_def by metis
  have sub: "\<not> bad_subDir (ord' 0 ?ctx)"
    using bad_subDir_same_map [OF same] pod_info_subDir [OF assms(6)] created(2) by simp
  have val: "ci_value key (ord' 0 ?ctx) = GetValueInMap (Some ?c) key"
    if "key \<in> {VolumeContextMGSIPAddress, VolumeContextSubDir, VolumeContextResourceGroupName,
      VolumeContextInternalDynamicallyCreated}" for key
    using that ci_value_same_map [OF lc same, of key] pod_info_value [OF assms(6) that, of ?c]
      good_params_value [OF created(1), of key] context_keys by auto
  have "\<exists>vol. newLustreVolume (resp_VolumeId resp) n (ord' 0 ?ctx) = Inr vol
      \<and> mgsIPAddress vol = GetValueInMap (Some ?c) VolumeContextMGSIPAddress \<and> azureLustreName vol = DefaultLustreFsName
      \<and> subDir vol = trim_byte (CHR ''/'') (GetValueInMap (Some m) VolumeContextSubDir)" for n
    using sub assms(8) val created(3) by (simp add: newLustreVolume_eq [OF lc'])
  then show thesis using that by (fastforce simp: getVolume_def split: sum.splits)
qed

subsection \<open>A system without failures\<close>

text \<open>
  A system that answers according to its mounts and on which directories can be made, clean-ups succeed, and
  a mount on a directory that was just made succeeds.
\<close>

definition healthy :: "node_os \<Rightarrow> bool" where
  "healthy os \<longleftrightarrow> faithful os \<and> (\<forall>h p. os_Err os h (MkdirAll p) = None \<and> os_Err os h (CleanupMountWithForce p 10) = None
     \<and> (\<forall>s opts. os_Err os (h @ [(MkdirAll p, None), (KernelLock, None)]) (MountLustre s p ''lustre'' opts [''--no-mtab'']) = None))"

lemma file_system_healthy: "healthy file_system"
  using file_system_faithful by (simp add: healthy_def, simp add: file_system_def dirs_def)

lemma healthyD:
  assumes "healthy os"
  shows "faithful os" "os_Err os h (MkdirAll p) = None" "os_Err os h (CleanupMountWithForce p 10) = None"
    "os_Err os (h @ [(MkdirAll p, None), (KernelLock, None)]) (MountLustre s p ''lustre'' opts [''--no-mtab'']) = None"
  using assms by (simp_all add: healthy_def)

lemma make_dir_healthy: "healthy os \<Longrightarrow> make_dir os p h = (None, h @ [(MkdirAll p, None)])"
  by (simp add: make_dir_def node_do_def healthyD MakeDir_def)

lemma ensure_healthy:
  assumes "healthy os" "mount_table h p = None"
  obtains e where "ensureMountPoint os p h = (Inr False, h @ [(IsLikelyNotMountPoint p, e), (MkdirAll p, None)])"
proof -
  obtain n e where ans: "os_IsLikelyNotMountPoint os h p = (n, e)" by fastforce
  have "fst (os_IsLikelyNotMountPoint os h p)" "\<And>x. snd (os_IsLikelyNotMountPoint os h p) = Some x \<Longrightarrow> is_not_exist x"
    using healthyD(1) [OF assms(1)] assms(2) unfolding faithful_def by blast+
  then have "ensureMountPoint os p h = ensure_rest os p True (h @ [(IsLikelyNotMountPoint p, e)])"
    using ans by (cases e) (auto simp: ensureMountPoint_def Let_def)
  then show thesis using that [of e] make_dir_healthy [OF assms(1)] by (simp add: ensure_rest_def)
qed

lemma mount_healthy:
  assumes "healthy os"
  shows "mount_or_remove os s p opts (h @ [(MkdirAll p, None)]) = (None, h @ (MkdirAll p, None) # mount_block s p opts None)"
  using healthyD(4) [OF assms, of h p s opts]
  by (simp add: mount_or_remove_def mountVolumeAtPath_def node_do_def mount_block_def)

lemma publish_target_healthy:
  assumes "healthy os" "\<not> enableAzureLustreMockMount d"
  obtains ok h' where "publish_target os d s p opts h = ((Inr (), ok), h')"
proof (cases "mount_table h p")
  case None
  from assms(1) this obtain e where "ensureMountPoint os p h = (Inr False, h @ [(IsLikelyNotMountPoint p, e), (MkdirAll p, None)])"
    by (rule ensure_healthy)
  then show thesis using that mount_healthy [OF assms(1), of s p opts "h @ [(IsLikelyNotMountPoint p, e)]"] assms(2)
    by (simp add: publish_target_def)
next
  case (Some x)
  then have "ensureMountPoint os p h = (Inr True, h @ [(IsLikelyNotMountPoint p, None), (ReadDir p, None)])"
    by (intro ensure_mounted [OF healthyD(1) [OF assms(1)]]) simp
  then show thesis using that [of False] by (simp add: publish_target_def)
qed

lemma createSubDir_healthy:
  assumes "healthy os" "getInternalMountPath (workingMountDir d) mp = Inr t" "mount_table h t = None" "ensureStrictSubpath sub"
  shows "fst (createSubDir os d vol mp sub opts h) = None"
proof -
  from assms(1,3) obtain e where "ensureMountPoint os t h = (Inr False, h @ [(IsLikelyNotMountPoint t, e), (MkdirAll t, None)])"
    by (rule ensure_healthy)
  then have "\<exists>h1. internalMount os d vol mp opts h = (None, h1)"
    using mount_healthy [OF assms(1), of _ t opts "h @ [(IsLikelyNotMountPoint t, e)]"] assms(2)
    by (simp add: internalMount_def Let_def)
  moreover have "fst (make_sub_dir os d mp sub h1) = None" for h1
    using assms(2,4) make_dir_healthy [OF assms(1)] by (simp add: make_sub_dir_def getInternalVolumePath_def)
  ultimately show ?thesis by (auto simp: createSubDir_def split_beta)
qed

text \<open>
  The sub-directory with its placeholders replaced, and what a node needs of it: it is a strict sub-path, and
  for a writable publish the internal mount point of the target is a path on which nothing is mounted.
\<close>

definition expanded :: "range_order \<Rightarrow> gomap \<Rightarrow> string \<Rightarrow> string" where
  "expanded ord ctx sub = ReplaceWithMap sub (ord 2 (subDirReplaceMap (ord 1 ctx)))"

definition usable_sub_dir :: "Driver \<Rightarrow> string \<Rightarrow> string \<Rightarrow> bool \<Rightarrow> mounts \<Rightarrow> bool" where
  "usable_sub_dir d target sub readOnly M \<longleftrightarrow> ensureStrictSubpath sub
     \<and> (readOnly \<or> (case getInternalMountPath (workingMountDir d) target of Inl _ \<Rightarrow> False | Inr t \<Rightarrow> M t = None))"

lemma interpolate_expanded: "interpolateSubDirVariables ord ctx vol = expanded ord ctx (subDir vol)"
  by (simp add: interpolateSubDirVariables_def expanded_def)

lemma publish_source_healthy:
  assumes "healthy os" "subDir vol = '''' \<or> usable_sub_dir d (pub_TargetPath req) (expanded ord ctx (subDir vol)) readOnly (mount_table h)"
  obtains s h' where "publish_source ord os d req ctx vol opts readOnly h = (Inr s, h')"
proof -
  have made: "fst (createSubDir os d vol (pub_TargetPath req) (interpolateSubDirVariables ord ctx vol) opts h) = None"
    if "subDir vol \<noteq> ''''" "\<not> readOnly"
    using createSubDir_healthy [OF assms(1)] assms(2) that by (auto simp: usable_sub_dir_def interpolate_expanded split: sum.splits)
  obtain r h' where r: "publish_source ord os d req ctx vol opts readOnly h = (r, h')" by fastforce
  then have "\<exists>s. r = Inr s"
  proof (cases rule: publish_source_cases)
    case (refused e)
    then show ?thesis using r assms(2) made
      by (auto simp: publish_source_def usable_sub_dir_def interpolate_expanded Let_def split: if_splits prod.splits option.splits)
  next
    case (failed e)
    then show ?thesis using made by (auto simp: makes_sub_dir_def)
  qed auto
  then show thesis using that r by blast
qed

lemma publish_healthy:
  assumes "healthy os" "\<not> enableAzureLustreMockMount d" "publish_request_ok ord req volCap ctx vol"
    and "getMountOptions req (GetMountFlags volCap) = (opts, readOnly)" "subDir vol = '''' \<or> usable_sub_dir d (pub_TargetPath req) (expanded ord ctx (subDir vol)) readOnly (mount_table h)"
    and "node_key (pub_VolumeId req) (pub_TargetPath req) \<notin> locks (volLocks d)"
  obtains ok h' where "NodePublishVolume ord os d req h = (((Inr (), Some ok), h'), d)"
proof -
  obtain s h1 where src: "publish_source ord os d req ctx vol opts readOnly h = (Inr s, h1)"
    using assms(1,5) by (rule publish_source_healthy)
  obtain ok h' where "publish_target os d s (pub_TargetPath req) opts h1 = ((Inr (), ok), h')"
    using assms(1,2) by (rule publish_target_healthy)
  then have body: "NodePublishVolume_body ord os d req (GetMountFlags volCap) ctx vol h = ((Inr (), ok), h')"
    using src assms(4) by (simp add: NodePublishVolume_body_def)
  show thesis
  proof (cases rule: NodePublishVolume_cases [of ord os d req h])
    case (refused e)
    have "publish_key ord req = Some (node_key (pub_VolumeId req) (pub_TargetPath req))"
      using assms(3) publish_key_Some by blast
    from np.lock_free [OF this assms(6), of os h] refused(1) show thesis by simp
  next
    case (run volCap' ctx' vol' r ok' h'' opts' readOnly')
    then have "volCap' = volCap" "ctx' = ctx" "vol' = vol" using assms(3) by (auto simp: publish_request_ok_def)
    then show thesis using that run body by auto
  qed
qed

subsection \<open>From the controller to the mount\<close>

lemma CreateAmlFilesystem_polled:
  assumes "CreateAmlFilesystem d p h = (Inr mgs, h')" "amlFilesystemsClient d = Some cl"
  shows "\<exists>h0. cl_PollCreate cl h0 (ResourceGroupName p) (AmlFilesystemName p) = Inr (Some mgs)"
  using assms by (cases rule: CreateAmlFilesystem_cases) (auto dest!: request_cluster_Inr)

text \<open>The source of a volume: its server and the one file system, and the sub-directory if there is one.\<close>

definition source_of :: "string \<Rightarrow> string \<Rightarrow> string" where
  "source_of mgs sub = (let root = mgs @ ''@tcp:/lustrefs'' in if sub = '''' then root else path_join [root, sub])"

text \<open>
  C6. From the controller to the mount. Suppose \<open>CreateVolume\<close> succeeded and a node gets a publish request with
  the identifier and the context that it returned, the latter with what the kubelet adds of the pod, in any
  order. On a system whose calls do not fail, outside of mock mode, with the lock free and a usable
  sub-directory, the publish succeeds, and is counted as a new mount exactly when nothing was mounted on the
  target. Then the target has the source of the volume and the mount options, and no other mount outside
  the working directory changed. The server in the source is the one of the parameters, or the address
  that Azure gave for the cluster with the name of the volume; the file system is always \<open>lustrefs\<close>,
  whatever \<open>fs-name\<close> says.
\<close>

theorem created_volume_mounts:
  assumes "CreateVolume ord d req h = (((Inr resp, obs), h'), d')"
    and "req_Parameters req = Some m" "good_params m" "valid_order ord"
    and "dynamicProvisioner d = dp_interface dp" "amlFilesystemsClient dp = Some cl"
    and "pub_VolumeId preq = resp_VolumeId resp" "pub_VolumeContext preq = Some (resp_VolumeContext resp @ pod)"
      "good_params (resp_VolumeContext resp @ pod)" "pod_info pod" "valid_order ord'"
      "GetValueInMap (Some (resp_VolumeContext resp)) VolumeContextMGSIPAddress \<noteq> ''''"
    and "pub_VolumeCapability preq = Some volCap" "getMountOptions preq (GetMountFlags volCap) = (opts, readOnly)"
      "pub_TargetPath preq \<noteq> ''''" "\<not> strictly_below (workingMountDir nd) (pub_TargetPath preq)"
    and "healthy os" "\<not> enableAzureLustreMockMount nd"
      "node_key (resp_VolumeId resp) (pub_TargetPath preq) \<notin> locks (volLocks nd)"
    and "sub = trim_byte (CHR ''/'') (GetValueInMap (Some m) VolumeContextSubDir)"
      "sub = '''' \<or> usable_sub_dir nd (pub_TargetPath preq) (expanded ord' (resp_VolumeContext resp @ pod) sub) readOnly (mount_table hn)"
  shows "\<exists>hn' mgs. NodePublishVolume ord' os nd preq hn = (((Inr (), Some (mount_table hn (pub_TargetPath preq) = None)), hn'), nd)
    \<and> outside_dir (workingMountDir nd) (mount_table hn') =
        abs_publish (pub_TargetPath preq)
          (source_of mgs (if sub = '''' then '''' else expanded ord' (resp_VolumeContext resp @ pod) sub)) opts
          (outside_dir (workingMountDir nd) (mount_table hn))
    \<and> (if GetValueInMap (Some m) VolumeContextMGSIPAddress \<noteq> '''' then mgs = GetValueInMap (Some m) VolumeContextMGSIPAddress
       else \<exists>rg h0. cl_PollCreate cl h0 rg (req_Name req) = Inr (Some mgs))"
proof -
  let ?ctx = "resp_VolumeContext resp @ pod" and ?mgs = "GetValueInMap (Some (resp_VolumeContext resp)) VolumeContextMGSIPAddress"
  let ?src = "source_of ?mgs (if sub = '''' then '''' else expanded ord' ?ctx sub)"
  from assms(1-4,9-12) obtain vol where vol: "getVolume (resp_VolumeId resp) (ord' 0 ?ctx) = Inr vol"
    "mgsIPAddress vol = ?mgs" "azureLustreName vol = DefaultLustreFsName" "subDir vol = sub"
    unfolding assms(20) by (rule node_reads_created_volume)
  note created = created_context [OF assms(1-4)]
  have "resp_VolumeId resp \<noteq> ''''"
    by (rule CreateVolume_context [OF assms(1,2)]) (auto dest!: createVolumeID_longer)
  then have ok: "publish_request_ok ord' preq volCap ?ctx vol"
    using assms(7,8,13,15) vol(1) by (simp add: publish_request_ok_def)
  obtain new hn' where pub: "NodePublishVolume ord' os nd preq hn = (((Inr (), Some new), hn'), nd)"
    by (rule publish_healthy [OF assms(17,18) ok assms(14)]) (use assms(7,19,21) vol(4) in auto)
  have "sub \<noteq> '''' \<Longrightarrow> expanded ord' ?ctx sub \<noteq> ''''"
    using assms(21) by (auto simp: usable_sub_dir_def ensureStrictSubpath_def is_local_def)
  then have "full_source ord' nd ?ctx vol = ?src"
    using vol assms(18) by (auto simp: full_source_def volume_root_def getSourceString_def source_of_def interpolate_expanded Let_def)
  then have table: "outside_dir (workingMountDir nd) (mount_table hn') =
      abs_publish (pub_TargetPath preq) ?src opts (outside_dir (workingMountDir nd) (mount_table hn))"
    "new \<longleftrightarrow> mount_table hn (pub_TargetPath preq) = None"
    using publish_refines [OF healthyD(1) [OF assms(17)] assms(18,16) ok assms(14) pub] by auto
  have "if GetValueInMap (Some m) VolumeContextMGSIPAddress \<noteq> '''' then ?mgs = GetValueInMap (Some m) VolumeContextMGSIPAddress
      else \<exists>rg h0. cl_PollCreate cl h0 rg (req_Name req) = Inr (Some ?mgs)"
    using created(4,5) CreateAmlFilesystem_polled [OF _ assms(6)] assms(5) by (auto simp: dp_interface_def) metis
  with pub table show ?thesis by blast
qed

text \<open>A volume in a sub-directory of an existing server, from its creation to its mount.\<close>

definition static_publish :: NodePublishVolumeRequest where
  "static_publish = \<lparr>pub_VolumeCapability = Some sample_capability, pub_VolumeId = ''pvc-1#lustrefs#10.0.0.9#a#f#'',
     pub_TargetPath = ''/t'', pub_VolumeContext = Some (static_params @ [(''created-by-dynamic-provisioning'', ''f'')] @ [(podNameKey, ''web-0'')]),
     pub_Readonly = False\<rparr>"

theorem created_volume_mounts_witness:
  "\<exists>h'. NodePublishVolume list_order file_system node_driver static_publish [] = (((Inr (), Some True), h'), node_driver)
     \<and> mount_table h' ''/t'' = Some (''10.0.0.9@tcp:/lustrefs/a'', [''noatime''])"
proof -
  let ?pod = "[(podNameKey, ''web-0'')]" and ?ctx = "static_params @ [(''created-by-dynamic-provisioning'', ''f'')] @ [(podNameKey, ''web-0'')]"
  have facts: "GetValueInMap (Some static_params) VolumeContextMGSIPAddress = ''10.0.0.9''"
    "GetValueInMap (Some (static_params @ [(''created-by-dynamic-provisioning'', ''f'')])) VolumeContextMGSIPAddress = ''10.0.0.9''"
    "GetValueInMap (Some static_params) VolumeContextSubDir = ''/a/''" "trim_byte (CHR ''/'') ''/a/'' = ''a''"
    "good_params ?ctx" "pod_info ?pod" "expanded list_order ?ctx ''a'' = ''a''"
    "usable_sub_dir node_driver ''/t'' ''a'' False (mount_table [])" "source_of ''10.0.0.9'' ''a'' = ''10.0.0.9@tcp:/lustrefs/a''"
    by code_simp+
  have opts: "getMountOptions static_publish (GetMountFlags sample_capability) = ([''noatime''], False)" by code_simp
  have below: "\<not> strictly_below (workingMountDir node_driver) ''/t''" using not_below_w by (simp add: publish_sample_def)
  have "\<exists>hn' mgs. NodePublishVolume list_order file_system node_driver static_publish [] = (((Inr (), Some True), hn'), node_driver)
      \<and> outside_dir (workingMountDir node_driver) (mount_table hn') =
          abs_publish ''/t'' (source_of mgs ''a'') [''noatime''] (outside_dir (workingMountDir node_driver) (mount_table []))
      \<and> mgs = ''10.0.0.9''"
    using created_volume_mounts [OF sample_static_run _ sample_static_good valid_list_order sample_driver_provisioner,
        of _ static_publish ?pod list_order sample_capability "[''noatime'']" False node_driver file_system "''a''" "[]"]
      facts opts below file_system_healthy valid_list_order node_driver_free
    by (simp add: sample_request_def static_publish_def node_driver_def sample_provisioner_def mount_table_def)
  then show ?thesis using facts(9) below
    by (auto simp: abs_publish_def outside_dir_apply mount_table_def fun_eq_iff split: if_splits)
qed

end
