(* ===== verification/Node_Concurrency.thy ===== *)
theory Node_Concurrency
  imports Node_File_System
begin

text \<open>
  Concurrent handlers of the node service. A gRPC server answers requests in goroutines of their own; they
  share the table of volume locks, which a handler tries and never waits for, and the mutex of the kernel
  modules, which it waits for. A thread here is a run of one handler: the key it locks and the calls it makes
  with the answers it gets, which may be any; a request that is refused before the lock is a thread without
  calls. The steps of the threads interleave.
\<close>

subsection \<open>Threads\<close>

text \<open>The runs of the two handlers: the key of the lock and the calls.\<close>

definition handler_run :: "string \<Rightarrow> node_history \<Rightarrow> bool" where
  "handler_run k t \<longleftrightarrow>
     (\<exists>ord os d req h r d'. NodePublishVolume ord os d req h = ((r, h @ t), d') \<and> k = node_key (pub_VolumeId req) (pub_TargetPath req))
     \<or> (\<exists>os d req h r d'. NodeUnpublishVolume os d req h = ((r, h @ t), d') \<and> k = node_key (unp_VolumeId req) (unp_TargetPath req))"

datatype thread_status = NotStarted | Inside | Returned

record thread =
  th_key :: string
  th_calls :: node_history
  th_status :: thread_status

record node_process =
  np_locks :: volumeLocks
  np_kernel :: "nat option"  \<comment> \<open>the thread that holds the mutex of the kernel modules\<close>
  np_threads :: "thread list"

definition start_threads :: "(string \<times> node_history) list \<Rightarrow> node_process" where
  "start_threads runs = \<lparr>np_locks = newVolumeLocks, np_kernel = None,
     np_threads = map (\<lambda>(k, t). \<lparr>th_key = k, th_calls = t, th_status = NotStarted\<rparr>) runs\<rparr>"

text \<open>A call of thread \<open>i\<close> on the mutex; \<open>None\<close> when it blocks. Other calls do not wait.\<close>

fun mutex_call :: "nat \<Rightarrow> node_call \<Rightarrow> nat option \<Rightarrow> nat option option" where
  "mutex_call i KernelLock owner = (if owner = None then Some (Some i) else None)"
| "mutex_call i KernelUnlock owner = Some None"
| "mutex_call i c owner = Some owner"

definition set_thread :: "nat \<Rightarrow> thread \<Rightarrow> node_process \<Rightarrow> node_process" where
  "set_thread i t p = p\<lparr>np_threads := (np_threads p)[i := t]\<rparr>"

text \<open>
  A thread tries the lock of its volume and target and returns at once when it is taken; then it makes its
  calls; then it releases the lock, as the deferred call of the handler does.
\<close>

inductive node_step :: "node_process \<Rightarrow> node_process \<Rightarrow> bool" where
  Begin: "i < length (np_threads p) \<Longrightarrow> np_threads p ! i = t \<Longrightarrow> th_status t = NotStarted \<Longrightarrow>
     TryAcquire (th_key t) (np_locks p) = (True, l) \<Longrightarrow>
     node_step p (set_thread i (t\<lparr>th_status := Inside\<rparr>) (p\<lparr>np_locks := l\<rparr>))"
| Busy: "i < length (np_threads p) \<Longrightarrow> np_threads p ! i = t \<Longrightarrow> th_status t = NotStarted \<Longrightarrow>
     TryAcquire (th_key t) (np_locks p) = (False, l) \<Longrightarrow>
     node_step p (set_thread i (t\<lparr>th_calls := [], th_status := Returned\<rparr>) (p\<lparr>np_locks := l\<rparr>))"
| Call: "i < length (np_threads p) \<Longrightarrow> np_threads p ! i = t \<Longrightarrow> th_status t = Inside \<Longrightarrow> th_calls t = e # es \<Longrightarrow>
     mutex_call i (fst e) (np_kernel p) = Some owner \<Longrightarrow>
     node_step p (set_thread i (t\<lparr>th_calls := es\<rparr>) (p\<lparr>np_kernel := owner\<rparr>))"
| Return: "i < length (np_threads p) \<Longrightarrow> np_threads p ! i = t \<Longrightarrow> th_status t = Inside \<Longrightarrow> th_calls t = [] \<Longrightarrow>
     node_step p (set_thread i (t\<lparr>th_status := Returned\<rparr>) (p\<lparr>np_locks := Release (th_key t) (np_locks p)\<rparr>))"

inductive node_reachable :: "(string \<times> node_history) list \<Rightarrow> node_process \<Rightarrow> bool" for runs where
  Init: "node_reachable runs (start_threads runs)"
| Step: "node_reachable runs p \<Longrightarrow> node_step p q \<Longrightarrow> node_reachable runs q"

subsection \<open>The invariant\<close>

abbreviation inside_key :: "node_process \<Rightarrow> nat \<Rightarrow> string \<Rightarrow> bool" where
  "inside_key p i k \<equiv> i < length (np_threads p) \<and> th_status (np_threads p ! i) = Inside \<and> th_key (np_threads p ! i) = k"

text \<open>What a thread has left to do, given whether it holds the mutex.\<close>

definition thread_ok :: "bool \<Rightarrow> thread \<Rightarrow> bool" where
  "thread_ok held t \<longleftrightarrow>
     (case th_status t of
        NotStarted \<Rightarrow> \<not> held \<and> kernel_ok (th_calls t)
      | Inside \<Rightarrow> kernel_run held (th_calls t) = Some False
      | Returned \<Rightarrow> \<not> held)"

definition node_inv :: "node_process \<Rightarrow> bool" where
  "node_inv p \<longleftrightarrow>
     locks (np_locks p) = {k. \<exists>i. inside_key p i k}
     \<and> (\<forall>i j k. inside_key p i k \<and> inside_key p j k \<longrightarrow> i = j)
     \<and> (\<forall>i<length (np_threads p). thread_ok (np_kernel p = Some i) (np_threads p ! i))
     \<and> (\<forall>i. np_kernel p = Some i \<longrightarrow> i < length (np_threads p))"

lemma handler_runI:
  "NodePublishVolume ord os d preq h = ((r, h @ t), d') \<Longrightarrow> handler_run (node_key (pub_VolumeId preq) (pub_TargetPath preq)) t"
  "NodeUnpublishVolume os d ureq h = ((r, h @ t), d') \<Longrightarrow> handler_run (node_key (unp_VolumeId ureq) (unp_TargetPath ureq)) t"
  unfolding handler_run_def by blast+

lemma handler_run_kernel_ok: "handler_run k t \<Longrightarrow> kernel_ok t"
  unfolding handler_run_def
  by (metis fst_conv publish_kernel_ok same_append_eq unpublish_kernel_ok)

lemma set_thread_simps [simp]:
  "np_locks (set_thread i t p) = np_locks p" "np_kernel (set_thread i t p) = np_kernel p"
  "length (np_threads (set_thread i t p)) = length (np_threads p)"
  "np_threads (set_thread i t p) ! j = (if j = i \<and> i < length (np_threads p) then t else np_threads p ! j)"
  by (auto simp: set_thread_def nth_list_update list_update_beyond)

lemma start_inv:
  assumes "list_all (\<lambda>(k, t). handler_run k t) runs"
  shows "node_inv (start_threads runs)"
proof -
  have "kernel_ok (snd (runs ! i))" if "i < length runs" for i
    using assms that handler_run_kernel_ok [of "fst (runs ! i)" "snd (runs ! i)"]
    by (auto simp: list_all_length split_beta)
  then show ?thesis by (auto simp: node_inv_def start_threads_def newVolumeLocks_def thread_ok_def split_beta)
qed

lemma kernel_call:
  assumes "kernel_run held (e # es) = Some b" "mutex_call i (fst e) owner = Some owner'" "held \<longleftrightarrow> owner = Some i"
  shows "kernel_run (owner' = Some i) es = Some b" "j \<noteq> i \<Longrightarrow> owner' = Some j \<longleftrightarrow> owner = Some j"
  using assms by (cases "fst e"; auto split: if_splits option.splits)+

lemma node_invD:
  assumes "node_inv p" "i < length (np_threads p)"
  shows "thread_ok (np_kernel p = Some i) (np_threads p ! i)"
  using assms by (simp add: node_inv_def)

lemma node_step_inv:
  assumes "node_inv p" "node_step p q"
  shows "node_inv q"
  using assms(2)
proof cases
  case (Begin i t l)
  have l: "locks l = insert (th_key t) (locks (np_locks p))" "th_key t \<notin> locks (np_locks p)"
    using Begin(5) by (auto simp: TryAcquire_def split: if_splits)
  have "thread_ok (np_kernel p = Some i) (t\<lparr>th_status := Inside\<rparr>)"
    using node_invD [OF assms(1) Begin(2)] Begin(3,4) by (simp add: thread_ok_def kernel_ok_def)
  then show ?thesis using assms(1) Begin(1-4) l by (auto simp: node_inv_def)
next
  case (Busy i t l)
  have "l = np_locks p" using Busy(5) by (auto simp: TryAcquire_def split: if_splits)
  moreover have "thread_ok (np_kernel p = Some i) (t\<lparr>th_calls := [], th_status := Returned\<rparr>)"
    using node_invD [OF assms(1) Busy(2)] Busy(3,4) by (simp add: thread_ok_def)
  moreover have "inside_key q j k \<longleftrightarrow> inside_key p j k" for j k using Busy(1-4) by auto
  ultimately show ?thesis using assms(1) Busy(1-4) by (simp add: node_inv_def)
next
  case (Call i t e es owner)
  have run: "kernel_run (np_kernel p = Some i) (e # es) = Some False"
    using node_invD [OF assms(1) Call(2)] Call(3-5) by (simp add: thread_ok_def)
  note call = kernel_call [OF run Call(6) refl]
  have "thread_ok (owner = Some i) (t\<lparr>th_calls := es\<rparr>)" using call(1) Call(4) by (simp add: thread_ok_def)
  moreover have "owner = Some j \<Longrightarrow> j < length (np_threads p)" for j
    using assms(1) Call(2) call(2) [of j] by (cases "j = i") (auto simp: node_inv_def)
  moreover have "inside_key q j k \<longleftrightarrow> inside_key p j k" for j k using Call(1-5) by auto
  ultimately show ?thesis using assms(1) Call(1-5) call(2) by (simp add: node_inv_def)
next
  case (Return i t)
  have "thread_ok (np_kernel p = Some i) (t\<lparr>th_status := Returned\<rparr>)"
    using node_invD [OF assms(1) Return(2)] Return(3-5) by (simp add: thread_ok_def)
  moreover have "locks (Release (th_key t) (np_locks p)) = locks (np_locks p) - {th_key t}" by (simp add: Release_def)
  moreover have "inside_key q j k \<longleftrightarrow> j \<noteq> i \<and> inside_key p j k" for j k using Return(1-5) by auto
  moreover have "inside_key p i (th_key t)" using Return(2-5) by simp
  ultimately show ?thesis using assms(1) Return(1-5) unfolding node_inv_def by auto
qed

lemma node_reachable_inv: "node_reachable runs p \<Longrightarrow> list_all (\<lambda>(k, t). handler_run k t) runs \<Longrightarrow> node_inv p"
  by (induction rule: node_reachable.induct) (auto intro: start_inv node_step_inv)

subsection \<open>Progress\<close>

text \<open>What every step uses up.\<close>

definition thread_work :: "thread \<Rightarrow> nat" where
  "thread_work t = (case th_status t of NotStarted \<Rightarrow> length (th_calls t) + 2 | Inside \<Rightarrow> length (th_calls t) + 1 | Returned \<Rightarrow> 0)"

definition process_work :: "node_process \<Rightarrow> nat" where
  "process_work p = sum_list (map thread_work (np_threads p))"

lemma sum_list_update_less:
  "i < length xs \<Longrightarrow> f y < f (xs ! i) \<Longrightarrow> sum_list (map f (xs[i := y])) < sum_list (map f xs :: nat list)"
  by (induction xs arbitrary: i) (auto split: nat.splits)

lemma node_step_work: "node_step p q \<Longrightarrow> process_work q < process_work p"
  by (induction rule: node_step.induct)
    (auto simp: process_work_def set_thread_def thread_work_def intro!: sum_list_update_less)

lemma thread_can_call:
  assumes "node_inv p" "i < length (np_threads p)" "th_status (np_threads p ! i) = Inside"
    and "np_kernel p = Some i \<or> np_kernel p = None"
  shows "\<exists>q. node_step p q"
proof (cases "th_calls (np_threads p ! i)")
  case Nil
  then show ?thesis using node_step.Return [OF assms(2) refl assms(3)] by blast
next
  case (Cons e es)
  have "kernel_run (np_kernel p = Some i) (e # es) = Some False"
    using node_invD [OF assms(1,2)] assms(3) Cons by (simp add: thread_ok_def)
  then have "mutex_call i (fst e) (np_kernel p) \<noteq> None"
    using assms(4) by (cases "fst e") (auto split: if_splits option.splits)
  then show ?thesis using node_step.Call [OF assms(2) refl assms(3) Cons] by blast
qed

lemma node_progress:
  assumes "node_inv p" "i < length (np_threads p)" "th_status (np_threads p ! i) \<noteq> Returned"
  shows "\<exists>q. node_step p q"
proof (cases "th_status (np_threads p ! i)")
  case NotStarted
  obtain b l where "TryAcquire (th_key (np_threads p ! i)) (np_locks p) = (b, l)" by fastforce
  then show ?thesis using node_step.Begin [OF assms(2) refl NotStarted] node_step.Busy [OF assms(2) refl NotStarted]
    by (cases b) fastforce+
next
  case Inside
  show ?thesis
  proof (cases "np_kernel p")
    case None
    then show ?thesis using thread_can_call [OF assms(1,2) Inside] by simp
  next
    case (Some j)
    then have j: "j < length (np_threads p)" using assms(1) by (simp add: node_inv_def)
    then have "th_status (np_threads p ! j) = Inside"
      using node_invD [OF assms(1) j] Some by (auto simp: thread_ok_def split: thread_status.splits)
    then show ?thesis using thread_can_call [OF assms(1) j] Some by simp
  qed
qed (use assms(3) in simp)

text \<open>The calls that need the mutex: a mount, a forced unmount, and giving the mutex back.\<close>

fun needs_kernel_lock :: "node_call \<Rightarrow> bool" where
  "needs_kernel_lock KernelUnlock \<longleftrightarrow> True"
| "needs_kernel_lock (MountLustre s p f opts flags) \<longleftrightarrow> True"
| "needs_kernel_lock (UnmountWithForce p n) \<longleftrightarrow> True"
| "needs_kernel_lock _ \<longleftrightarrow> False"

text \<open>
  C12. Concurrent publishes and unpublishes, any number of them in any interleaving and with any answers of
  the system. Two handlers that are past the volume lock never work on the same volume and target. A mount or
  forced unmount that the driver asks for is made by the one handler that holds the mutex of the kernel
  modules, and nobody gives back a mutex that it does not hold (which would end the process). There is no
  deadlock: while a handler has not returned, some handler can go on, and every step brings the end nearer.
  When all have returned, no volume lock is left and the mutex is free.
\<close>

theorem node_handlers_concurrent:
  assumes "list_all (\<lambda>(k, t). handler_run k t) runs" "node_reachable runs p"
  shows "(\<forall>i j k. inside_key p i k \<and> inside_key p j k \<longrightarrow> i = j)
    \<and> (\<forall>i e es. i < length (np_threads p) \<and> th_status (np_threads p ! i) = Inside \<and> th_calls (np_threads p ! i) = e # es
          \<and> needs_kernel_lock (fst e) \<longrightarrow> np_kernel p = Some i)
    \<and> ((\<exists>i<length (np_threads p). th_status (np_threads p ! i) \<noteq> Returned) \<longrightarrow> (\<exists>q. node_step p q))
    \<and> (\<forall>q. node_step p q \<longrightarrow> process_work q < process_work p)
    \<and> ((\<forall>i<length (np_threads p). th_status (np_threads p ! i) = Returned) \<longrightarrow> locks (np_locks p) = {} \<and> np_kernel p = None)"
proof -
  have inv: "node_inv p" using assms node_reachable_inv by blast
  have "np_kernel p = Some i" if "i < length (np_threads p)" "th_status (np_threads p ! i) = Inside"
    "th_calls (np_threads p ! i) = e # es" "needs_kernel_lock (fst e)" for i e es
    using node_invD [OF inv that(1)] that(2-4) by (cases "fst e") (auto simp: thread_ok_def split: if_splits)
  moreover have "locks (np_locks p) = {} \<and> np_kernel p = None"
    if all: "\<forall>i<length (np_threads p). th_status (np_threads p ! i) = Returned"
  proof -
    have "np_kernel p \<noteq> Some i" if "i < length (np_threads p)" for i
      using node_invD [OF inv that] all that by (simp add: thread_ok_def)
    then show ?thesis using inv all by (cases "np_kernel p") (auto simp: node_inv_def)
  qed
  moreover have "\<forall>i j k. inside_key p i k \<and> inside_key p j k \<longrightarrow> i = j" using inv by (simp add: node_inv_def)
  ultimately show ?thesis using node_progress [OF inv] node_step_work by blast
qed

text \<open>A publish and an unpublish of the same target at once.\<close>

definition sample_runs :: "(string \<times> node_history) list" where
  "sample_runs = [(node_key ''v'' ''/t'', writable_trace), (node_key ''v'' ''/t'', unmount_block ''/t'' None [] [] None)]"

lemma sample_handler_runs: "list_all (\<lambda>(k, t). handler_run k t) sample_runs"
proof -
  have "handler_run (node_key (pub_VolumeId (publish_sample False)) (pub_TargetPath (publish_sample False))) writable_trace"
    by (rule handler_runI(1) [of list_order file_system node_driver _ "[]"]) (simp add: sample_publish_writable)
  moreover have "handler_run (node_key (unp_VolumeId unpublish_sample) (unp_TargetPath unpublish_sample)) (unmount_block ''/t'' None [] [] None)"
    by (rule handler_runI(2) [OF sample_unpublish])
  ultimately show ?thesis by (simp add: sample_runs_def publish_sample_def unpublish_sample_def)
qed

theorem node_handlers_concurrent_witness:
  "\<exists>q. node_step (start_threads sample_runs) q \<and> process_work q < process_work (start_threads sample_runs)"
proof -
  have "0 < length (np_threads (start_threads sample_runs))" "th_status (np_threads (start_threads sample_runs) ! 0) \<noteq> Returned"
    by (simp_all add: start_threads_def sample_runs_def)
  then show ?thesis using node_handlers_concurrent [OF sample_handler_runs node_reachable.Init] by blast
qed

end
