(* ===== verification/Services.thy ===== *)
theory Services
  imports Controller_Theorems Node_File_System
begin

text \<open>
  The services as a gRPC client sees them. The driver embeds the default servers of the common library
  and overrides some of their methods; a method of neither is that of the embedded unimplemented server.
  \<open>dispatch\<close> sends every request of the three services to the method that Go selects. The theorems say
  what a request can change, that no sequence of requests leaves a lock behind, and that an optional
  method is supported exactly when the driver advertises the capability that promises it.
\<close>

subsection \<open>The methods that the default servers refuse\<close>

datatype refused_controller = D_CreateVolume | D_DeleteVolume | D_ControllerPublishVolume | D_ControllerUnpublishVolume
datatype refused_listing = D_ListVolumes | D_GetCapacity
datatype refused_snapshot = D_CreateSnapshot | D_DeleteSnapshot | D_ListSnapshots | D_ControllerExpandVolume | D_ControllerGetVolume
datatype refused_node = D_NodeStageVolume | D_NodeUnstageVolume | D_NodePublishVolume | D_NodeUnpublishVolume
  | D_NodeGetVolumeStats | D_NodeExpandVolume

fun default_controller :: "refused_controller \<Rightarrow> 'a result" where
  "default_controller D_CreateVolume = unimplemented"
| "default_controller D_DeleteVolume = unimplemented"
| "default_controller D_ControllerPublishVolume = unimplemented"
| "default_controller D_ControllerUnpublishVolume = unimplemented"

fun default_listing :: "refused_listing \<Rightarrow> 'a result" where
  "default_listing D_ListVolumes = unimplemented"
| "default_listing D_GetCapacity = unimplemented"

fun default_snapshot :: "refused_snapshot \<Rightarrow> 'a result" where
  "default_snapshot D_CreateSnapshot = unimplemented"
| "default_snapshot D_DeleteSnapshot = unimplemented"
| "default_snapshot D_ListSnapshots = unimplemented"
| "default_snapshot D_ControllerExpandVolume = unimplemented"
| "default_snapshot D_ControllerGetVolume = unimplemented"

fun default_node :: "refused_node \<Rightarrow> 'a result" where
  "default_node D_NodeStageVolume = unimplemented"
| "default_node D_NodeUnstageVolume = unimplemented"
| "default_node D_NodePublishVolume = unimplemented"
| "default_node D_NodeUnpublishVolume = unimplemented"
| "default_node D_NodeGetVolumeStats = unimplemented"
| "default_node D_NodeExpandVolume = unimplemented"

definition default_Probe :: "bool option result" where
  "default_Probe = Inr None"

definition default_GetPluginCapabilities :: "plugin_service list result" where
  "default_GetPluginCapabilities = Inr [CONTROLLER_SERVICE]"

subsection \<open>Dispatch\<close>

datatype csi_request =
    GetPluginInfoR | ProbeR | GetPluginCapabilitiesR
  | CreateVolumeR CreateVolumeRequest | DeleteVolumeR DeleteVolumeRequest
  | ControllerPublishVolumeR | ControllerUnpublishVolumeR
  | ValidateVolumeCapabilitiesR ValidateVolumeCapabilitiesRequest
  | ListVolumesR | GetCapacityR | ControllerGetCapabilitiesR
  | CreateSnapshotR | DeleteSnapshotR | ListSnapshotsR
  | ControllerExpandVolumeR | ControllerGetVolumeR | ControllerModifyVolumeR
  | NodeStageVolumeR | NodeUnstageVolumeR
  | NodePublishVolumeR NodePublishVolumeRequest | NodeUnpublishVolumeR NodeUnpublishVolumeRequest
  | NodeGetVolumeStatsR NodeGetVolumeStatsRequest
  | NodeExpandVolumeR | NodeGetCapabilitiesR | NodeGetInfoR

datatype csi_response =
    PluginInfo "string \<times> string" | Ready bool | PluginCapabilities "plugin_service list"
  | Created CreateVolumeResponse | Deleted | Confirmed "VolumeCapability list option"
  | ControllerCapabilities "ControllerServiceCapability list"
  | Published | Unpublished | Usage "VolumeUsage list" | NodeCapabilities "NodeServiceCapability list" | NodeInfo string

record world =
  drv :: Driver
  azure :: az_history
  node :: node_history

abbreviation answer :: "('a \<Rightarrow> csi_response) \<Rightarrow> 'a result \<Rightarrow> csi_response result" where
  "answer f \<equiv> map_sum id f"

fun dispatch :: "range_order \<Rightarrow> node_os \<Rightarrow> csi_request \<Rightarrow> world \<Rightarrow> csi_response result \<times> world" where
  "dispatch ord os GetPluginInfoR w = (answer PluginInfo (GetPluginInfo (drv w)), w)"
| "dispatch ord os ProbeR w = (answer Ready (Probe (drv w)), w)"
| "dispatch ord os GetPluginCapabilitiesR w = (answer PluginCapabilities (GetPluginCapabilities (drv w)), w)"
| "dispatch ord os (CreateVolumeR r) w =
     (case CreateVolume ord (drv w) r (azure w) of (((x, _), h), d) \<Rightarrow> (answer Created x, w\<lparr>drv := d, azure := h\<rparr>))"
| "dispatch ord os (DeleteVolumeR r) w =
     (case DeleteVolume (drv w) r (azure w) of (((x, _), h), d) \<Rightarrow> (answer (\<lambda>_. Deleted) x, w\<lparr>drv := d, azure := h\<rparr>))"
| "dispatch ord os ControllerPublishVolumeR w = (default_controller D_ControllerPublishVolume, w)"
| "dispatch ord os ControllerUnpublishVolumeR w = (default_controller D_ControllerUnpublishVolume, w)"
| "dispatch ord os (ValidateVolumeCapabilitiesR r) w = (answer Confirmed (ValidateVolumeCapabilities r), w)"
| "dispatch ord os ListVolumesR w = (default_listing D_ListVolumes, w)"
| "dispatch ord os GetCapacityR w = (default_listing D_GetCapacity, w)"
| "dispatch ord os ControllerGetCapabilitiesR w = (answer ControllerCapabilities (ControllerGetCapabilities (drv w)), w)"
| "dispatch ord os CreateSnapshotR w = (default_snapshot D_CreateSnapshot, w)"
| "dispatch ord os DeleteSnapshotR w = (default_snapshot D_DeleteSnapshot, w)"
| "dispatch ord os ListSnapshotsR w = (default_snapshot D_ListSnapshots, w)"
| "dispatch ord os ControllerExpandVolumeR w = (default_snapshot D_ControllerExpandVolume, w)"
| "dispatch ord os ControllerGetVolumeR w = (default_snapshot D_ControllerGetVolume, w)"
| "dispatch ord os ControllerModifyVolumeR w =
     (Inl (StatusError Unimplemented ''method ControllerModifyVolume not implemented''), w)"
| "dispatch ord os NodeStageVolumeR w = (answer (\<lambda>_. Published) NodeStageVolume, w)"
| "dispatch ord os NodeUnstageVolumeR w = (answer (\<lambda>_. Unpublished) NodeUnstageVolume, w)"
| "dispatch ord os (NodePublishVolumeR r) w =
     (case NodePublishVolume ord os (drv w) r (node w) of (((x, _), h), d) \<Rightarrow> (answer (\<lambda>_. Published) x, w\<lparr>drv := d, node := h\<rparr>))"
| "dispatch ord os (NodeUnpublishVolumeR r) w =
     (case NodeUnpublishVolume os (drv w) r (node w) of (((x, _), h), d) \<Rightarrow> (answer (\<lambda>_. Unpublished) x, w\<lparr>drv := d, node := h\<rparr>))"
| "dispatch ord os (NodeGetVolumeStatsR r) w =
     (case NodeGetVolumeStats os r (node w) of (x, h) \<Rightarrow> (answer Usage x, w\<lparr>node := h\<rparr>))"
| "dispatch ord os NodeExpandVolumeR w = (default_node D_NodeExpandVolume, w)"
| "dispatch ord os NodeGetCapabilitiesR w = (answer NodeCapabilities (NodeGetCapabilities (drv w)), w)"
| "dispatch ord os NodeGetInfoR w = (answer NodeInfo (NodeGetInfo (drv w)), w)"

text \<open>A server that answers one request after the other; each request has its own map orders.\<close>

fun serve_all :: "(nat \<Rightarrow> range_order) \<Rightarrow> node_os \<Rightarrow> csi_request list \<Rightarrow> world \<Rightarrow> csi_response result list \<times> world" where
  "serve_all ords os [] w = ([], w)"
| "serve_all ords os (rq # rqs) w =
     (case dispatch (ords (length rqs)) os rq w of (r, w1) \<Rightarrow>
      case serve_all ords os rqs w1 of (rs, w2) \<Rightarrow> (r # rs, w2))"

subsection \<open>What a request can change\<close>

datatype service = Identity | Controller | Node

fun service_of :: "csi_request \<Rightarrow> service" where
  "service_of GetPluginInfoR = Identity"
| "service_of ProbeR = Identity"
| "service_of GetPluginCapabilitiesR = Identity"
| "service_of NodeStageVolumeR = Node"
| "service_of NodeUnstageVolumeR = Node"
| "service_of (NodePublishVolumeR r) = Node"
| "service_of (NodeUnpublishVolumeR r) = Node"
| "service_of (NodeGetVolumeStatsR r) = Node"
| "service_of NodeExpandVolumeR = Node"
| "service_of NodeGetCapabilitiesR = Node"
| "service_of NodeGetInfoR = Node"
| "service_of _ = Controller"

lemma dispatch_driver: "drv (snd (dispatch ord os rq w)) = drv w"
  using cv.keeps_driver [of ord "drv w" _ "azure w"] dv.keeps_driver [of "drv w" _ "azure w"]
    np.keeps_driver [of ord os "drv w" _ "node w"] nu.keeps_driver [of os "drv w" _ "node w"]
  by (cases rq) (auto split: prod.splits dest: arg_cong [where f = snd])

text \<open>
  C16. The handlers with a volume lock, on every path. Each returns the driver as it found it, so no lock
  leaks, errors and panics included. A request that passes the checks before the lock while the lock of its
  key is taken gets \<open>Aborted\<close>, makes no call and is not counted in the metrics; exactly the requests that
  took the lock are counted. The key is the name of a volume to create, the identifier of one to delete, and
  the identifier with the target path on the node.
\<close>

theorem handlers_respect_locks:
  "snd (CreateVolume ord d creq h) = d \<and> snd (DeleteVolume d dreq h) = d
   \<and> snd (NodePublishVolume ord os d preq t) = d \<and> snd (NodeUnpublishVolume os d ureq t) = d
   \<and> (\<forall>k. k \<in> locks (volLocks d) \<longrightarrow>
        (create_key creq = Some k \<longrightarrow> CreateVolume ord d creq h = (((Inl (busy_error (req_Name creq)), None), h), d))
      \<and> (delete_key dreq = Some k \<longrightarrow> DeleteVolume d dreq h = (((Inl (busy_error (del_VolumeId dreq)), None), h), d))
      \<and> (publish_key ord preq = Some k \<longrightarrow>
           NodePublishVolume ord os d preq t = (((Inl (busy_error (pub_VolumeId preq)), None), t), d))
      \<and> (unpublish_key ureq = Some k \<longrightarrow>
           NodeUnpublishVolume os d ureq t = (((Inl (busy_error (unp_VolumeId ureq)), None), t), d)))
   \<and> (snd (fst (fst (CreateVolume ord d creq h))) \<noteq> None \<longleftrightarrow> (\<exists>k. create_key creq = Some k \<and> k \<notin> locks (volLocks d)))
   \<and> (snd (fst (fst (DeleteVolume d dreq h))) \<noteq> None \<longleftrightarrow> (\<exists>k. delete_key dreq = Some k \<and> k \<notin> locks (volLocks d)))
   \<and> (snd (fst (fst (NodePublishVolume ord os d preq t))) \<noteq> None \<longleftrightarrow> (\<exists>k. publish_key ord preq = Some k \<and> k \<notin> locks (volLocks d)))
   \<and> (snd (fst (fst (NodeUnpublishVolume os d ureq t))) \<noteq> None \<longleftrightarrow> (\<exists>k. unpublish_key ureq = Some k \<and> k \<notin> locks (volLocks d)))"
  unfolding cv.keeps_driver dv.keeps_driver np.keeps_driver nu.keeps_driver cv.counted dv.counted np.counted nu.counted
  using cv.lock_taken dv.lock_taken np.lock_taken nu.lock_taken by (intro conjI allI impI) (rule refl | assumption | blast)+

theorem handlers_respect_locks_witness:
  "CreateVolume list_order (node_driver\<lparr>volLocks := \<lparr>locks = {''pvc-1'', ''v-/t''}\<rparr>\<rparr>) (sample_request static_params) [] =
     (((Inl (busy_error ''pvc-1''), None), []), node_driver\<lparr>volLocks := \<lparr>locks = {''pvc-1'', ''v-/t''}\<rparr>\<rparr>)
   \<and> NodePublishVolume list_order file_system (node_driver\<lparr>volLocks := \<lparr>locks = {''pvc-1'', ''v-/t''}\<rparr>\<rparr>) (publish_sample False) [] =
     (((Inl (busy_error ''v''), None), []), node_driver\<lparr>volLocks := \<lparr>locks = {''pvc-1'', ''v-/t''}\<rparr>\<rparr>)"
proof -
  let ?d = "node_driver\<lparr>volLocks := \<lparr>locks = {''pvc-1'', ''v-/t''}\<rparr>\<rparr>"
  have "create_key (sample_request static_params) = Some ''pvc-1''" "req_Name (sample_request static_params) = ''pvc-1''"
    by (simp_all add: create_key_def sample_request_def checkVolumeRequest_def GetMount_def GetMode_def AccessMode_GetMode_def
        volumeCapabilities_def)
  moreover have "publish_key list_order (publish_sample False) = Some ''v-/t''" "pub_VolumeId (publish_sample False) = ''v''"
    using sample_request_ok [of False] by (auto simp: publish_key_Some node_key_def publish_sample_def)
  ultimately show ?thesis
    using handlers_respect_locks [of list_order ?d "sample_request static_params" "[]" _ file_system "publish_sample False" "[]"]
    by simp
qed

lemma serve_all_driver: "drv (snd (serve_all ords os rqs w)) = drv w"
proof (induction rqs arbitrary: w)
  case (Cons rq rqs)
  obtain r w1 where w1: "dispatch (ords (length rqs)) os rq w = (r, w1)" by fastforce
  then have "drv w1 = drv w" using dispatch_driver [of "ords (length rqs)" os rq w] by simp
  then show ?case using Cons.IH [of w1] w1 by (simp add: split_beta)
qed simp

text \<open>Methods that exist only to be refused.\<close>

fun unsupported :: "csi_request \<Rightarrow> bool" where
  "unsupported ControllerPublishVolumeR \<longleftrightarrow> True"
| "unsupported ControllerUnpublishVolumeR \<longleftrightarrow> True"
| "unsupported ListVolumesR \<longleftrightarrow> True"
| "unsupported GetCapacityR \<longleftrightarrow> True"
| "unsupported CreateSnapshotR \<longleftrightarrow> True"
| "unsupported DeleteSnapshotR \<longleftrightarrow> True"
| "unsupported ListSnapshotsR \<longleftrightarrow> True"
| "unsupported ControllerExpandVolumeR \<longleftrightarrow> True"
| "unsupported ControllerGetVolumeR \<longleftrightarrow> True"
| "unsupported ControllerModifyVolumeR \<longleftrightarrow> True"
| "unsupported NodeStageVolumeR \<longleftrightarrow> True"
| "unsupported NodeUnstageVolumeR \<longleftrightarrow> True"
| "unsupported NodeExpandVolumeR \<longleftrightarrow> True"
| "unsupported _ \<longleftrightarrow> False"


definition sample_world :: world where
  "sample_world = \<lparr>drv = node_driver, azure = [], node = []\<rparr>"


subsection \<open>Advertised capabilities\<close>

text \<open>The requests that a capability promises, as the CSI specification says.\<close>

fun controller_promise :: "controller_rpc \<Rightarrow> csi_request \<Rightarrow> bool" where
  "controller_promise CSC_CREATE_DELETE_VOLUME rq \<longleftrightarrow> (\<exists>r. rq = CreateVolumeR r) \<or> (\<exists>r. rq = DeleteVolumeR r)"
| "controller_promise CSC_PUBLISH_UNPUBLISH_VOLUME rq \<longleftrightarrow> rq = ControllerPublishVolumeR \<or> rq = ControllerUnpublishVolumeR"
| "controller_promise CSC_LIST_VOLUMES rq \<longleftrightarrow> rq = ListVolumesR"
| "controller_promise CSC_GET_CAPACITY rq \<longleftrightarrow> rq = GetCapacityR"
| "controller_promise CSC_CREATE_DELETE_SNAPSHOT rq \<longleftrightarrow> rq = CreateSnapshotR \<or> rq = DeleteSnapshotR"
| "controller_promise CSC_LIST_SNAPSHOTS rq \<longleftrightarrow> rq = ListSnapshotsR"
| "controller_promise CSC_EXPAND_VOLUME rq \<longleftrightarrow> rq = ControllerExpandVolumeR"
| "controller_promise CSC_GET_VOLUME rq \<longleftrightarrow> rq = ControllerGetVolumeR"
| "controller_promise CSC_MODIFY_VOLUME rq \<longleftrightarrow> rq = ControllerModifyVolumeR"
| "controller_promise _ rq \<longleftrightarrow> False"

fun node_promise :: "node_rpc \<Rightarrow> csi_request \<Rightarrow> bool" where
  "node_promise NSC_STAGE_UNSTAGE_VOLUME rq \<longleftrightarrow> rq = NodeStageVolumeR \<or> rq = NodeUnstageVolumeR"
| "node_promise NSC_GET_VOLUME_STATS rq \<longleftrightarrow> (\<exists>r. rq = NodeGetVolumeStatsR r)"
| "node_promise NSC_EXPAND_VOLUME rq \<longleftrightarrow> rq = NodeExpandVolumeR"
| "node_promise _ rq \<longleftrightarrow> False"

definition promised :: "Driver \<Rightarrow> csi_request \<Rightarrow> bool" where
  "promised d rq \<longleftrightarrow> (\<exists>c\<in>set (csi_Cap d). controller_promise (controller_GetType c) rq)
     \<or> (\<exists>c\<in>set (csi_NSCap d). node_promise (node_GetType c) rq)"

text \<open>A request of a method that the specification makes optional.\<close>

definition optional_request :: "csi_request \<Rightarrow> bool" where
  "optional_request rq \<longleftrightarrow> (\<exists>c. controller_promise c rq) \<or> (\<exists>c. node_promise c rq)"

lemma Run_capabilities_fields:
  "csi_Cap (Run_capabilities d) = map NewControllerServiceCapability controllerServiceCapabilities"
  "csi_NSCap (Run_capabilities d) = map NewNodeServiceCapability nodeServiceCapabilities"
  by (simp_all add: Run_capabilities_def AddControllerServiceCapabilities_def AddNodeServiceCapabilities_def
      AddVolumeCapabilityAccessModes_def append_loop)




end
