(* ===== verification/Grpc_Server.thy ===== *)
theory Grpc_Server
  imports Services "HOL-Library.Sublist"
begin

text \<open>
  The non-blocking gRPC server of the common library (\<open>server.go\<close>) and the starters of \<open>utils.go\<close>.
  \<open>serve\<close> is the code of the serving goroutine run on its own. The goroutines as the process has them
  (the caller of \<open>Start\<close> and \<open>Wait\<close>, the serving goroutine, the goroutine that stops the server in test
  mode, and callers of \<open>Stop\<close> and \<open>ForceStop\<close>) are the steps of a transition relation in which every step
  is one statement that touches what the goroutines share: the wait group, the pointer to the server,
  the network. The theorems relate the two and say when \<open>Wait\<close> returns and how a server ends.

  The server of the gRPC library is known by what it is told: the services that were registered and the
  calls that stop it. Network calls are events with the error they returned, and \<open>Serve\<close> returns no
  error only when the server was stopped, as the library documents. \<open>klog.Fatal\<close> ends the process.
\<close>

subsection \<open>The server object\<close>

datatype net_call = NetRemove string | NetListen string string | NetServe

type_synonym net_history = "(net_call \<times> go_error option) list"

record net_os =
  net_Err :: "net_history \<Rightarrow> net_call \<Rightarrow> go_error option"

definition net_do :: "net_os \<Rightarrow> net_call \<Rightarrow> net_history \<Rightarrow> go_error option \<times> net_history" where
  "net_do os c h = (net_Err os h c, h @ [(c, net_Err os h c)])"

text \<open>An interface value is the default identity server or a server that the caller brings.\<close>

datatype 'a csi_server = DefaultIdentity DefaultIdentityServer | Own 'a

datatype stop_call = GracefulStop | ForcedStop

record 'a grpc_server =
  gs_services :: "(service \<times> 'a csi_server) list"
  gs_stops :: "stop_call list"

record 'a nonBlockingGRPCServer =
  srv_wg :: nat
  srv_server :: "'a grpc_server option"

definition NewNonBlockingGRPCServer :: "'a nonBlockingGRPCServer" where
  "NewNonBlockingGRPCServer = \<lparr>srv_wg = 0, srv_server = None\<rparr>"

text \<open>The arguments of \<open>Start\<close>; a nil server is \<open>None\<close>.\<close>

record 'a serve_args =
  sa_endpoint :: string
  sa_ids :: "'a csi_server option"
  sa_cs :: "'a csi_server option"
  sa_ns :: "'a csi_server option"
  sa_testMode :: bool

fun sa_service :: "'a serve_args \<Rightarrow> service \<Rightarrow> 'a csi_server option" where
  "sa_service a Identity = sa_ids a"
| "sa_service a Controller = sa_cs a"
| "sa_service a Node = sa_ns a"

definition register :: "'a serve_args \<Rightarrow> service \<Rightarrow> 'a grpc_server \<Rightarrow> 'a grpc_server" where
  "register a k g =
     (case sa_service a k of None \<Rightarrow> g | Some i \<Rightarrow> g\<lparr>gs_services := gs_services g @ [(k, i)]\<rparr>)"

definition NewServer :: "'a grpc_server" where
  "NewServer = \<lparr>gs_services = [], gs_stops = []\<rparr>"

subsection \<open>The serving goroutine on its own\<close>

text \<open>
  \<open>serve\<close> up to the return of \<open>Serve\<close>, with the message of a fatal end. In test mode the wait group is
  given back; the goroutine that is started there stops the server later and is not part of this run.
\<close>

definition serve_listen ::
    "net_os \<Rightarrow> 'a serve_args \<Rightarrow> string \<Rightarrow> string \<Rightarrow> 'a nonBlockingGRPCServer \<Rightarrow> net_history
      \<Rightarrow> string option \<times> 'a nonBlockingGRPCServer \<times> net_history" where
  "serve_listen os a proto addr s h =
     (case net_do os (NetListen proto addr) h of
        (Some err, h1) \<Rightarrow> (Some (''Failed to listen: '' @ error_text err), s, h1)
      | (None, h1) \<Rightarrow>
          (let s1 = s\<lparr>srv_server := Some (register a Node (register a Controller (register a Identity NewServer)))\<rparr>;
               s2 = (if sa_testMode a then s1\<lparr>srv_wg := srv_wg s1 - 1\<rparr> else s1)
           in (None, s2, snd (net_do os NetServe h1))))"

definition serve ::
    "net_os \<Rightarrow> 'a serve_args \<Rightarrow> 'a nonBlockingGRPCServer \<Rightarrow> net_history
      \<Rightarrow> string option \<times> 'a nonBlockingGRPCServer \<times> net_history" where
  "serve os a s h =
     (case ParseEndpoint (sa_endpoint a) of
        Inl err \<Rightarrow> (Some (error_text err), s, h)
      | Inr (proto, addr0) \<Rightarrow>
          if proto = ''unix'' then
            (case net_do os (NetRemove (''/'' @ addr0)) h of
               (Some err, h1) \<Rightarrow>
                 if \<not> is_not_exist err
                 then (Some (''Failed to remove '' @ ''/'' @ addr0 @ '', error: '' @ error_text err), s, h1)
                 else serve_listen os a proto (''/'' @ addr0) s h1
             | (None, h1) \<Rightarrow> serve_listen os a proto (''/'' @ addr0) s h1)
          else serve_listen os a proto addr0 s h)"

definition Start ::
    "net_os \<Rightarrow> 'a serve_args \<Rightarrow> 'a nonBlockingGRPCServer \<Rightarrow> string option \<times> 'a nonBlockingGRPCServer \<times> net_history" where
  "Start os a s = serve os a (s\<lparr>srv_wg := srv_wg s + 1\<rparr>) []"

definition Wait_returns :: "'a nonBlockingGRPCServer \<Rightarrow> bool" where
  "Wait_returns s \<longleftrightarrow> srv_wg s = 0"

text \<open>The three starters of \<open>utils.go\<close>, up to their \<open>Wait\<close>: the identity server is the default one.\<close>

definition RunNodePublishServer ::
    "net_os \<Rightarrow> string \<Rightarrow> CSIDriver \<Rightarrow> 'a \<Rightarrow> bool \<Rightarrow> string option \<times> 'a nonBlockingGRPCServer \<times> net_history" where
  "RunNodePublishServer os endpoint d ns testMode =
     Start os \<lparr>sa_endpoint = endpoint, sa_ids = Some (DefaultIdentity (NewDefaultIdentityServer d)), sa_cs = None,
       sa_ns = Some (Own ns), sa_testMode = testMode\<rparr> NewNonBlockingGRPCServer"

definition RunControllerPublishServer ::
    "net_os \<Rightarrow> string \<Rightarrow> CSIDriver \<Rightarrow> 'a \<Rightarrow> bool \<Rightarrow> string option \<times> 'a nonBlockingGRPCServer \<times> net_history" where
  "RunControllerPublishServer os endpoint d cs testMode =
     Start os \<lparr>sa_endpoint = endpoint, sa_ids = Some (DefaultIdentity (NewDefaultIdentityServer d)), sa_cs = Some (Own cs),
       sa_ns = None, sa_testMode = testMode\<rparr> NewNonBlockingGRPCServer"

definition RunControllerandNodePublishServer ::
    "net_os \<Rightarrow> string \<Rightarrow> CSIDriver \<Rightarrow> 'a \<Rightarrow> 'a \<Rightarrow> bool \<Rightarrow> string option \<times> 'a nonBlockingGRPCServer \<times> net_history" where
  "RunControllerandNodePublishServer os endpoint d cs ns testMode =
     Start os \<lparr>sa_endpoint = endpoint, sa_ids = Some (DefaultIdentity (NewDefaultIdentityServer d)), sa_cs = Some (Own cs),
       sa_ns = Some (Own ns), sa_testMode = testMode\<rparr> NewNonBlockingGRPCServer"

subsection \<open>The goroutines\<close>

text \<open>Where the serving goroutine stands: the next statement of \<open>serve\<close> with the local variables it needs.\<close>

datatype serve_pc = AtParse | AtRemove string string | AtListen string string | AtNewServer | AtRegister service
  | AtTest | AtSpawn | AtServe | InServe | ServeReturned

datatype main_pc = AtStart | AtWait | WaitReturned

text \<open>The goroutine of test mode: it waits for the wait group, sleeps, stops the server.\<close>

datatype stopper_pc = StopperWait | StopperSleep | StopperStop | StopperReturned

datatype crash = FatalExit string | NilDereference | NegativeWaitGroup

record 'a process =
  p_srv :: "'a nonBlockingGRPCServer"
  p_net :: net_history
  p_main :: main_pc
  p_serve :: "serve_pc option"
  p_stopper :: "stopper_pc option"
  p_crash :: "crash option"

definition new_process :: "'a process" where
  "new_process = \<lparr>p_srv = NewNonBlockingGRPCServer, p_net = [], p_main = AtStart, p_serve = None, p_stopper = None, p_crash = None\<rparr>"

definition goto :: "serve_pc \<Rightarrow> 'a process \<Rightarrow> 'a process" where
  "goto pc p = p\<lparr>p_serve := Some pc\<rparr>"

definition die :: "crash \<Rightarrow> 'a process \<Rightarrow> 'a process" where
  "die c p = p\<lparr>p_crash := Some c\<rparr>"

definition stop_server :: "stop_call \<Rightarrow> 'a process \<Rightarrow> 'a process" where
  "stop_server c p =
     (case srv_server (p_srv p) of
        None \<Rightarrow> die NilDereference p
      | Some g \<Rightarrow> p\<lparr>p_srv := p_srv p\<lparr>srv_server := Some (g\<lparr>gs_stops := gs_stops g @ [c]\<rparr>)\<rparr>\<rparr>)"

definition Stop :: "'a process \<Rightarrow> 'a process" where
  "Stop p = stop_server GracefulStop p"

definition ForceStop :: "'a process \<Rightarrow> 'a process" where
  "ForceStop p = stop_server ForcedStop p"

definition stopped :: "'a process \<Rightarrow> bool" where
  "stopped p \<longleftrightarrow> (case srv_server (p_srv p) of None \<Rightarrow> False | Some g \<Rightarrow> gs_stops g \<noteq> [])"

fun after_register :: "service \<Rightarrow> serve_pc" where
  "after_register Identity = AtRegister Controller"
| "after_register Controller = AtRegister Node"
| "after_register Node = AtTest"

text \<open>One statement of \<open>serve\<close>; \<open>None\<close> when the goroutine cannot go on now.\<close>

fun serve_step :: "net_os \<Rightarrow> 'a serve_args \<Rightarrow> serve_pc \<Rightarrow> 'a process \<Rightarrow> 'a process option" where
  "serve_step os a AtParse p =
     Some (case ParseEndpoint (sa_endpoint a) of
             Inl err \<Rightarrow> die (FatalExit (error_text err)) p
           | Inr (proto, addr) \<Rightarrow> goto (if proto = ''unix'' then AtRemove proto (''/'' @ addr) else AtListen proto addr) p)"
| "serve_step os a (AtRemove proto addr) p =
     (case net_do os (NetRemove addr) (p_net p) of (r, h) \<Rightarrow>
        Some (case r of
                Some err \<Rightarrow>
                  if \<not> is_not_exist err
                  then die (FatalExit (''Failed to remove '' @ addr @ '', error: '' @ error_text err)) (p\<lparr>p_net := h\<rparr>)
                  else goto (AtListen proto addr) (p\<lparr>p_net := h\<rparr>)
              | None \<Rightarrow> goto (AtListen proto addr) (p\<lparr>p_net := h\<rparr>)))"
| "serve_step os a (AtListen proto addr) p =
     (case net_do os (NetListen proto addr) (p_net p) of (r, h) \<Rightarrow>
        Some (case r of
                Some err \<Rightarrow> die (FatalExit (''Failed to listen: '' @ error_text err)) (p\<lparr>p_net := h\<rparr>)
              | None \<Rightarrow> goto AtNewServer (p\<lparr>p_net := h\<rparr>)))"
| "serve_step os a AtNewServer p =
     Some (goto (AtRegister Identity) (p\<lparr>p_srv := p_srv p\<lparr>srv_server := Some NewServer\<rparr>\<rparr>))"
| "serve_step os a (AtRegister k) p =
     Some (goto (after_register k) (p\<lparr>p_srv := p_srv p\<lparr>srv_server := map_option (register a k) (srv_server (p_srv p))\<rparr>\<rparr>))"
| "serve_step os a AtTest p =
     Some (if \<not> sa_testMode a then goto AtServe p
           else if srv_wg (p_srv p) = 0 then die NegativeWaitGroup p
           else goto AtSpawn (p\<lparr>p_srv := p_srv p\<lparr>srv_wg := srv_wg (p_srv p) - 1\<rparr>\<rparr>))"
| "serve_step os a AtSpawn p = Some (goto AtServe (p\<lparr>p_stopper := Some StopperWait\<rparr>))"
| "serve_step os a AtServe p = Some (goto InServe p)"
| "serve_step os a InServe p =
     (case net_do os NetServe (p_net p) of (r, h) \<Rightarrow>
        if r = None \<and> \<not> stopped p then None else Some (goto ServeReturned (p\<lparr>p_net := h\<rparr>)))"
| "serve_step os a ServeReturned p = None"

fun stopper_step :: "stopper_pc \<Rightarrow> 'a process \<Rightarrow> 'a process option" where
  "stopper_step StopperWait p = (if srv_wg (p_srv p) = 0 then Some (p\<lparr>p_stopper := Some StopperSleep\<rparr>) else None)"
| "stopper_step StopperSleep p = Some (p\<lparr>p_stopper := Some StopperStop\<rparr>)"
| "stopper_step StopperStop p = Some (stop_server GracefulStop (p\<lparr>p_stopper := Some StopperReturned\<rparr>))"
| "stopper_step StopperReturned p = None"

text \<open>The caller: \<open>Start\<close> adds to the wait group and starts the serving goroutine, \<open>Wait\<close> waits.\<close>

fun main_step :: "main_pc \<Rightarrow> 'a process \<Rightarrow> 'a process option" where
  "main_step AtStart p =
     Some (p\<lparr>p_srv := p_srv p\<lparr>srv_wg := srv_wg (p_srv p) + 1\<rparr>, p_serve := Some AtParse, p_main := AtWait\<rparr>)"
| "main_step AtWait p = (if srv_wg (p_srv p) = 0 then Some (p\<lparr>p_main := WaitReturned\<rparr>) else None)"
| "main_step WaitReturned p = None"

text \<open>
  One step of the process. With \<open>ext\<close> other goroutines may call \<open>Stop\<close> and \<open>ForceStop\<close> at any time;
  the driver itself has no such call.
\<close>

inductive server_step :: "bool \<Rightarrow> net_os \<Rightarrow> 'a serve_args \<Rightarrow> 'a process \<Rightarrow> 'a process \<Rightarrow> bool"
  for ext os a where
  Main: "p_crash p = None \<Longrightarrow> main_step (p_main p) p = Some q \<Longrightarrow> server_step ext os a p q"
| Serve: "p_crash p = None \<Longrightarrow> p_serve p = Some pc \<Longrightarrow> serve_step os a pc p = Some q \<Longrightarrow> server_step ext os a p q"
| Stopper: "p_crash p = None \<Longrightarrow> p_stopper p = Some k \<Longrightarrow> stopper_step k p = Some q \<Longrightarrow> server_step ext os a p q"
| CallStop: "p_crash p = None \<Longrightarrow> ext \<Longrightarrow> server_step ext os a p (Stop p)"
| CallForceStop: "p_crash p = None \<Longrightarrow> ext \<Longrightarrow> server_step ext os a p (ForceStop p)"

inductive server_reachable :: "bool \<Rightarrow> net_os \<Rightarrow> 'a serve_args \<Rightarrow> 'a process \<Rightarrow> bool"
  for ext os a where
  Init: "server_reachable ext os a new_process"
| Step: "server_reachable ext os a p \<Longrightarrow> server_step ext os a p q \<Longrightarrow> server_reachable ext os a q"

subsection \<open>The invariant of the goroutines\<close>

text \<open>
  The steps are taken by case analysis on the goroutine that moves and its program counter, and the state
  is read through four projections.
\<close>

abbreviation wg :: "'a process \<Rightarrow> nat" where
  "wg p \<equiv> srv_wg (p_srv p)"

definition services :: "'a process \<Rightarrow> (service \<times> 'a csi_server) list option" where
  "services p = map_option gs_services (srv_server (p_srv p))"

definition registered :: "'a serve_args \<Rightarrow> service list \<Rightarrow> (service \<times> 'a csi_server) list" where
  "registered a ks = concat (map (\<lambda>k. case sa_service a k of None \<Rightarrow> [] | Some i \<Rightarrow> [(k, i)]) ks)"

fun before_register :: "service \<Rightarrow> service list" where
  "before_register Identity = []"
| "before_register Controller = [Identity]"
| "before_register Node = [Identity, Controller]"

abbreviation all_services :: "service list" where
  "all_services \<equiv> [Identity, Controller, Node]"

abbreviation serving_inv :: "'a serve_args \<Rightarrow> 'a process \<Rightarrow> bool" where
  "serving_inv a p \<equiv> services p = Some (registered a all_services) \<and>
     (if sa_testMode a then p_main p \<noteq> AtStart \<and> wg p = 0 \<and> p_stopper p \<noteq> None
      else p_main p = AtWait \<and> wg p = 1 \<and> p_stopper p = None)"

text \<open>What holds of the process while the serving goroutine is at a program counter.\<close>

fun serve_inv :: "'a serve_args \<Rightarrow> serve_pc option \<Rightarrow> 'a process \<Rightarrow> bool" where
  "serve_inv a None p \<longleftrightarrow> p_main p = AtStart \<and> wg p = 0 \<and> services p = None \<and> p_stopper p = None \<and> p_net p = []"
| "serve_inv a (Some (AtRegister k)) p \<longleftrightarrow>
     p_main p = AtWait \<and> wg p = 1 \<and> services p = Some (registered a (before_register k)) \<and> p_stopper p = None"
| "serve_inv a (Some AtTest) p \<longleftrightarrow>
     p_main p = AtWait \<and> wg p = 1 \<and> services p = Some (registered a all_services) \<and> p_stopper p = None"
| "serve_inv a (Some AtSpawn) p \<longleftrightarrow>
     p_main p \<noteq> AtStart \<and> wg p = 0 \<and> services p = Some (registered a all_services) \<and> p_stopper p = None \<and> sa_testMode a"
| "serve_inv a (Some AtServe) p \<longleftrightarrow> serving_inv a p"
| "serve_inv a (Some InServe) p \<longleftrightarrow> serving_inv a p"
| "serve_inv a (Some ServeReturned) p \<longleftrightarrow> serving_inv a p"
| "serve_inv a (Some pc) p \<longleftrightarrow> p_main p = AtWait \<and> wg p = 1 \<and> services p = None \<and> p_stopper p = None"

definition process_inv :: "bool \<Rightarrow> 'a serve_args \<Rightarrow> 'a process \<Rightarrow> bool" where
  "process_inv ext a p \<longleftrightarrow> serve_inv a (p_serve p) p
     \<and> (p_stopper p = Some StopperReturned \<longrightarrow> stopped p)
     \<and> p_crash p \<noteq> Some NegativeWaitGroup
     \<and> (p_crash p = Some NilDereference \<longrightarrow> ext \<and> services p = None)"

lemma register_services: "gs_services (register a k g) = gs_services g @ registered a [k]"
  by (simp add: register_def registered_def split: option.splits)

lemma registered_append: "registered a (ks @ ls) = registered a ks @ registered a ls"
  by (simp add: registered_def)

lemma registered_after:
  "registered a (before_register k) @ registered a [k]
     = (case after_register k of AtRegister k' \<Rightarrow> registered a (before_register k') | _ \<Rightarrow> registered a all_services)"
  by (cases k) (simp_all add: registered_append [symmetric])

lemma services_simps [simp]:
  "services (p\<lparr>p_net := h\<rparr>) = services p" "services (p\<lparr>p_serve := x\<rparr>) = services p"
  "services (p\<lparr>p_stopper := k\<rparr>) = services p" "services (p\<lparr>p_main := m\<rparr>) = services p"
  "services (p\<lparr>p_crash := c\<rparr>) = services p" "services (p\<lparr>p_srv := p_srv p\<lparr>srv_wg := n\<rparr>\<rparr>) = services p"
  "services (stop_server sc p) = services p"
  by (simp_all add: services_def stop_server_def die_def split: option.splits)

lemma stop_server_simps [simp]:
  "p_main (stop_server c p) = p_main p" "p_serve (stop_server c p) = p_serve p" "p_net (stop_server c p) = p_net p"
  "p_stopper (stop_server c p) = p_stopper p" "wg (stop_server c p) = wg p"
  by (simp_all add: stop_server_def die_def split: option.splits)

lemma serve_inv_cong:
  assumes "p_main q = p_main p" "wg q = wg p" "services q = services p" "p_stopper q = p_stopper p" "p_net q = p_net p"
  shows "serve_inv a x q = serve_inv a x p"
  using assms by (cases "(a, x, p)" rule: serve_inv.cases) auto

lemma stopped_simps [simp]:
  "stopped (p\<lparr>p_net := h\<rparr>) = stopped p" "stopped (p\<lparr>p_serve := x\<rparr>) = stopped p"
  "stopped (p\<lparr>p_stopper := k\<rparr>) = stopped p" "stopped (p\<lparr>p_main := m\<rparr>) = stopped p"
  "stopped (p\<lparr>p_crash := c\<rparr>) = stopped p" "stopped (p\<lparr>p_srv := p_srv p\<lparr>srv_wg := n\<rparr>\<rparr>) = stopped p"
  by (simp_all add: stopped_def)

lemma stopped_stop_server: "stopped (stop_server c p) \<longleftrightarrow> services p \<noteq> None"
  by (simp add: stopped_def stop_server_def die_def services_def split: option.splits)

lemma p_crash_stop_server: "p_crash (stop_server c p) = (if services p = None then Some NilDereference else p_crash p)"
  by (simp add: stop_server_def die_def services_def split: option.splits)

lemma stopped_services: "stopped p \<Longrightarrow> services p \<noteq> None"
  by (simp add: stopped_def services_def split: option.splits)

lemmas step_defs = goto_def die_def net_do_def

lemma serve_step_inv:
  assumes "process_inv ext a p" "p_crash p = None" "p_serve p = Some pc" "serve_step os a pc p = Some q"
  shows "process_inv ext a q"
proof (cases pc)
  case (AtRegister k)
  have "services q = Some (registered a (before_register k) @ registered a [k])"
    using assms AtRegister by (auto simp: process_inv_def step_defs services_def register_services)
  then show ?thesis using assms AtRegister unfolding registered_after
    by (cases k) (auto simp: process_inv_def step_defs)
next
  case AtNewServer
  then show ?thesis using assms by (auto simp: process_inv_def step_defs services_def NewServer_def registered_def)
qed (use assms in \<open>auto simp: process_inv_def step_defs split: sum.splits prod.splits option.splits if_splits\<close>)

lemma stopper_step_inv:
  assumes "process_inv ext a p" "p_crash p = None" "p_stopper p = Some k" "stopper_step k p = Some q"
  shows "process_inv ext a q"
proof -
  have sv: "services p \<noteq> None"
    using assms(1,3) by (cases "(a, p_serve p, p)" rule: serve_inv.cases) (auto simp: process_inv_def split: if_splits)
  have "serve_inv a (p_serve p) q"
    using assms by (cases k; cases "(a, p_serve p, p)" rule: serve_inv.cases)
      (auto simp: process_inv_def split: if_splits)
  then show ?thesis using assms sv
    by (cases k) (auto simp: process_inv_def stopped_stop_server p_crash_stop_server split: if_splits)
qed

lemma main_step_inv:
  assumes "process_inv ext a p" "p_crash p = None" "main_step (p_main p) p = Some q"
  shows "process_inv ext a q"
  using assms by (cases "p_main p"; cases "(a, p_serve p, p)" rule: serve_inv.cases)
    (auto simp: process_inv_def split: if_splits)

lemma stop_server_inv:
  assumes "process_inv ext a p" "p_crash p = None" ext
  shows "process_inv ext a (stop_server c p)"
  using assms serve_inv_cong [of "stop_server c p" p a "p_serve p"]
  by (auto simp: process_inv_def stopped_stop_server p_crash_stop_server dest: stopped_services)

lemma reachable_inv: "server_reachable ext os a p \<Longrightarrow> process_inv ext a p"
proof (induction rule: server_reachable.induct)
  case Init
  show ?case by (simp add: process_inv_def new_process_def NewNonBlockingGRPCServer_def services_def)
next
  case (Step p q)
  from Step(2) show ?case
  proof cases
    case Main
    then show ?thesis using Step main_step_inv by blast
  next
    case (Serve pc)
    then show ?thesis using Step serve_step_inv by blast
  next
    case (Stopper k)
    then show ?thesis using Step stopper_step_inv by blast
  next
    case CallStop
    then show ?thesis using Step stop_server_inv unfolding Stop_def by blast
  next
    case CallForceStop
    then show ?thesis using Step stop_server_inv unfolding ForceStop_def by blast
  qed
qed

subsection \<open>The goroutines against the serving code on its own\<close>

text \<open>What is left of \<open>serve\<close> at a program counter: the fatal message and the network calls in the end.\<close>

fun serve_rest :: "net_os \<Rightarrow> 'a serve_args \<Rightarrow> serve_pc \<Rightarrow> net_history \<Rightarrow> string option \<times> net_history" where
  "serve_rest os a AtParse h = (case serve os a NewNonBlockingGRPCServer h of (m, s, h') \<Rightarrow> (m, h'))"
| "serve_rest os a (AtRemove proto addr) h =
     (case net_do os (NetRemove addr) h of (r, h1) \<Rightarrow>
        (case r of
           Some err \<Rightarrow> if \<not> is_not_exist err then (Some (''Failed to remove '' @ addr @ '', error: '' @ error_text err), h1)
                       else (case serve_listen os a proto addr NewNonBlockingGRPCServer h1 of (m, s, h') \<Rightarrow> (m, h'))
         | None \<Rightarrow> (case serve_listen os a proto addr NewNonBlockingGRPCServer h1 of (m, s, h') \<Rightarrow> (m, h'))))"
| "serve_rest os a (AtListen proto addr) h = (case serve_listen os a proto addr NewNonBlockingGRPCServer h of (m, s, h') \<Rightarrow> (m, h'))"
| "serve_rest os a ServeReturned h = (None, h)"
| "serve_rest os a pc h = (None, snd (net_do os NetServe h))"

lemma serve_listen_result: "serve_listen os a proto addr s h = (m, s', h') \<Longrightarrow>
  (if m = None then s' = s\<lparr>srv_server := srv_server s', srv_wg := srv_wg s - (if sa_testMode a then 1 else 0)\<rparr>
     \<and> map_option gs_services (srv_server s') = Some (registered a all_services)
   else s' = s) \<and> serve_rest os a (AtListen proto addr) h = (m, h')"
  by (auto simp: serve_listen_def net_do_def Let_def register_services NewServer_def registered_append [symmetric]
      split: option.splits)

lemma serve_result: "serve os a s h = (m, s', h') \<Longrightarrow>
  (if m = None then s' = s\<lparr>srv_server := srv_server s', srv_wg := srv_wg s - (if sa_testMode a then 1 else 0)\<rparr>
     \<and> map_option gs_services (srv_server s') = Some (registered a all_services)
   else s' = s) \<and> serve_rest os a AtParse h = (m, h')"
  by (auto simp: serve_def net_do_def split: sum.splits option.splits if_splits prod.splits dest!: serve_listen_result)


definition rest_inv :: "net_os \<Rightarrow> 'a serve_args \<Rightarrow> 'a process \<Rightarrow> bool" where
  "rest_inv os a p \<longleftrightarrow>
     (case p_crash p of
        Some (FatalExit m) \<Rightarrow> serve_rest os a AtParse [] = (Some m, p_net p)
      | _ \<Rightarrow> (case p_serve p of None \<Rightarrow> p_net p = []
              | Some pc \<Rightarrow> serve_rest os a pc (p_net p) = serve_rest os a AtParse []))"

lemma rest_inv_cong:
  "p_net q = p_net p \<Longrightarrow> p_serve q = p_serve p \<Longrightarrow> p_crash p = None \<Longrightarrow> p_crash q \<in> {None, Some NilDereference}
     \<Longrightarrow> rest_inv os a p \<Longrightarrow> rest_inv os a q"
  by (auto simp: rest_inv_def split: option.splits)

lemma serve_step_rest:
  assumes "rest_inv os a p" "p_crash p = None" "p_serve p = Some pc" "serve_step os a pc p = Some q"
  shows "rest_inv os a q"
proof -
  have eq: "serve_rest os a pc (p_net p) = serve_rest os a AtParse []" using assms(1-3) by (simp add: rest_inv_def)
  show ?thesis
  proof (cases pc)
    case AtParse
    then show ?thesis using eq assms(2-4)
      by (auto simp: rest_inv_def step_defs serve_def split: sum.splits option.splits prod.splits if_splits)
  next
    case (AtRegister k)
    then show ?thesis using eq assms(2-4) by (cases k) (auto simp: rest_inv_def step_defs)
  qed (use eq assms(2-4) in \<open>auto simp: rest_inv_def step_defs serve_listen_def Let_def
         split: sum.splits option.splits prod.splits if_splits\<close>)
qed

lemma main_step_rest:
  assumes "process_inv ext a p" "rest_inv os a p" "p_crash p = None" "main_step (p_main p) p = Some q"
  shows "rest_inv os a q"
proof (cases "p_main p")
  case AtStart
  then have "p_net p = []" using assms(1)
    by (cases "(a, p_serve p, p)" rule: serve_inv.cases) (auto simp: process_inv_def split: if_splits)
  then show ?thesis using AtStart assms by (auto simp: rest_inv_def)
qed (use assms in \<open>auto intro!: rest_inv_cong [of _ p] split: if_splits\<close>)

lemma stopper_step_same:
  "stopper_step k p = Some q \<Longrightarrow> p_crash p = None \<Longrightarrow>
     p_net q = p_net p \<and> p_serve q = p_serve p \<and> p_crash q \<in> {None, Some NilDereference}"
  by (cases k) (auto simp: p_crash_stop_server split: if_splits)

lemma reachable_rest: "server_reachable ext os a p \<Longrightarrow> rest_inv os a p"
proof (induction rule: server_reachable.induct)
  case Init
  show ?case by (simp add: rest_inv_def new_process_def)
next
  case (Step p q)
  from Step(2) show ?case
  proof cases
    case Main
    then show ?thesis using Step main_step_rest reachable_inv by blast
  next
    case (Serve pc)
    then show ?thesis using Step serve_step_rest by blast
  next
    case (Stopper k)
    then show ?thesis using Step.IH stopper_step_same rest_inv_cong by metis
  qed (use Step.IH in \<open>auto simp: Stop_def ForceStop_def p_crash_stop_server intro!: rest_inv_cong [of _ p] split: if_splits\<close>)
qed

lemma serve_rest_prefix: "prefix h (snd (serve_rest os a pc h))"
  by (cases pc) (auto simp: net_do_def serve_def serve_listen_def Let_def split: sum.splits option.splits prod.splits)


subsection \<open>When Wait returns and how a server ends\<close>

text \<open>
  C35. The contract of \<open>Wait\<close>. Outside of test mode \<open>Wait\<close> never returns, even after the server was stopped;
  in test mode it returns only after the server object exists with all its services. The wait group never
  becomes negative. The only way to a nil dereference is a call of \<open>Stop\<close> or \<open>ForceStop\<close> from outside before
  the serving goroutine has stored the server; the goroutines of the library never cause one.
\<close>

theorem server_wait_contract:
  assumes "server_reachable ext os a p"
  shows "(p_main p = WaitReturned \<longrightarrow> sa_testMode a \<and> services p = Some (registered a all_services))
    \<and> wg p \<le> 1 \<and> p_crash p \<noteq> Some NegativeWaitGroup
    \<and> (p_crash p = Some NilDereference \<longrightarrow> ext \<and> services p = None)"
  using reachable_inv [OF assms]
  by (cases "(a, p_serve p, p)" rule: serve_inv.cases) (auto simp: process_inv_def split: if_splits)

text \<open>Every step of the goroutines of the library moves one of them forward.\<close>

fun main_rank :: "main_pc \<Rightarrow> nat" where
  "main_rank AtStart = 2" | "main_rank AtWait = 1" | "main_rank WaitReturned = 0"

fun serve_rank :: "serve_pc option \<Rightarrow> nat" where
  "serve_rank None = 13" | "serve_rank (Some AtParse) = 12" | "serve_rank (Some (AtRemove proto addr)) = 11"
| "serve_rank (Some (AtListen proto addr)) = 10" | "serve_rank (Some AtNewServer) = 9"
| "serve_rank (Some (AtRegister Identity)) = 8" | "serve_rank (Some (AtRegister Controller)) = 7"
| "serve_rank (Some (AtRegister Node)) = 6" | "serve_rank (Some AtTest) = 5" | "serve_rank (Some AtSpawn) = 4"
| "serve_rank (Some AtServe) = 3" | "serve_rank (Some InServe) = 2" | "serve_rank (Some ServeReturned) = 0"

fun stopper_rank :: "stopper_pc option \<Rightarrow> nat" where
  "stopper_rank None = 4" | "stopper_rank (Some StopperWait) = 3" | "stopper_rank (Some StopperSleep) = 2"
| "stopper_rank (Some StopperStop) = 1" | "stopper_rank (Some StopperReturned) = 0"

definition process_rank :: "'a process \<Rightarrow> nat" where
  "process_rank p = main_rank (p_main p) + serve_rank (p_serve p) + stopper_rank (p_stopper p)
     + (if p_crash p = None then 1 else 0)"

lemma serve_step_rank:
  assumes "process_inv ext a p" "p_crash p = None" "p_serve p = Some pc" "serve_step os a pc p = Some q"
  shows "process_rank q < process_rank p"
proof (cases pc)
  case (AtRegister k)
  then show ?thesis using assms by (cases k) (auto simp: process_rank_def step_defs)
qed (use assms in \<open>auto simp: process_rank_def process_inv_def step_defs
       split: sum.splits option.splits prod.splits if_splits\<close>)

lemma server_step_rank:
  assumes "process_inv False a p" "server_step False os a p q"
  shows "process_rank q < process_rank p"
  using assms(2)
proof cases
  case Main
  then show ?thesis using assms(1)
    by (cases "p_main p"; cases "(a, p_serve p, p)" rule: serve_inv.cases)
      (auto simp: process_rank_def process_inv_def split: if_splits)
next
  case (Serve pc)
  then show ?thesis using assms serve_step_rank by blast
next
  case (Stopper k)
  then show ?thesis by (cases k) (auto simp: process_rank_def p_crash_stop_server split: if_splits)
qed simp_all

lemma stuck_serve:
  assumes "\<nexists>q. server_step ext os a p q" "p_crash p = None" "p_serve p = Some pc"
  shows "pc = ServeReturned \<or> pc = InServe \<and> \<not> stopped p"
proof -
  have "serve_step os a pc p = None" using assms Serve by (metis not_None_eq)
  then show ?thesis by (cases pc) (auto simp: net_do_def split: if_splits prod.splits)
qed

lemma stuck_stopper:
  assumes "\<nexists>q. server_step ext os a p q" "p_crash p = None" "p_stopper p = Some k" "wg p = 0"
  shows "k = StopperReturned"
proof -
  have "stopper_step k p = None" using assms Stopper by (metis not_None_eq)
  then show ?thesis using assms(4) by (cases k) auto
qed

lemma stuck_main:
  assumes "\<nexists>q. server_step ext os a p q" "p_crash p = None"
  shows "p_main p = WaitReturned \<or> p_main p = AtWait \<and> wg p \<noteq> 0"
proof -
  have "main_step (p_main p) p = None" using assms Main by (metis not_None_eq)
  then show ?thesis by (cases "p_main p") (auto split: if_splits)
qed

lemma stuck_process:
  assumes reach: "server_reachable ext os a p" and stuck: "\<nexists>q. server_step ext os a p q" and alive: "p_crash p = None"
  shows "if sa_testMode a then p_main p = WaitReturned \<and> p_serve p = Some ServeReturned \<and> p_stopper p = Some StopperReturned
         else p_main p = AtWait \<and> p_serve p \<in> {Some InServe, Some ServeReturned}"
proof -
  have inv: "process_inv ext a p" using reach by (rule reachable_inv)
  have "p_serve p \<noteq> None" using inv stuck_main [OF stuck alive] by (cases "p_serve p") (auto simp: process_inv_def)
  then obtain pc where pc: "p_serve p = Some pc" "pc = ServeReturned \<or> pc = InServe \<and> \<not> stopped p"
    using stuck_serve [OF stuck alive] by blast
  then have sv: "serving_inv a p" using inv by (auto simp: process_inv_def)
  show ?thesis
  proof (cases "sa_testMode a")
    case True
    then obtain k where k: "p_stopper p = Some k" using sv by auto
    then have "k = StopperReturned" using stuck_stopper [OF stuck alive k] sv True by simp
    then show ?thesis using True pc inv k sv stuck_main [OF stuck alive] by (auto simp: process_inv_def)
  qed (use pc sv in auto)
qed

lemma no_infinite_run:
  fixes p0 :: "'a process"
  assumes "server_reachable False os a p0"
  shows "\<nexists>f :: nat \<Rightarrow> 'a process. f 0 = p0 \<and> (\<forall>n. server_step False os a (f n) (f (Suc n)))"
proof
  assume "\<exists>f :: nat \<Rightarrow> 'a process. f 0 = p0 \<and> (\<forall>n. server_step False os a (f n) (f (Suc n)))"
  then obtain f :: "nat \<Rightarrow> 'a process" where f: "f 0 = p0" "\<And>n. server_step False os a (f n) (f (Suc n))" by blast
  have reach: "server_reachable False os a (f n)" for n
    by (induction n) (use f assms in \<open>auto intro: server_reachable.Step\<close>)
  have "(f (Suc n), f n) \<in> measure process_rank" for n
    using server_step_rank [OF reachable_inv [OF reach] f(2)] by simp
  then show False using wf_measure [of process_rank] unfolding wf_iff_no_infinite_down_chain by blast
qed


subsection \<open>Runs\<close>

text \<open>A schedule names the goroutine of every step; a goroutine that cannot move has no run.\<close>

datatype actor = MainA | ServeA | StopperA | CallStopA | CallForceStopA

fun actor_step :: "net_os \<Rightarrow> 'a serve_args \<Rightarrow> actor \<Rightarrow> 'a process \<Rightarrow> 'a process option" where
  "actor_step os a MainA p = main_step (p_main p) p"
| "actor_step os a ServeA p = Option.bind (p_serve p) (\<lambda>pc. serve_step os a pc p)"
| "actor_step os a StopperA p = Option.bind (p_stopper p) (\<lambda>k. stopper_step k p)"
| "actor_step os a CallStopA p = Some (Stop p)"
| "actor_step os a CallForceStopA p = Some (ForceStop p)"

fun run_schedule :: "net_os \<Rightarrow> 'a serve_args \<Rightarrow> actor list \<Rightarrow> 'a process \<Rightarrow> 'a process option" where
  "run_schedule os a [] p = Some p"
| "run_schedule os a (x # xs) p =
     (if p_crash p = None then Option.bind (actor_step os a x p) (run_schedule os a xs) else None)"

lemma actor_step_sound:
  assumes "actor_step os a x p = Some q" "p_crash p = None" "ext \<or> x \<notin> {CallStopA, CallForceStopA}"
  shows "server_step ext os a p q"
  using assms by (cases x) (auto intro: server_step.intros simp: Option.bind_eq_Some_conv)

lemma run_schedule_reachable:
  assumes "run_schedule os a xs p = Some q" "server_reachable ext os a p"
    and "ext \<or> set xs \<inter> {CallStopA, CallForceStopA} = {}"
  shows "server_reachable ext os a q"
  using assms
proof (induction xs arbitrary: p)
  case (Cons x xs)
  then obtain p1 where p1: "actor_step os a x p = Some p1" "p_crash p = None" "run_schedule os a xs p1 = Some q"
    by (auto simp: Option.bind_eq_Some_conv split: if_splits)
  have "server_step ext os a p p1" using p1 Cons.prems(3) by (intro actor_step_sound) auto
  then show ?case using Cons p1(3) server_reachable.Step by fastforce
qed simp

lemmas schedule_reachable = run_schedule_reachable [OF _ server_reachable.Init]

text \<open>A network without errors, and a server for a test on it.\<close>

definition calm_net :: net_os where
  "calm_net = \<lparr>net_Err = (\<lambda>_ _. None)\<rparr>"

definition test_args :: "unit serve_args" where
  "test_args = \<lparr>sa_endpoint = ''tcp://127.0.0.1:0'', sa_ids = Some (Own ()), sa_cs = None, sa_ns = Some (Own ()), sa_testMode = True\<rparr>"

definition up_schedule :: "actor list" where
  "up_schedule = MainA # replicate 8 ServeA"

definition down_schedule :: "actor list" where
  "down_schedule = up_schedule @ [MainA, StopperA, StopperA, StopperA]"

text \<open>
  In test mode neither \<open>Wait\<close> nor the stopping goroutine waits for \<open>Serve\<close>: the wait group is given back
  before, so there is a run in which \<open>Wait\<close> has returned and the server was stopped while \<open>Serve\<close> is yet to
  be called. And \<open>Stop\<close> right after \<open>Start\<close> can find no server and dereference a nil pointer.
\<close>

theorem wait_and_stop_too_early:
  "(\<exists>p. server_reachable False calm_net test_args p \<and> p_main p = WaitReturned \<and> stopped p
     \<and> p_serve p = Some AtServe \<and> NetServe \<notin> fst ` set (p_net p))
   \<and> (\<exists>p. server_reachable True calm_net test_args p \<and> p_crash p = Some NilDereference)"
proof
  have "case run_schedule calm_net test_args down_schedule new_process of None \<Rightarrow> False
    | Some p \<Rightarrow> p_main p = WaitReturned \<and> stopped p \<and> p_serve p = Some AtServe \<and> list_all (\<lambda>e. fst e \<noteq> NetServe) (p_net p)"
    by code_simp
  then obtain p where p: "run_schedule calm_net test_args down_schedule new_process = Some p"
    "p_main p = WaitReturned" "stopped p" "p_serve p = Some AtServe" "list_all (\<lambda>e. fst e \<noteq> NetServe) (p_net p)"
    by (auto split: option.splits)
  moreover have "server_reachable False calm_net test_args p"
    using schedule_reachable [OF p(1), of False] by (simp add: down_schedule_def up_schedule_def)
  ultimately show "\<exists>p. server_reachable False calm_net test_args p \<and> p_main p = WaitReturned \<and> stopped p
     \<and> p_serve p = Some AtServe \<and> NetServe \<notin> fst ` set (p_net p)"
    by (intro exI [of _ p]) (auto simp: list_all_iff)
next
  have "case run_schedule calm_net test_args [MainA, CallStopA] new_process of None \<Rightarrow> False
    | Some p \<Rightarrow> p_crash p = Some NilDereference" by code_simp
  then show "\<exists>p. server_reachable True calm_net test_args p \<and> p_crash p = Some NilDereference"
    using schedule_reachable [of calm_net test_args "[MainA, CallStopA]" _ True] by (auto split: option.splits)
qed

text \<open>A run of the three goroutines to the end.\<close>

definition full_schedule :: "actor list" where
  "full_schedule = down_schedule @ [ServeA, ServeA]"

lemma full_run:
  "\<exists>p. run_schedule calm_net test_args full_schedule new_process = Some p \<and> server_reachable False calm_net test_args p
     \<and> p_main p = WaitReturned \<and> p_serve p = Some ServeReturned \<and> p_stopper p = Some StopperReturned \<and> p_crash p = None"
proof -
  have "case run_schedule calm_net test_args full_schedule new_process of None \<Rightarrow> False
    | Some p \<Rightarrow> p_main p = WaitReturned \<and> p_serve p = Some ServeReturned \<and> p_stopper p = Some StopperReturned \<and> p_crash p = None"
    by code_simp
  then obtain p where p: "run_schedule calm_net test_args full_schedule new_process = Some p" "p_main p = WaitReturned"
    "p_serve p = Some ServeReturned" "p_stopper p = Some StopperReturned" "p_crash p = None" by (auto split: option.splits)
  then show ?thesis using schedule_reachable [OF p(1), of False]
    by (simp add: full_schedule_def down_schedule_def up_schedule_def)
qed


theorem server_wait_contract_witness:
  "\<exists>p. run_schedule calm_net test_args full_schedule new_process = Some p \<and> wg p \<le> 1
     \<and> services p = Some (registered test_args all_services)"
proof -
  obtain p where p: "run_schedule calm_net test_args full_schedule new_process = Some p"
    "server_reachable False calm_net test_args p" "p_main p = WaitReturned" using full_run by blast
  then show ?thesis using server_wait_contract [OF p(2)] by auto
qed


end
