(* ===== verification/Process.thy ===== *)
theory Process
  imports Grpc_Server
begin

text \<open>
  The process: the start of the driver (\<open>Run\<close>) and the command line (\<open>main.go\<close>). \<open>Run\<close> is composed with the
  serving code run on its own, which the goroutines of the server implement in any order
  (\<open>Grpc_Server\<close>); \<open>Wait\<close> returns when the wait group is zero.
\<close>

subsection \<open>Run and main\<close>

text \<open>
  How a run ends: with a fatal message, with a panic, in a \<open>Wait\<close> that does not return, or by returning. The
  second component of the last two is what the background task does; a crash of it ends the process.
\<close>

datatype run_end = Fatal string | Crashed string
  | Waiting Driver k8s_history "Driver nonBlockingGRPCServer" net_history
  | Returned Driver k8s_history "Driver nonBlockingGRPCServer" net_history

text \<open>
  What the process takes from outside: what setting the log flag and printing return, the YAML printer,
  whether the mounter can unmount by force, and the network.
\<close>

record run_os =
  run_flag_Set :: "go_error option"
  run_Println :: "string \<Rightarrow> go_error option"
  run_marshal :: "VersionInfo \<Rightarrow> string result"
  run_force_unmounter :: bool
  run_net :: net_os

text \<open>The driver is passed to \<open>Start\<close> for each of the three services.\<close>

definition driver_args :: "string \<Rightarrow> bool \<Rightarrow> Driver \<Rightarrow> Driver serve_args" where
  "driver_args endpoint testBool d = \<lparr>sa_endpoint = endpoint, sa_ids = Some (Own d), sa_cs = Some (Own d),
     sa_ns = Some (Own d), sa_testMode = testBool\<rparr>"

definition Run :: "run_os \<Rightarrow> build_info \<Rightarrow> string \<Rightarrow> bool \<Rightarrow> Driver \<Rightarrow> run_end" where
  "Run os b endpoint testBool d =
     (case GetVersionYAML (run_marshal os) b (csi_Name d) of
        Inl err \<Rightarrow> Fatal (error_text err)
      | Inr _ \<Rightarrow>
          if \<not> run_force_unmounter os then Fatal ''Mounter does not support force unmount''
          else
            (let d1 = Run_capabilities d; t = removeNotReadyTaintIfNeeded d1 in
             case Start (run_net os) (driver_args endpoint testBool d1) NewNonBlockingGRPCServer of
               (Some m, _) \<Rightarrow> Fatal m
             | (None, s, h) \<Rightarrow> if Wait_returns s then Returned d1 t s h else Waiting d1 t s h))"

record flags =
  fl_endpoint :: string
  fl_nodeID :: string
  fl_version :: bool
  fl_driverName :: string
  fl_enableAzureLustreMockMount :: bool
  fl_enableAzureLustreMockDynProv :: bool
  fl_workingMountDir :: string
  fl_removeNotReadyTaint :: bool

definition default_flags :: flags where
  "default_flags = \<lparr>fl_endpoint = ''unix://tmp/csi.sock'', fl_nodeID = '''', fl_version = False,
     fl_driverName = DefaultDriverName, fl_enableAzureLustreMockMount = False,
     fl_enableAzureLustreMockDynProv = True, fl_workingMountDir = ''/tmp'', fl_removeNotReadyTaint = True\<rparr>"

definition driver_options :: "flags \<Rightarrow> DriverOptions" where
  "driver_options f = \<lparr>opt_NodeID = fl_nodeID f, opt_DriverName = fl_driverName f,
     opt_EnableAzureLustreMockMount = fl_enableAzureLustreMockMount f,
     opt_EnableAzureLustreMockDynProv = fl_enableAzureLustreMockDynProv f,
     opt_WorkingMountDir = fl_workingMountDir f, opt_RemoveNotReadyTaint = fl_removeNotReadyTaint f\<rparr>"

text \<open>\<open>NewDriver\<close> returns the address of the driver, so the test of \<open>handle\<close> for nil never succeeds.\<close>

definition handle :: "run_os \<Rightarrow> outside \<Rightarrow> flags \<Rightarrow> env \<Rightarrow> run_end" where
  "handle os out f e =
     (case NewDriver out (driver_options f) e of
        Fatalf m \<Rightarrow> Fatal m
      | Panics m \<Rightarrow> Crashed m
      | Started d e' \<Rightarrow> Run os (out_build out) (fl_endpoint f) False d)"

text \<open>\<open>main\<close>: the version that was printed before the exit, or how \<open>handle\<close> ended.\<close>

definition main :: "run_os \<Rightarrow> outside \<Rightarrow> flags \<Rightarrow> env \<Rightarrow> string + run_end" where
  "main os out f e =
     (case run_flag_Set os of
        Some err \<Rightarrow> Inr (Fatal (error_text err))
      | None \<Rightarrow>
          if fl_version f then
            (case GetVersionYAML (run_marshal os) (out_build out) (fl_driverName f) of
               Inl err \<Rightarrow> Inr (Fatal (error_text err))
             | Inr info \<Rightarrow>
                 (case run_Println os info of
                    Some err \<Rightarrow> Inr (Fatal (error_text err))
                  | None \<Rightarrow> Inl info))
          else Inr (handle os out f e))"

subsection \<open>Properties\<close>

text \<open>The network calls of a server that came up, for a protocol and an address.\<close>

definition up_calls :: "string \<Rightarrow> string \<Rightarrow> go_error option \<Rightarrow> go_error option \<Rightarrow> net_history" where
  "up_calls proto addr rm r =
     (if proto = ''unix'' then [(NetRemove (''/'' @ addr), rm), (NetListen proto (''/'' @ addr), None), (NetServe, r)]
      else [(NetListen proto addr, None), (NetServe, r)])"

lemma serve_calls:
  assumes "serve os a s [] = (None, s', h)"
  shows "\<exists>proto addr rm r. ParseEndpoint (sa_endpoint a) = Inr (proto, addr) \<and> h = up_calls proto addr rm r
    \<and> (\<forall>x. rm = Some x \<longrightarrow> is_not_exist x)"
  using assms
  by (auto simp: serve_def serve_listen_def net_do_def up_calls_def Let_def split: sum.splits option.splits prod.splits if_splits)

text \<open>The services that the starters of the common library bring up.\<close>

lemma starters_services:
  "RunNodePublishServer os endpoint d ns tm = (None, s, h) \<Longrightarrow>
     map_option gs_services (srv_server s) = Some [(Identity, DefaultIdentity (NewDefaultIdentityServer d)), (Node, Own ns)]"
  "RunControllerPublishServer os endpoint d cs tm = (None, s, h) \<Longrightarrow>
     map_option gs_services (srv_server s) = Some [(Identity, DefaultIdentity (NewDefaultIdentityServer d)), (Controller, Own cs)]"
  "RunControllerandNodePublishServer os endpoint d cs ns tm = (None, s, h) \<Longrightarrow>
     map_option gs_services (srv_server s) =
       Some [(Identity, DefaultIdentity (NewDefaultIdentityServer d)), (Controller, Own cs), (Node, Own ns)]"
  unfolding RunNodePublishServer_def RunControllerPublishServer_def RunControllerandNodePublishServer_def Start_def
  by (drule serve_result, simp add: registered_def)+

text \<open>
  C32. Starting the process. Outside of test mode \<open>Run\<close> ends in a fatal message or never returns. When it
  does not fail, the driver has the capabilities, it is registered for the three services, and the network
  calls are those of the endpoint in their order: for a Unix socket the old socket file is removed (or
  was missing) before the driver listens on it, and \<open>Serve\<close> is called last, after the listening
  succeeded. This holds also when \<open>Serve\<close> returns an error: the process then waits for ever.
\<close>

theorem run_serves:
  assumes "Run os b endpoint False d = result"
  shows "(\<exists>m. result = Fatal m) \<or>
    (\<exists>t s h proto addr rm r. result = Waiting (Run_capabilities d) t s h
      \<and> t = removeNotReadyTaintIfNeeded (Run_capabilities d)
      \<and> map_option gs_services (srv_server s) =
          Some [(Identity, Own (Run_capabilities d)), (Controller, Own (Run_capabilities d)), (Node, Own (Run_capabilities d))]
      \<and> ParseEndpoint endpoint = Inr (proto, addr) \<and> h = up_calls proto addr rm r
      \<and> (\<forall>x. rm = Some x \<longrightarrow> is_not_exist x))"
proof (cases "\<exists>m. result = Fatal m")
  case False
  let ?a = "driver_args endpoint False (Run_capabilities d)"
  obtain m s h where st: "Start (run_net os) ?a NewNonBlockingGRPCServer = (m, s, h)" using prod_cases3 by blast
  with False assms have m: "m = None"
    by (auto simp: Run_def Let_def split: sum.splits if_splits option.splits)
  note up = serve_result [OF st [unfolded Start_def]]
  then have wg: "srv_wg s = 1" and sv: "map_option gs_services (srv_server s) = Some (registered ?a all_services)"
    using m by (auto simp: driver_args_def NewNonBlockingGRPCServer_def)
  have "result = Waiting (Run_capabilities d) (removeNotReadyTaintIfNeeded (Run_capabilities d)) s h"
    using False assms st m wg by (auto simp: Run_def Let_def Wait_returns_def split: sum.splits if_splits)
  then show ?thesis using serve_calls [OF st [unfolded Start_def m]] sv
    by (auto simp: driver_args_def registered_def)
qed simp

definition quiet_net :: run_os where
  "quiet_net = \<lparr>run_flag_Set = None, run_Println = (\<lambda>_. None), run_marshal = (\<lambda>_. Inr ''v''), run_force_unmounter = True,
     run_net = \<lparr>net_Err = (\<lambda>h c. if c = NetServe then Some (PlainError ''accept'') else None)\<rparr>\<rparr>"

theorem run_serves_witness:
  "\<exists>t s h. Run quiet_net (out_build (sample_outside None)) ''unix://tmp/csi.sock'' False node_driver =
       Waiting (Run_capabilities node_driver) t s h \<and> srv_server s \<noteq> None"
proof -
  have "ParseEndpoint ''unix://tmp/csi.sock'' = Inr (''unix'', ''tmp/csi.sock'')" by code_simp
  then have "\<nexists>m. Run quiet_net (out_build (sample_outside None)) ''unix://tmp/csi.sock'' False node_driver = Fatal m"
    by (simp add: Run_def quiet_net_def GetVersionYAML_def Start_def serve_def serve_listen_def net_do_def Let_def driver_args_def)
  then show ?thesis using run_serves [OF refl, of quiet_net "out_build (sample_outside None)" "''unix://tmp/csi.sock''" node_driver]
    by fastforce
qed

text \<open>
  The scheme of an endpoint is accepted in any spelling, but only the lower-case one is taken for a
  Unix socket: for \<open>UNIX://\<close> the driver removes no old socket and listens on a network of that name at
  an address without the leading slash.
\<close>

theorem upper_case_unix_endpoint:
  "map fst (snd (snd (serve os (driver_args ''UNIX://tmp/csi.sock'' testMode d) s []))) =
     NetListen ''UNIX'' ''tmp/csi.sock'' # (if net_Err os [] (NetListen ''UNIX'' ''tmp/csi.sock'') = None then [NetServe] else [])"
proof -
  have "ParseEndpoint ''UNIX://tmp/csi.sock'' = Inr (''UNIX'', ''tmp/csi.sock'')" by code_simp
  then show ?thesis
    by (auto simp: serve_def serve_listen_def net_do_def driver_args_def Let_def split: option.splits)
qed

end
