(* ===== verification/Fake_Mounter.thy ===== *)
theory Fake_Mounter
  imports Node_File_System
begin

text \<open>
  The fake mounter (\<open>fake_mount.go\<close>): it overrides methods of the library's fake mounter so that marks in
  a source or a target lead to an error or to a given answer, and hands everything else to its parent,
  which is a parameter. As the system below the node service it selects the branches of a publish.
\<close>

abbreviation "fake_error m what \<equiv> PlainError (''fake '' @ m @ '': '' @ what @ '' error'')"

definition fake_Mount ::
    "(string \<Rightarrow> string \<Rightarrow> string \<Rightarrow> string list \<Rightarrow> go_error option) \<Rightarrow> string \<Rightarrow> string \<Rightarrow> string \<Rightarrow> string list \<Rightarrow> go_error option" where
  "fake_Mount parent source target fstype opts =
     (if contains source ''ut-container'' then Some (fake_error ''Mount'' ''source'')
      else if contains target ''error_mount'' then Some (fake_error ''Mount'' ''target'')
      else parent source target fstype opts)"

definition fake_MountSensitive ::
    "(string \<Rightarrow> string \<Rightarrow> string \<Rightarrow> string list \<Rightarrow> string list \<Rightarrow> go_error option)
      \<Rightarrow> string \<Rightarrow> string \<Rightarrow> string \<Rightarrow> string list \<Rightarrow> string list \<Rightarrow> go_error option" where
  "fake_MountSensitive parent source target fstype opts sensitive =
     (if contains source ''ut-container-sens'' then Some (fake_error ''MountSensitive'' ''source'')
      else if contains target ''error_mount_sens'' then Some (fake_error ''MountSensitive'' ''target'')
      else parent source target fstype opts sensitive)"

definition fake_MountSensitiveWithoutSystemdWithMountFlags ::
    "(string \<Rightarrow> string \<Rightarrow> string \<Rightarrow> string list \<Rightarrow> string list \<Rightarrow> string list \<Rightarrow> go_error option)
      \<Rightarrow> string \<Rightarrow> string \<Rightarrow> string \<Rightarrow> string list \<Rightarrow> string list \<Rightarrow> string list \<Rightarrow> go_error option" where
  "fake_MountSensitiveWithoutSystemdWithMountFlags parent source target fstype opts sensitive flags =
     (if contains source ''ut-container-sens-mountflags''
      then Some (fake_error ''MountSensitiveWithoutSystemdWithMountFlags'' ''source'')
      else if contains target ''error_mount_sens_mountflags''
      then Some (fake_error ''MountSensitiveWithoutSystemdWithMountFlags'' ''target'')
      else parent source target fstype opts sensitive flags)"

definition fake_IsLikelyNotMountPoint :: "string \<Rightarrow> bool \<times> go_error option" where
  "fake_IsLikelyNotMountPoint file =
     (if contains file ''error_is_likely''
      then (False, Some (PlainError ''fake IsLikelyNotMountPoint: fake error''))
      else if contains file ''false_is_likely'' then (False, None)
      else (True, None))"

definition fake_UnmountWithForce :: "(string \<Rightarrow> go_error option) \<Rightarrow> string \<Rightarrow> go_error option" where
  "fake_UnmountWithForce unmount target = unmount target"

text \<open>The node's system with the fake mounter; the rest is the parent system.\<close>

fun fake_err :: "node_os \<Rightarrow> node_history \<Rightarrow> node_call \<Rightarrow> go_error option" where
  "fake_err os h (MountLustre s p f opts flags) =
     fake_MountSensitiveWithoutSystemdWithMountFlags
       (\<lambda>s p f opts sensitive flags. os_Err os h (MountLustre s p f opts flags)) s p f opts [] flags"
| "fake_err os h (UnmountWithForce p n) = fake_UnmountWithForce (\<lambda>p. os_Err os h (Unmount p)) p"
| "fake_err os h c = os_Err os h c"

definition fake_os :: "node_os \<Rightarrow> node_os" where
  "fake_os os = os\<lparr>os_Err := fake_err os, os_IsLikelyNotMountPoint := \<lambda>h. fake_IsLikelyNotMountPoint\<rparr>"

lemma fake_os_simps [simp]:
  "os_Err (fake_os os) = fake_err os" "os_IsLikelyNotMountPoint (fake_os os) h p = fake_IsLikelyNotMountPoint p"
  "os_ReadDir (fake_os os) = os_ReadDir os"
  by (simp_all add: fake_os_def)

text \<open>A directory can be made: \<open>MkdirAll\<close> succeeds or says that it exists.\<close>

definition can_make :: "node_os \<Rightarrow> string \<Rightarrow> bool" where
  "can_make os p \<longleftrightarrow> (\<forall>h. MakeDir (os_Err os h (MkdirAll p)) = None)"

text \<open>
  The fake mounter selects the branches of a publish outside of mock mode. A mark for a failing check
  makes the publish fail without a mount, unless the directory is corrupted; a mark for a mount point
  that can be read makes it succeed without a mount; a mark for a failing mount makes it fail after the
  mount was tried and the mount point removed; without a mark and with a parent that mounts, the
  target is mounted.
\<close>

lemma fake_mounter_branches:
  assumes "publish_target (fake_os os) d source p opts h = ((r, ok), h')" "\<not> enableAzureLustreMockMount d" "can_make os p"
  shows "(contains p ''error_is_likely'' \<and> (\<forall>h. os_Err os h (PathExists p) = None) \<longrightarrow>
        (\<exists>e. r = Inl (internal_error e)) \<and> h' = h @ [(IsLikelyNotMountPoint p, snd (fake_IsLikelyNotMountPoint p)), (PathExists p, None)])
    \<and> (\<not> contains p ''error_is_likely'' \<and> contains p ''false_is_likely'' \<and> (\<forall>h. snd (os_ReadDir os h p) = None) \<longrightarrow>
        r = Inr () \<and> \<not> ok \<and> h' = h @ [(IsLikelyNotMountPoint p, None), (ReadDir p, None)])
    \<and> (\<not> contains p ''error_is_likely'' \<and> \<not> contains p ''false_is_likely'' \<and> contains p ''error_mount_sens_mountflags'' \<longrightarrow>
        (\<exists>e x. r = Inl (internal_error e) \<and> last h' = (RemoveFile p, x)) \<and> mount_table h' = mount_table h)
    \<and> (\<not> contains p ''error_is_likely'' \<and> \<not> contains p ''false_is_likely'' \<and> \<not> contains p ''error_mount_sens_mountflags''
        \<and> \<not> contains source ''ut-container-sens-mountflags'' \<and> (\<forall>h f opts flags. os_Err os h (MountLustre source p f opts flags) = None) \<longrightarrow>
        r = Inr () \<and> ok \<and> mount_table h' p = Some (source, opts))"
proof -
  note defs = publish_target_def ensureMountPoint_def fake_IsLikelyNotMountPoint_def Let_def node_do_def
  have likely: "\<exists>e. r = Inl (internal_error e)" "h' = h @ [(IsLikelyNotMountPoint p, snd (fake_IsLikelyNotMountPoint p)), (PathExists p, None)]"
    if "contains p ''error_is_likely''" "\<forall>h. os_Err os h (PathExists p) = None"
    using assms(1) that by (auto simp: defs IsCorruptedDir_def is_not_exist_def)
  have mounted: "r = Inr () \<and> \<not> ok \<and> h' = h @ [(IsLikelyNotMountPoint p, None), (ReadDir p, None)]"
    if "\<not> contains p ''error_is_likely''" "contains p ''false_is_likely''" "\<forall>h. snd (os_ReadDir os h p) = None"
  proof -
    have "snd (os_ReadDir os (h @ [(IsLikelyNotMountPoint p, None)]) p) = None" using that(3) by blast
    then show ?thesis using assms(1) that(1,2) by (auto simp: defs ensure_rest_def valid_mount_def split: prod.splits)
  qed
  let ?h1 = "h @ [(IsLikelyNotMountPoint p, None), (MkdirAll p, os_Err os (h @ [(IsLikelyNotMountPoint p, None)]) (MkdirAll p))]"
  have tgt: "publish_target (fake_os os) d source p opts h =
      (case mount_or_remove (fake_os os) source p opts ?h1 of (Some e, h2) \<Rightarrow> ((Inl e, False), h2) | (None, h2) \<Rightarrow> ((Inr (), True), h2))"
    if "\<not> contains p ''error_is_likely''" "\<not> contains p ''false_is_likely''"
    using assms(2,3) that by (simp add: defs ensure_rest_def make_dir_def can_make_def)
  have h1: "mount_table ?h1 = mount_table h" by (simp add: mount_table_append)
  have failed: "(\<exists>e x. r = Inl (internal_error e) \<and> last h' = (RemoveFile p, x)) \<and> mount_table h' = mount_table h"
    if "\<not> contains p ''error_is_likely''" "\<not> contains p ''false_is_likely''" "contains p ''error_mount_sens_mountflags''"
    using assms(1) that h1
    by (auto simp: tgt mount_or_remove_def mountVolumeAtPath_def node_do_def mount_table_append
        fake_MountSensitiveWithoutSystemdWithMountFlags_def split: option.splits if_splits)
  have went: "r = Inr () \<and> ok \<and> mount_table h' p = Some (source, opts)"
    if "\<not> contains p ''error_is_likely''" "\<not> contains p ''false_is_likely''" "\<not> contains p ''error_mount_sens_mountflags''"
      "\<not> contains source ''ut-container-sens-mountflags''" "\<forall>h f opts flags. os_Err os h (MountLustre source p f opts flags) = None"
    using assms(1) that
    by (auto simp: tgt mount_or_remove_def mountVolumeAtPath_def node_do_def mount_table_append
        fake_MountSensitiveWithoutSystemdWithMountFlags_def)
  show ?thesis using likely mounted failed went by blast
qed

lemma fake_mounter_branches_witness:
  "\<exists>e h'. publish_target (fake_os file_system) node_driver ''s'' ''/error_is_likely'' [] [] = ((Inl (internal_error e), False), h')"
proof -
  obtain r ok h' where run: "publish_target (fake_os file_system) node_driver ''s'' ''/error_is_likely'' [] [] = ((r, ok), h')"
    by (metis surj_pair)
  have "contains ''/error_is_likely'' ''error_is_likely''" by code_simp
  then have "\<exists>e. r = Inl (internal_error e)"
    using fake_mounter_branches [OF run] by (simp add: node_driver_def can_make_def file_system_def MakeDir_def)
  moreover from run have "r = Inl x \<Longrightarrow> \<not> ok" for x by (cases rule: publish_target_cases) auto
  ultimately show ?thesis using run by auto
qed

end
