(* ===== verification/Spec2Isabelle.thy ===== *)
theory Spec2Isabelle
  imports Prelude Go_Strings Go_Path Grpc_Errors Util Volume_Locks Lock_Map Lustre_Volume
    Dynamic_Provisioning Csi_Common Azurelustre Controller_Server Controller_Theorems
    Volume_Life_Cycle Parameters Cluster_Table
    Node_Server Sub_Dir Node_Traces Node_Theorems Node_Mounts Node_File_System Volume_Use Node_Concurrency
    Services Grpc_Server Process Fake_Mounter
begin

text \<open>
  A verification of the Azure Lustre CSI driver (Go, \<open>src/pkg\<close>).

  \<^bold>\<open>The program.\<close> The driver is a gRPC server with the three services of the Container Storage Interface.
  The controller service (\<open>azurelustre/controllerserver.go\<close>) reads the parameters of a volume, and either
  refers to an existing Lustre server or asks the provisioner (\<open>azurelustre/dynamic_provisioning.go\<close>) for a
  cluster in Azure; the identifier it returns is all that a later deletion knows. The node service
  (\<open>azurelustre/nodeserver.go\<close>) mounts a volume on a target path and, for a writable volume with a
  sub-directory, first mounts the whole file system below a working directory to make that directory. The
  identity service (\<open>identityserver.go\<close>) and the default servers (\<open>csi-common\<close>) answer the rest. A table of
  volume locks (\<open>volume_lock.go\<close>) keeps operations on one volume apart. \<open>azurelustre.go\<close> builds and runs the
  driver and removes a start-up taint of the node in the background, \<open>csi-common/server.go\<close> serves it,
  \<open>azurelustreplugin/main.go\<close> is the
  command line, \<open>util/util.go\<close> the helpers.

  \<^bold>\<open>How code becomes definitions.\<close> A Go function is a definition of the same name (a block of a long one has
  its own definition, named in the manifest with its lines). An \<open>int64\<close> is a 64-bit word, a string a list
  of bytes, a map an association list in the order of one \<open>range\<close> statement; as that order is free, a
  handler takes an order for each of its \<open>range\<close> statements and the theorems hold for all of them. An
  error is a value of \<open>go_error\<close>; a nil read is the error \<open>Panic\<close>, which no caller converts. What the driver
  only calls (Azure, the Kubernetes API, the mounter, the file system, the network) is a parameter that
  answers from the history of all calls so far, so that theorems hold for every behaviour in time, and an
  operation returns the extended history. Deferred calls are made on every path after their \<open>defer\<close>.
  Logging leaves no trace, and the metrics are reduced to what they observe.

  \<^bold>\<open>The theories.\<close>
  \<^item> \<open>Prelude\<close>, \<open>Go_Strings\<close>, \<open>Go_Path\<close>, \<open>Grpc_Errors\<close>: types, the \<open>range\<close> loop with early return, signed
    arithmetic, the parts of \<open>strings\<close>, \<open>strconv\<close>, \<open>fmt\<close> and \<open>path/filepath\<close> that the source uses, errors.
  \<^item> \<open>Util\<close>: \<open>util/util.go\<close> without its lock map: sizes, tags (with the round trip of the tag format),
    replacement, and the case-insensitive parameter map as an interpretation of the locale \<open>ci_store\<close>.
  \<^item> \<open>Volume_Locks\<close>: the lock table as an interpretation of the locale \<open>try_lock\<close>, and the interleavings of
    handlers as a step relation: mutual exclusion. \<open>Lock_Map\<close>: \<open>LockEntry\<close> and \<open>UnlockEntry\<close> cut into atomic
    steps, with their invariant and the data race.
  \<^item> \<open>Lustre_Volume\<close>: volume identifiers and volume contexts; round trip and independence of map orders.
  \<^item> \<open>Dynamic_Provisioning\<close>: every operation of the provisioner over clients of Azure; the protocol of a
    creation, its guards, its deletion policy and the table of SKUs. The locale \<open>lustre_provisioner\<close> is the
    contract that the controller relies on, interpreted on these operations.
  \<^item> \<open>Csi_Common\<close>, \<open>Azurelustre\<close>: the driver objects, endpoint parser, log interceptor, construction,
    capabilities, subnets, versions and the removal of the taint with its bounded retries. A Go interface
    that can hold a nil pointer is told from a nil interface where the code confuses the two
    (\<open>getKubeClient\<close>).
  \<^item> \<open>Controller_Server\<close>, \<open>Controller_Theorems\<close>, \<open>Parameters\<close>, \<open>Volume_Life_Cycle\<close>: the controller service;
    its calls, rounding and capacities at 64 bits, accepted parameters, and a volume from its
    creation to its deletion. The locale \<open>csi_handler\<close> is the contract of a handler with a volume lock,
    interpreted on the two handlers here and on the two of the node service.
  \<^item> \<open>Cluster_Table\<close>: the table of clusters that a history of Azure calls leaves. The locale
    \<open>cluster_provisioner\<close> extends \<open>lustre_provisioner\<close> by what the operations do to it; the controller
    refines an insertion and a removal, and a failed creation leaves no created cluster behind except on
    the two paths that the theorem names.
  \<^item> \<open>Volume_Use\<close>: the two services together. What \<open>CreateVolume\<close> returns is given to \<open>NodePublishVolume\<close>; the
    node reads the volume that the controller made and mounts it.
  \<^item> \<open>Node_Server\<close>: the node service. \<open>Node_Traces\<close> says from which blocks of calls the trace of each
    operation is built; \<open>Node_Theorems\<close> derives where its paths lie, what it touches, its errors,
    mount options and statistics; \<open>Node_Mounts\<close> shows that it refines two operations on a mount table and
    takes its internal mounts down; \<open>Node_File_System\<close> is a concrete system for the witnesses, on which
    two recoveries fail. \<open>Fake_Mounter\<close> is \<open>fake_mount.go\<close> as such a system. \<open>Sub_Dir\<close> compares the replacement
    of placeholders with a single pass over the text. \<open>Node_Concurrency\<close> interleaves the runs of the two
    handlers over the volume locks and the kernel module lock: exclusion, no deadlock, an end.
  \<^item> \<open>Services\<close>: the default servers and the dispatch of all CSI requests; isolation of the services and
    exactness of the advertised capabilities; the volume locks of the four handlers.
  \<^item> \<open>Grpc_Server\<close>: \<open>server.go\<close> as sequential code and as the goroutines that run it, a step relation with
    \<open>Stop\<close> and \<open>ForceStop\<close> at any moment; the goroutines refine the sequential code. \<open>Process\<close>: \<open>Run\<close> and
    \<open>main.go\<close>.

  \<^bold>\<open>Bounds and fuel.\<close> Everything terminates by structural recursion or a measure. \<open>trim_left_fuel\<close> has the
  length of its string as fuel, and every step drops at least one byte (\<open>drop_space_shorter\<close>), so it is
  enough (\<open>trim_left_complete\<close>). The pagers of Azure are lists of pages, of any length. The retries of the
  taint removal are bounded by the back-off's number of steps, as in the source. That the interleaved
  handlers and goroutines come to an end is proved with a measure of the work left.

  \<^bold>\<open>Hypotheses.\<close> \<open>tib_skus\<close> (the service states capacities in whole TiB within the range of a float),
  \<open>good_params\<close> and \<open>lc_ok\<close> (no two spellings of one key; no separator in a value), \<open>template_ok\<close> (no dollar
  sign of a sub-directory starts an incomplete placeholder), \<open>faithful\<close> (the system's
  answers about mount points follow its own mounts), \<open>healthy\<close> (a faithful system on which directories can be
  made, clean-ups succeed and a mount on a directory just made succeeds), \<open>pod_info\<close> (the kubelet adds only
  its own keys to a volume context), \<open>usable_sub_dir\<close> (the expanded sub-directory is a strict sub-path and
  nothing is mounted on the internal mount point) and \<open>directory_gone\<close> (a clean-up removes the directory;
  a mount and a removal need one) are named where they are used, and a witness shows that each holds of a
  concrete system.

  \<^bold>\<open>Not modelled.\<close> Log output other than that of the interceptor; the Azure SDK, the Kubernetes client, the
  mount library, the gRPC library and the metrics library beyond the calls the driver makes; contexts and
  their cancellation, except the deadline errors that they cause; the parsing of flags; the length of the
  sleep before the stop in the server's test mode, which takes any time. Two handlers at work at once
  share nothing but the locks in the interleavings: what one sees of the mounts of another is covered by
  letting every answer of the system be arbitrary. Upper and lower case are exact for ASCII and for the three other runes that fold to
  ASCII letters, which decides all comparisons that the driver makes with its ASCII keys.
\<close>

end
